theory Spec2Isabelle
  imports Main "HOL-Library.Word"
begin

unbundle bit_operations_syntax

section \<open>Bytes and host byte order (Endianness.hpp)\<close>

text \<open>
  Memory is a list of bytes. A multi-byte object is stored in the byte order of the host;
  the host is the parameter \<open>big\<close> of every function that depends on it
  (\<open>big = (std::endian::native \<noteq> TBF_ENDIANESS)\<close>, with \<open>TBF_ENDIANESS = little\<close>).
\<close>

type_synonym byte = "8 word"

definition le_bytes :: "'a::len word \<Rightarrow> byte list" where
  "le_bytes v = map (\<lambda>i. ucast (drop_bit (8 * i) v)) [0..<LENGTH('a) div 8]"

fun le_word :: "byte list \<Rightarrow> 'a::len word" where
  "le_word [] = 0"
| "le_word (b # bs) = ucast b OR push_bit 8 (le_word bs)"

text \<open>The object representation of a value on the host, and \<open>memcpy\<close> out of memory
  into a value of the host.\<close>

definition host_bytes :: "bool \<Rightarrow> 'a::len word \<Rightarrow> byte list" where
  "host_bytes big v = (if big then rev (le_bytes v) else le_bytes v)"

definition host_word :: "bool \<Rightarrow> byte list \<Rightarrow> 'a::len word" where
  "host_word big bs = (if big then le_word (rev bs) else le_word bs)"

text \<open>\<open>std::byteswap\<close> reverses the bytes of a value.\<close>

definition byteswap :: "'a::len word \<Rightarrow> 'a word" where
  "byteswap v = le_word (rev (le_bytes v))"

text \<open>\<open>AdjustEndianess\<close>: on a host that is not little-endian, values of 2, 4 and 8
  bytes are byte-swapped; every other size is left alone.\<close>

definition AdjustEndianess :: "bool \<Rightarrow> 'a::len word \<Rightarrow> 'a word" where
  "AdjustEndianess big v =
     (if big then
        (if LENGTH('a) = 16 then byteswap v
         else if LENGTH('a) = 32 then byteswap v
         else if LENGTH('a) = 64 then byteswap v
         else v)
      else v)"

section \<open>Tags (DataTag.hpp)\<close>

definition MAX_TAG_NAME_LENGTH :: nat where
  "MAX_TAG_NAME_LENGTH = 0xFF"

definition IsValidTagChar :: "char \<Rightarrow> bool" where
  "IsValidTagChar c =
     (let n = (of_char c :: nat) in
        (of_char CHR ''a'' \<le> n \<and> n \<le> of_char CHR ''z'') \<or>
        (of_char CHR ''A'' \<le> n \<and> n \<le> of_char CHR ''Z'') \<or>
        (of_char CHR ''0'' \<le> n \<and> n \<le> of_char CHR ''9'') \<or>
        c = CHR ''_'')"

definition IsTagNameValid :: "string \<Rightarrow> bool" where
  "IsTagNameValid name =
     (if name = [] \<or> length name > MAX_TAG_NAME_LENGTH then False
      else list_all IsValidTagChar name)"

text \<open>The body of the loop of \<open>TagNameHash\<close>: the value \<open>mapped\<close> of one character.\<close>

definition mapped :: "char \<Rightarrow> byte" where
  "mapped c =
     (let n = (of_char c :: nat) in
        if of_char CHR ''a'' \<le> n \<and> n \<le> of_char CHR ''z'' then of_nat (n - of_char CHR ''a'' + 1)
        else if of_char CHR ''A'' \<le> n \<and> n \<le> of_char CHR ''Z'' then of_nat (n - of_char CHR ''A'' + 1)
        else if of_char CHR ''0'' \<le> n \<and> n \<le> of_char CHR ''9'' then of_nat (n - of_char CHR ''0'' + 27)
        else if c = CHR ''_'' then 37
        else 0)"

fun TagNameHash_loop :: "string \<Rightarrow> 32 word \<Rightarrow> 32 word" where
  "TagNameHash_loop [] hash = hash"
| "TagNameHash_loop (c # str) hash = TagNameHash_loop str ((hash XOR ucast (mapped c)) * 16777619)"

definition TagNameHash :: "string \<Rightarrow> 32 word" where
  "TagNameHash str = TagNameHash_loop str 2166136261"

record DataTag =
  GetId :: "16 word"
  GetName :: string

definition INVALID_ID :: "16 word" where
  "INVALID_ID = 0"

datatype tag_error = invalid_argument

text \<open>\<open>DataTag::Validate\<close> throws; the two validating constructors return the error.\<close>

definition Validate :: "DataTag \<Rightarrow> tag_error + DataTag" where
  "Validate t =
     (if \<not> IsTagNameValid (GetName t) then Inl invalid_argument
      else if GetId t = INVALID_ID then Inl invalid_argument
      else Inr t)"

text \<open>\<open>DataTag(const char* name)\<close>, \<open>DataTag(Id id, const char* name)\<close>, and the two
  unchecked constructors \<open>DataTag(Id)\<close> and \<open>DataTag(std::string_view)\<close>.\<close>

definition DataTag_of_literal :: "string \<Rightarrow> tag_error + DataTag" where
  "DataTag_of_literal name = Validate \<lparr>GetId = ucast (TagNameHash name), GetName = name\<rparr>"

definition DataTag_of_id_literal :: "16 word \<Rightarrow> string \<Rightarrow> tag_error + DataTag" where
  "DataTag_of_id_literal i name = Validate \<lparr>GetId = i, GetName = name\<rparr>"

definition DataTag_of_id :: "16 word \<Rightarrow> DataTag" where
  "DataTag_of_id i = \<lparr>GetId = i, GetName = []\<rparr>"

definition DataTag_of_name :: "string \<Rightarrow> DataTag" where
  "DataTag_of_name name = \<lparr>GetId = INVALID_ID, GetName = name\<rparr>"

subsection \<open>The hash schedule as the format document words it\<close>

text \<open>
  The schedule in the words of the format: start at 2166136261; for each character, map it
  (a-z and A-Z to 1..26, 0-9 to 27..36, underscore to 37, anything else to 0), XOR the
  mapped value in, multiply by 16777619 modulo \<open>2 ^ 32\<close>; the id is the low 16 bits.
\<close>

definition mapped_spec :: "char \<Rightarrow> nat" where
  "mapped_spec c =
     (if c \<in> set ''abcdefghijklmnopqrstuvwxyz'' then of_char c - 96
      else if c \<in> set ''ABCDEFGHIJKLMNOPQRSTUVWXYZ'' then of_char c - 64
      else if c \<in> set ''0123456789'' then of_char c - 48 + 27
      else if c = CHR ''_'' then 37
      else 0)"

fun fnv1a_spec :: "string \<Rightarrow> nat \<Rightarrow> nat" where
  "fnv1a_spec [] h = h"
| "fnv1a_spec (c # cs) h = fnv1a_spec cs (((h XOR mapped_spec c) * 16777619) mod 2 ^ 32)"

definition tag_id_spec :: "string \<Rightarrow> nat" where
  "tag_id_spec s = fnv1a_spec s 2166136261 mod 2 ^ 16"

text \<open>Upper-casing of ASCII letters, to state case-insensitivity for every name.\<close>

definition ascii_toupper :: "char \<Rightarrow> char" where
  "ascii_toupper c =
     (if (97::nat) \<le> of_char c \<and> of_char c \<le> (122::nat) then char_of (of_char c - (32::nat)) else c)"


section \<open>Type codes (DataType.hpp)\<close>

text \<open>\<open>enum class DataType : uint8_t\<close>: a type code is a byte; the decoder casts any byte
  of the input to it.\<close>

type_synonym DataType = byte
type_synonym FieldSize = "32 word"

definition CLASSIFICATION_MASK :: byte where "CLASSIFICATION_MASK = 0xF0"
definition BASE_TYPE_MASK :: byte where "BASE_TYPE_MASK = 0x0F"

definition Raw :: DataType where "Raw = 0x00"
definition Array :: DataType where "Array = 0xA0"
definition Vector2 :: DataType where "Vector2 = 0x20"
definition Vector3 :: DataType where "Vector3 = 0x30"
definition Vector4 :: DataType where "Vector4 = 0x40"

definition Int8 :: DataType where "Int8 = 0x00"
definition Int16 :: DataType where "Int16 = 0x01"
definition Int32 :: DataType where "Int32 = 0x02"
definition Int64 :: DataType where "Int64 = 0x03"
definition UInt8 :: DataType where "UInt8 = 0x04"
definition UInt16 :: DataType where "UInt16 = 0x05"
definition UInt32 :: DataType where "UInt32 = 0x06"
definition UInt64 :: DataType where "UInt64 = 0x07"
definition Boolean :: DataType where "Boolean = 0x08"
definition Float16 :: DataType where "Float16 = 0x09"
definition Float32 :: DataType where "Float32 = 0x0A"
definition Float64 :: DataType where "Float64 = 0x0B"
definition UUID :: DataType where "UUID = 0x0C"
definition String :: DataType where "String = 0x0D"
definition Binary :: DataType where "Binary = 0x0E"
definition Object :: DataType where "Object = 0x0F"

definition Vector2f32 :: DataType where "Vector2f32 = Vector2 OR Float32"
definition Vector3f32 :: DataType where "Vector3f32 = Vector3 OR Float32"
definition Vector3i32 :: DataType where "Vector3i32 = Vector3 OR Int32"

definition Int8Array :: DataType where "Int8Array = Array OR Int8"
definition Int16Array :: DataType where "Int16Array = Array OR Int16"
definition Int32Array :: DataType where "Int32Array = Array OR Int32"
definition Int64Array :: DataType where "Int64Array = Array OR Int64"
definition UInt8Array :: DataType where "UInt8Array = Array OR UInt8"
definition UInt16Array :: DataType where "UInt16Array = Array OR UInt16"
definition UInt32Array :: DataType where "UInt32Array = Array OR UInt32"
definition UInt64Array :: DataType where "UInt64Array = Array OR UInt64"
definition BooleanArray :: DataType where "BooleanArray = Array OR Boolean"
definition Float16Array :: DataType where "Float16Array = Array OR Float16"
definition Float32Array :: DataType where "Float32Array = Array OR Float32"
definition Float64Array :: DataType where "Float64Array = Array OR Float64"
definition UUIDArray :: DataType where "UUIDArray = Array OR UUID"
definition StringArray :: DataType where "StringArray = Array OR String"
definition BinaryArray :: DataType where "BinaryArray = Array OR Binary"
definition ObjectArray :: DataType where "ObjectArray = Array OR Object"

definition Invalid :: DataType where "Invalid = 0xFF"

definition TypeClassification :: "DataType \<Rightarrow> DataType" where
  "TypeClassification t = t AND CLASSIFICATION_MASK"

definition BaseDataType :: "DataType \<Rightarrow> DataType" where
  "BaseDataType t = t AND BASE_TYPE_MASK"

definition IsPrimitiveType :: "DataType \<Rightarrow> bool" where
  "IsPrimitiveType t = (TypeClassification t = Raw)"

definition IsVectorType :: "DataType \<Rightarrow> bool" where
  "IsVectorType t =
     (let classification = TypeClassification t
      in classification \<ge> Vector2 \<and> classification \<le> Vector4)"

definition IsArrayType :: "DataType \<Rightarrow> bool" where
  "IsArrayType t = (TypeClassification t = Array)"

definition IsDynamicArrayType :: "DataType \<Rightarrow> bool" where
  "IsDynamicArrayType t = (t = StringArray \<or> t = BinaryArray \<or> t = ObjectArray)"

definition IsFixedSizeArrayType :: "DataType \<Rightarrow> bool" where
  "IsFixedSizeArrayType t = (IsArrayType t \<and> \<not> IsDynamicArrayType t)"

definition IsPrimitive :: "DataType \<Rightarrow> bool" where
  "IsPrimitive t = (t AND 0b1100 \<noteq> 0b1100)"

definition IsValidDataType :: "DataType \<Rightarrow> bool" where
  "IsValidDataType t =
     (let c = TypeClassification t in
        if c = Raw then True
        else if c = Array then True
        else if c = Vector2 \<or> c = Vector3 \<or> c = Vector4 then IsPrimitive t
        else False)"

definition DataTypeSize :: "DataType \<Rightarrow> 32 word" where
  "DataTypeSize t =
     (if t = Int8 \<or> t = UInt8 \<or> t = Boolean then 1
      else if t = Int16 \<or> t = UInt16 \<or> t = Float16 then 2
      else if t = Int32 \<or> t = UInt32 \<or> t = Float32 then 4
      else if t = Int64 \<or> t = UInt64 \<or> t = Float64 then 8
      else if t = UUID then 16
      else 0)"

definition VectorTypeDimension :: "DataType \<Rightarrow> 32 word" where
  "VectorTypeDimension t =
     (let c = TypeClassification t in
        if c = Vector2 then 2 else if c = Vector3 then 3 else if c = Vector4 then 4 else 0)"

section \<open>In-place byte swapping of arrays (Endianness.hpp)\<close>

text \<open>A write of \<open>bs\<close> at offset \<open>p\<close>. A write that does not fit into the memory is undefined
  in C++; the model leaves the memory as it is.\<close>

definition store :: "byte list \<Rightarrow> nat \<Rightarrow> byte list \<Rightarrow> byte list" where
  "store mem p bs = (if p + length bs \<le> length mem then take p mem @ bs @ drop (p + length bs) mem else mem)"

definition swap_element :: "nat \<Rightarrow> byte list \<Rightarrow> nat \<Rightarrow> byte list" where
  "swap_element sz mem p = store mem p (rev (take sz (drop p mem)))"

text \<open>\<open>AdjustArrayEndianess<size>(data, count)\<close>, \<open>data\<close> an offset into \<open>mem\<close>.\<close>

definition AdjustArrayEndianess :: "bool \<Rightarrow> nat \<Rightarrow> byte list \<Rightarrow> nat \<Rightarrow> nat \<Rightarrow> byte list" where
  "AdjustArrayEndianess big sz mem data count =
     (if sz > 1 \<and> big then
        (if sz = 2 \<or> sz = 4 \<or> sz = 8
         then fold (\<lambda>i m. swap_element sz m (data + i * sz)) [0..<count] mem
         else mem)
      else mem)"

section \<open>The encoder (Writer.hpp, Writer.cpp)\<close>

text \<open>
  \<open>ObjectWriter\<close> and \<open>ArrayWriter\<close> hold a reference to the \<open>Writer\<close>; the model passes
  the writer in and returns it. The capacity of the vector, which \<open>ReserveBuffer\<close>
  grows, is not part of the bytes and is left out.
\<close>

record ObjectWriter =
  m_obj_size_pos :: nat
  m_is_finished :: bool

record ArrayWriter =
  m_array_size_pos :: nat
  m_is_finished' :: bool

record Writer =
  m_buffer_grow_size :: "32 word"
  m_buffer :: "byte list"
  m_name_based :: bool
  m_root_object :: ObjectWriter

definition MIN_BUFFER_GROW_SIZE :: "32 word" where "MIN_BUFFER_GROW_SIZE = 1024"
definition DEFAULT_BUFFER_GROW_SIZE :: "32 word" where "DEFAULT_BUFFER_GROW_SIZE = 1024 * 1024"

definition SetBufferGrowSize :: "32 word \<Rightarrow> Writer \<Rightarrow> Writer" where
  "SetBufferGrowSize grow_size w =
     (if grow_size > MIN_BUFFER_GROW_SIZE then w\<lparr>m_buffer_grow_size := grow_size\<rparr>
      else w\<lparr>m_buffer_grow_size := MIN_BUFFER_GROW_SIZE\<rparr>)"

text \<open>\<open>WriteData(const void* data, size_t size)\<close>: \<open>data\<close> is the memory at the pointer.\<close>

definition WriteData_bytes :: "byte list \<Rightarrow> nat \<Rightarrow> Writer \<Rightarrow> nat \<times> Writer" where
  "WriteData_bytes data sz w = (length (m_buffer w), w\<lparr>m_buffer := m_buffer w @ take sz data\<rparr>)"

text \<open>\<open>WriteData<Type, swap_endianess>(Type value)\<close>; \<open>sizeof(Type) > 1\<close> is
  \<open>LENGTH('a) > 8\<close>.\<close>

definition WriteData :: "bool \<Rightarrow> bool \<Rightarrow> 'a::len word \<Rightarrow> Writer \<Rightarrow> Writer" where
  "WriteData big swap_endianess v w =
     (if LENGTH('a) > 8 then
        (let v' = (if swap_endianess then AdjustEndianess big v else v)
         in w\<lparr>m_buffer := m_buffer w @ host_bytes big v'\<rparr>)
      else w\<lparr>m_buffer := m_buffer w @ [ucast v]\<rparr>)"

definition WriteFieldHeader :: "bool \<Rightarrow> DataTag \<Rightarrow> DataType \<Rightarrow> Writer \<Rightarrow> Writer" where
  "WriteFieldHeader big tag t w =
     (let w1 = WriteData big True t w in
        if m_name_based w1 then
          (let w2 = WriteData big True (of_nat (length (GetName tag)) :: byte) w1
           in w2\<lparr>m_buffer := m_buffer w2 @ map of_char (GetName tag)\<rparr>)
        else WriteData big True (GetId tag) w1)"

definition ReserveDataSizeField :: "Writer \<Rightarrow> nat \<times> Writer" where
  "ReserveDataSizeField w = (length (m_buffer w), w\<lparr>m_buffer := m_buffer w @ replicate 4 0\<rparr>)"

text \<open>The subtraction is in \<open>size_t\<close> and the result is narrowed to \<open>FieldSize\<close>: it is
  computed modulo \<open>2 ^ 32\<close>.\<close>

definition WriteDataSizeField :: "bool \<Rightarrow> nat \<Rightarrow> Writer \<Rightarrow> Writer" where
  "WriteDataSizeField big offset w =
     (let sz = (of_nat (length (m_buffer w)) - of_nat offset - 4 :: FieldSize);
          size' = AdjustEndianess big sz
      in w\<lparr>m_buffer := store (m_buffer w) offset (host_bytes big size')\<rparr>)"

text \<open>A string is the bytes of its \<open>std::string_view\<close>.\<close>

definition WriteString :: "bool \<Rightarrow> byte list \<Rightarrow> Writer \<Rightarrow> Writer" where
  "WriteString big str w =
     (let len = (of_nat (length str) :: 16 word);
          w1 = WriteData big True len w
      in snd (WriteData_bytes str (unat len) w1))"

definition WriteBinary :: "bool \<Rightarrow> byte list \<Rightarrow> FieldSize \<Rightarrow> Writer \<Rightarrow> Writer" where
  "WriteBinary big data sz w =
     (let w1 = WriteData big True sz w
      in snd (WriteData_bytes data (unat sz) w1))"

subsection \<open>ObjectWriter\<close>

definition ObjectWriter_new :: "Writer \<Rightarrow> Writer \<times> ObjectWriter" where
  "ObjectWriter_new w =
     (let (pos, w') = ReserveDataSizeField w
      in (w', \<lparr>m_obj_size_pos = pos, m_is_finished = False\<rparr>))"

definition ObjectWriter_Finish :: "bool \<Rightarrow> Writer \<Rightarrow> ObjectWriter \<Rightarrow> Writer \<times> ObjectWriter" where
  "ObjectWriter_Finish big w ow =
     (if \<not> m_is_finished ow
      then (WriteDataSizeField big (m_obj_size_pos ow) w, ow\<lparr>m_is_finished := True\<rparr>)
      else (w, ow))"

text \<open>\<open>ObjectWriter\<close> declares no destructor: the end of the lifetime of a handle does
  nothing to the buffer.\<close>

definition ObjectWriter_destroy :: "bool \<Rightarrow> Writer \<Rightarrow> ObjectWriter \<Rightarrow> Writer" where
  "ObjectWriter_destroy big w ow = w"

text \<open>The field methods use nothing of the \<open>ObjectWriter\<close> but its writer.\<close>

definition FieldInt8 :: "bool \<Rightarrow> DataTag \<Rightarrow> 8 word \<Rightarrow> Writer \<Rightarrow> Writer" where
  "FieldInt8 big tag v w = WriteData big True v (WriteFieldHeader big tag Int8 w)"

definition FieldInt16 :: "bool \<Rightarrow> DataTag \<Rightarrow> 16 word \<Rightarrow> Writer \<Rightarrow> Writer" where
  "FieldInt16 big tag v w = WriteData big True v (WriteFieldHeader big tag Int16 w)"

definition FieldInt32 :: "bool \<Rightarrow> DataTag \<Rightarrow> 32 word \<Rightarrow> Writer \<Rightarrow> Writer" where
  "FieldInt32 big tag v w = WriteData big True v (WriteFieldHeader big tag Int32 w)"

definition FieldInt64 :: "bool \<Rightarrow> DataTag \<Rightarrow> 64 word \<Rightarrow> Writer \<Rightarrow> Writer" where
  "FieldInt64 big tag v w = WriteData big True v (WriteFieldHeader big tag Int64 w)"

definition FieldUInt8 :: "bool \<Rightarrow> DataTag \<Rightarrow> 8 word \<Rightarrow> Writer \<Rightarrow> Writer" where
  "FieldUInt8 big tag v w = WriteData big True v (WriteFieldHeader big tag UInt8 w)"

definition FieldUInt16 :: "bool \<Rightarrow> DataTag \<Rightarrow> 16 word \<Rightarrow> Writer \<Rightarrow> Writer" where
  "FieldUInt16 big tag v w = WriteData big True v (WriteFieldHeader big tag UInt16 w)"

definition FieldUInt32 :: "bool \<Rightarrow> DataTag \<Rightarrow> 32 word \<Rightarrow> Writer \<Rightarrow> Writer" where
  "FieldUInt32 big tag v w = WriteData big True v (WriteFieldHeader big tag UInt32 w)"

definition FieldUInt64 :: "bool \<Rightarrow> DataTag \<Rightarrow> 64 word \<Rightarrow> Writer \<Rightarrow> Writer" where
  "FieldUInt64 big tag v w = WriteData big True v (WriteFieldHeader big tag UInt64 w)"

text \<open>\<open>static_cast<uint8_t>\<close> of a \<open>bool\<close> is 0 or 1.\<close>

definition FieldBoolean :: "bool \<Rightarrow> DataTag \<Rightarrow> bool \<Rightarrow> Writer \<Rightarrow> Writer" where
  "FieldBoolean big tag v w =
     WriteData big True (if v then 1 else 0 :: byte) (WriteFieldHeader big tag Boolean w)"

text \<open>A \<open>float\<close> or \<open>double\<close> is its bit pattern (\<open>std::bit_cast\<close>); the three
  floating-point fields are written with \<open>swap_endianess = false\<close>.\<close>

definition FieldFloat16 :: "bool \<Rightarrow> DataTag \<Rightarrow> 16 word \<Rightarrow> Writer \<Rightarrow> Writer" where
  "FieldFloat16 big tag v w = WriteData big False v (WriteFieldHeader big tag Float16 w)"

definition FieldFloat32 :: "bool \<Rightarrow> DataTag \<Rightarrow> 32 word \<Rightarrow> Writer \<Rightarrow> Writer" where
  "FieldFloat32 big tag v w = WriteData big False v (WriteFieldHeader big tag Float32 w)"

definition FieldFloat64 :: "bool \<Rightarrow> DataTag \<Rightarrow> 64 word \<Rightarrow> Writer \<Rightarrow> Writer" where
  "FieldFloat64 big tag v w = WriteData big False v (WriteFieldHeader big tag Float64 w)"

definition FieldString :: "bool \<Rightarrow> DataTag \<Rightarrow> byte list \<Rightarrow> Writer \<Rightarrow> Writer" where
  "FieldString big tag v w = WriteString big v (WriteFieldHeader big tag String w)"

text \<open>\<open>FieldBinary\<close> takes a \<open>size_t\<close> and passes it on as a \<open>FieldSize\<close>.\<close>

definition FieldBinary :: "bool \<Rightarrow> DataTag \<Rightarrow> byte list \<Rightarrow> nat \<Rightarrow> Writer \<Rightarrow> Writer" where
  "FieldBinary big tag data sz w = WriteBinary big data (of_nat sz) (WriteFieldHeader big tag Binary w)"

definition FieldObject :: "bool \<Rightarrow> DataTag \<Rightarrow> Writer \<Rightarrow> Writer \<times> ObjectWriter" where
  "FieldObject big tag w = ObjectWriter_new (WriteFieldHeader big tag Object w)"

text \<open>
  \<open>FieldArray<Type>\<close>: \<open>esz\<close> is \<open>sizeof(Type)\<close>, \<open>data\<close> the memory at the pointer (the
  elements as the host holds them), \<open>len\<close> the element count. The product
  \<open>length * sizeof(Type)\<close> is narrowed to \<open>FieldSize\<close>.

  Modelled from the spec: the overload \<open>AdjustArrayEndianess(Type*, count)\<close> that
  \<open>FieldArray\<close> calls is not in Endianness.hpp; following "then in-place endian swap of
  those bytes if host endianness differs from little-endian" it is taken to be
  \<open>AdjustArrayEndianess<sizeof(Type)>\<close>.
\<close>

definition FieldArray :: "bool \<Rightarrow> nat \<Rightarrow> DataTag \<Rightarrow> DataType \<Rightarrow> byte list \<Rightarrow> 32 word \<Rightarrow> Writer \<Rightarrow> Writer" where
  "FieldArray big esz tag array_type data len w =
     (let w1 = WriteFieldHeader big tag array_type w;
          sz = (of_nat (unat len * esz) :: FieldSize);
          w2 = WriteData big True sz w1;
          (offset, w3) = WriteData_bytes data (unat sz) w2
      in w3\<lparr>m_buffer := AdjustArrayEndianess big esz (m_buffer w3) offset (unat len)\<rparr>)"

definition FieldArrayInt8 :: "bool \<Rightarrow> DataTag \<Rightarrow> byte list \<Rightarrow> 32 word \<Rightarrow> Writer \<Rightarrow> Writer" where
  "FieldArrayInt8 big tag data len w = FieldArray big 1 tag Int8Array data len w"

definition FieldArrayInt16 :: "bool \<Rightarrow> DataTag \<Rightarrow> byte list \<Rightarrow> 32 word \<Rightarrow> Writer \<Rightarrow> Writer" where
  "FieldArrayInt16 big tag data len w = FieldArray big 2 tag Int16Array data len w"

definition FieldArrayInt32 :: "bool \<Rightarrow> DataTag \<Rightarrow> byte list \<Rightarrow> 32 word \<Rightarrow> Writer \<Rightarrow> Writer" where
  "FieldArrayInt32 big tag data len w = FieldArray big 4 tag Int32Array data len w"

definition FieldArrayInt64 :: "bool \<Rightarrow> DataTag \<Rightarrow> byte list \<Rightarrow> 32 word \<Rightarrow> Writer \<Rightarrow> Writer" where
  "FieldArrayInt64 big tag data len w = FieldArray big 8 tag Int64Array data len w"

definition FieldArrayUInt8 :: "bool \<Rightarrow> DataTag \<Rightarrow> byte list \<Rightarrow> 32 word \<Rightarrow> Writer \<Rightarrow> Writer" where
  "FieldArrayUInt8 big tag data len w = FieldArray big 1 tag UInt8Array data len w"

definition FieldArrayUInt16 :: "bool \<Rightarrow> DataTag \<Rightarrow> byte list \<Rightarrow> 32 word \<Rightarrow> Writer \<Rightarrow> Writer" where
  "FieldArrayUInt16 big tag data len w = FieldArray big 2 tag UInt16Array data len w"

definition FieldArrayUInt32 :: "bool \<Rightarrow> DataTag \<Rightarrow> byte list \<Rightarrow> 32 word \<Rightarrow> Writer \<Rightarrow> Writer" where
  "FieldArrayUInt32 big tag data len w = FieldArray big 4 tag UInt32Array data len w"

definition FieldArrayUInt64 :: "bool \<Rightarrow> DataTag \<Rightarrow> byte list \<Rightarrow> 32 word \<Rightarrow> Writer \<Rightarrow> Writer" where
  "FieldArrayUInt64 big tag data len w = FieldArray big 8 tag UInt64Array data len w"

definition FieldArrayBoolean :: "bool \<Rightarrow> DataTag \<Rightarrow> byte list \<Rightarrow> 32 word \<Rightarrow> Writer \<Rightarrow> Writer" where
  "FieldArrayBoolean big tag data len w = FieldArray big 1 tag BooleanArray data len w"

definition FieldArrayFloat16 :: "bool \<Rightarrow> DataTag \<Rightarrow> byte list \<Rightarrow> 32 word \<Rightarrow> Writer \<Rightarrow> Writer" where
  "FieldArrayFloat16 big tag data len w = FieldArray big 2 tag Float16Array data len w"

definition FieldArrayFloat32 :: "bool \<Rightarrow> DataTag \<Rightarrow> byte list \<Rightarrow> 32 word \<Rightarrow> Writer \<Rightarrow> Writer" where
  "FieldArrayFloat32 big tag data len w = FieldArray big 4 tag Float32Array data len w"

definition FieldArrayFloat64 :: "bool \<Rightarrow> DataTag \<Rightarrow> byte list \<Rightarrow> 32 word \<Rightarrow> Writer \<Rightarrow> Writer" where
  "FieldArrayFloat64 big tag data len w = FieldArray big 8 tag Float64Array data len w"

subsection \<open>ArrayWriter and its three subclasses\<close>

definition ArrayWriter_new :: "Writer \<Rightarrow> Writer \<times> ArrayWriter" where
  "ArrayWriter_new w =
     (let (pos, w') = ReserveDataSizeField w
      in (w', \<lparr>m_array_size_pos = pos, m_is_finished' = False\<rparr>))"

definition ArrayWriter_Finish :: "bool \<Rightarrow> Writer \<Rightarrow> ArrayWriter \<Rightarrow> Writer \<times> ArrayWriter" where
  "ArrayWriter_Finish big w aw =
     (if \<not> m_is_finished' aw
      then (WriteDataSizeField big (m_array_size_pos aw) w, aw\<lparr>m_is_finished' := True\<rparr>)
      else (w, aw))"

text \<open>\<open>virtual ~ArrayWriter() { Finish(); }\<close>\<close>

definition ArrayWriter_destroy :: "bool \<Rightarrow> Writer \<Rightarrow> ArrayWriter \<Rightarrow> Writer" where
  "ArrayWriter_destroy big w aw = fst (ArrayWriter_Finish big w aw)"

definition FieldStringArray :: "bool \<Rightarrow> DataTag \<Rightarrow> Writer \<Rightarrow> Writer \<times> ArrayWriter" where
  "FieldStringArray big tag w = ArrayWriter_new (WriteFieldHeader big tag StringArray w)"

definition FieldBinaryArray :: "bool \<Rightarrow> DataTag \<Rightarrow> Writer \<Rightarrow> Writer \<times> ArrayWriter" where
  "FieldBinaryArray big tag w = ArrayWriter_new (WriteFieldHeader big tag BinaryArray w)"

definition FieldObjectArray :: "bool \<Rightarrow> DataTag \<Rightarrow> Writer \<Rightarrow> Writer \<times> ArrayWriter" where
  "FieldObjectArray big tag w = ArrayWriter_new (WriteFieldHeader big tag ObjectArray w)"

definition StringArrayWriter_AddElement :: "bool \<Rightarrow> byte list \<Rightarrow> Writer \<Rightarrow> Writer" where
  "StringArrayWriter_AddElement big element w = WriteString big element w"

definition BinaryArrayWriter_AddElement :: "bool \<Rightarrow> byte list \<Rightarrow> FieldSize \<Rightarrow> Writer \<Rightarrow> Writer" where
  "BinaryArrayWriter_AddElement big element sz w = WriteBinary big element sz w"

definition ObjectArrayWriter_CreateElement :: "Writer \<Rightarrow> Writer \<times> ObjectWriter" where
  "ObjectArrayWriter_CreateElement w = ObjectWriter_new w"

text \<open>The overload of \<open>FieldStringArray\<close> that takes the strings at once.\<close>

definition FieldStringArray_of :: "bool \<Rightarrow> DataTag \<Rightarrow> byte list list \<Rightarrow> Writer \<Rightarrow> Writer" where
  "FieldStringArray_of big tag data w =
     (let w1 = WriteFieldHeader big tag StringArray w;
          (offset, w2) = ReserveDataSizeField w1;
          w3 = fold (WriteString big) data w2
      in WriteDataSizeField big offset w3)"

subsection \<open>Writer\<close>

definition Writer_new :: "bool \<Rightarrow> 32 word \<Rightarrow> Writer" where
  "Writer_new name_based buff_grow_size =
     (let w0 = \<lparr>m_buffer_grow_size = 0, m_buffer = [], m_name_based = name_based,
                m_root_object = \<lparr>m_obj_size_pos = 0, m_is_finished = False\<rparr>\<rparr>;
          (w1, root) = ObjectWriter_new w0
      in SetBufferGrowSize buff_grow_size (w1\<lparr>m_root_object := root\<rparr>))"

definition Writer_Finish :: "bool \<Rightarrow> Writer \<Rightarrow> Writer" where
  "Writer_Finish big w =
     (let (w', root) = ObjectWriter_Finish big w (m_root_object w)
      in w'\<lparr>m_root_object := root\<rparr>)"

definition Data :: "Writer \<Rightarrow> byte list" where
  "Data w = m_buffer w"

definition Size :: "Writer \<Rightarrow> nat" where
  "Size w = length (m_buffer w)"


section \<open>The decoder (Reader.hpp, Reader.cpp)\<close>

text \<open>
  The decoder borrows the bytes: \<open>mem\<close> is the memory, a pointer is an offset into it, and
  \<open>nullptr\<close> is \<open>None\<close>. Indexing changes the memory on a big-endian host, so every
  operation that may build the index takes the memory and returns it. A read past the end
  of \<open>mem\<close> is undefined in C++; the model reads the bytes that are there.
\<close>

text \<open>\<open>union CacheValue\<close>: the member that was stored.\<close>

datatype CacheValue =
    ptr "nat option"
  | v_int8 "8 word"
  | v_int16 "16 word"
  | v_int32 "32 word"
  | v_int64 "64 word"

record CacheEntry =
  entry_type :: DataType
  entry_value :: CacheValue

text \<open>
  \<open>memcpy(&out_value, &entry.value, sizeof(Type))\<close>. \<open>CreateCache\<close> sets the union to
  \<open>nullptr\<close> and then stores one member, and a typed read copies out as many bytes as
  that member has; for a member of another width the value below is the one of a
  little-endian host.
\<close>

definition as_word :: "CacheValue \<Rightarrow> 'a::len word" where
  "as_word v =
     (case v of
        ptr None \<Rightarrow> 0
      | ptr (Some p) \<Rightarrow> of_nat p
      | v_int8 x \<Rightarrow> ucast x
      | v_int16 x \<Rightarrow> ucast x
      | v_int32 x \<Rightarrow> ucast x
      | v_int64 x \<Rightarrow> ucast x)"

text \<open>\<open>entry.value.ptr\<close>, for the entries that hold a pointer.\<close>

definition as_ptr :: "CacheValue \<Rightarrow> nat" where
  "as_ptr v = (case v of ptr (Some p) \<Rightarrow> p | _ \<Rightarrow> 0)"

record ObjectReader =
  m_buffer' :: "nat option"
  m_size :: FieldSize
  m_name_based' :: bool
  m_cache_built :: bool
  m_is_valid :: bool
  m_id_cache :: "16 word \<rightharpoonup> CacheEntry"
  m_name_cache :: "byte list \<rightharpoonup> CacheEntry"

definition Invalidate :: "ObjectReader \<Rightarrow> ObjectReader" where
  "Invalidate r =
     (let r1 = (if m_name_based' r then r\<lparr>m_name_cache := Map.empty\<rparr> else r\<lparr>m_id_cache := Map.empty\<rparr>)
      in r1\<lparr>m_cache_built := False, m_is_valid := False\<rparr>)"

text \<open>\<open>ObjectReader(const void* buffer, bool name_based)\<close>: the size is copied out of the
  buffer as the host reads it.\<close>

definition ObjectReader_at :: "bool \<Rightarrow> byte list \<Rightarrow> nat option \<Rightarrow> bool \<Rightarrow> ObjectReader" where
  "ObjectReader_at big mem buffer name_based =
     (let r = \<lparr>m_buffer' = None, m_size = 0, m_name_based' = name_based, m_cache_built = False,
               m_is_valid = False, m_id_cache = Map.empty, m_name_cache = Map.empty\<rparr>
      in case buffer of
           None \<Rightarrow> Invalidate r
         | Some b \<Rightarrow> r\<lparr>m_size := host_word big (take 4 (drop b mem)), m_buffer' := Some (b + 4)\<rparr>)"

text \<open>\<open>ObjectReader(const void* buffer, size_t size, bool name_based)\<close>\<close>

definition ObjectReader_new :: "bool \<Rightarrow> byte list \<Rightarrow> nat option \<Rightarrow> nat \<Rightarrow> bool \<Rightarrow> ObjectReader" where
  "ObjectReader_new big mem buffer sz name_based =
     (let r = ObjectReader_at big mem buffer name_based
      in if unat (m_size r) + 4 > sz then Invalidate r else r)"

text \<open>The difference of the pointers is cast to \<open>size_t\<close> (64 bits): a negative one wraps.\<close>

definition CanAccessBuffer :: "nat \<Rightarrow> nat \<Rightarrow> nat \<Rightarrow> bool" where
  "CanAccessBuffer beg end' sz =
     (if beg \<le> end' then end' - beg \<ge> sz else 2 ^ 64 - (beg - end') \<ge> sz)"

text \<open>\<open>ReadData<Type, swap_endianess>\<close>: the value and the advanced pointer, or \<open>None\<close> for
  \<open>false\<close>.\<close>

definition ReadData :: "bool \<Rightarrow> bool \<Rightarrow> byte list \<Rightarrow> nat \<Rightarrow> nat \<Rightarrow> ('a::len word \<times> nat) option" where
  "ReadData big swap_endianess mem read_ptr end_ptr =
     (let n = LENGTH('a) div 8 in
        if CanAccessBuffer read_ptr end_ptr n then
          (let v = host_word big (take n (drop read_ptr mem))
           in Some (if swap_endianess then AdjustEndianess big v else v, read_ptr + n))
        else None)"

text \<open>\<open>std::unordered_map::emplace\<close> does not replace the value of a key that is present.\<close>

definition emplace :: "('k \<rightharpoonup> 'v) \<Rightarrow> 'k \<Rightarrow> 'v \<Rightarrow> ('k \<rightharpoonup> 'v)" where
  "emplace m k v = (case m k of None \<Rightarrow> m(k \<mapsto> v) | Some _ \<Rightarrow> m)"

subsection \<open>One iteration of the loop of CreateCache\<close>

text \<open>"Read tag based on the mode": \<open>(tag_ptr, tag_size, read_ptr)\<close>, or \<open>None\<close> where the
  code sets \<open>errors\<close> and breaks. In id mode \<open>tag_size\<close> is not set.\<close>

definition read_tag :: "bool \<Rightarrow> bool \<Rightarrow> byte list \<Rightarrow> nat \<Rightarrow> nat \<Rightarrow> (nat \<times> 8 word \<times> nat) option" where
  "read_tag big name_based mem read_ptr buff_end =
     (if name_based then
        (case (ReadData big True mem read_ptr buff_end :: (8 word \<times> nat) option) of
           None \<Rightarrow> None
         | Some (tag_size, p) \<Rightarrow>
             if \<not> CanAccessBuffer p buff_end (unat tag_size) then None
             else Some (p, tag_size, p + unat tag_size))
      else if \<not> CanAccessBuffer read_ptr buff_end 2 then None
      else Some (read_ptr, 0, read_ptr + 2))"

text \<open>The \<open>switch (element_size)\<close> of the array and vector branches.\<close>

definition adjust_elements :: "bool \<Rightarrow> 32 word \<Rightarrow> byte list \<Rightarrow> nat \<Rightarrow> nat \<Rightarrow> byte list" where
  "adjust_elements big element_size mem p count =
     (if element_size = 2 then AdjustArrayEndianess big 2 mem p count
      else if element_size = 4 then AdjustArrayEndianess big 4 mem p count
      else if element_size = 8 then AdjustArrayEndianess big 8 mem p count
      else mem)"

text \<open>"Read the corresponding entry": \<open>(errors, read_ptr, mem, entry)\<close>.\<close>

definition read_entry :: "bool \<Rightarrow> DataType \<Rightarrow> byte list \<Rightarrow> nat \<Rightarrow> nat \<Rightarrow> bool \<times> nat \<times> byte list \<times> CacheEntry" where
  "read_entry big t mem read_ptr buff_end =
     (let null_entry = \<lparr>entry_type = t, entry_value = ptr None\<rparr>;
          ptr_entry = \<lparr>entry_type = t, entry_value = ptr (Some read_ptr)\<rparr>
      in
      if IsArrayType t then
        (case (ReadData big True mem read_ptr buff_end :: (FieldSize \<times> nat) option) of
           None \<Rightarrow> (True, read_ptr, mem, ptr_entry)
         | Some (array_size, p) \<Rightarrow>
             (let element_size = DataTypeSize (BaseDataType t);
                  mem' = (if element_size > 1 then
                            (let array_length = array_size div element_size in
                               if array_length * element_size = array_size
                               then adjust_elements big element_size mem p (unat array_length)
                               else mem)
                          else mem)
              in (False, p + unat array_size, mem', ptr_entry)))
      else if IsVectorType t then
        (let vector_length = VectorTypeDimension t;
             element_size = DataTypeSize (BaseDataType t);
             vector_size = vector_length * element_size
         in if \<not> CanAccessBuffer read_ptr buff_end (unat vector_size) then (True, read_ptr, mem, ptr_entry)
            else (False, read_ptr + unat vector_size,
                  (if element_size > 1 then adjust_elements big element_size mem read_ptr (unat vector_length) else mem),
                  ptr_entry))
      else if IsPrimitiveType t then
        (if t = Boolean \<or> t = UInt8 \<or> t = Int8 then
           (case (ReadData big True mem read_ptr buff_end :: (8 word \<times> nat) option) of
              None \<Rightarrow> (True, read_ptr, mem, null_entry)
            | Some (v, p) \<Rightarrow> (False, p, mem, \<lparr>entry_type = t, entry_value = v_int8 v\<rparr>))
         else if t = Float16 \<or> t = UInt16 \<or> t = Int16 then
           (case (ReadData big True mem read_ptr buff_end :: (16 word \<times> nat) option) of
              None \<Rightarrow> (True, read_ptr, mem, null_entry)
            | Some (v, p) \<Rightarrow> (False, p, mem, \<lparr>entry_type = t, entry_value = v_int16 v\<rparr>))
         else if t = Float32 \<or> t = UInt32 \<or> t = Int32 then
           (case (ReadData big True mem read_ptr buff_end :: (32 word \<times> nat) option) of
              None \<Rightarrow> (True, read_ptr, mem, null_entry)
            | Some (v, p) \<Rightarrow> (False, p, mem, \<lparr>entry_type = t, entry_value = v_int32 v\<rparr>))
         else if t = Float64 \<or> t = UInt64 \<or> t = Int64 then
           (case (ReadData big True mem read_ptr buff_end :: (64 word \<times> nat) option) of
              None \<Rightarrow> (True, read_ptr, mem, null_entry)
            | Some (v, p) \<Rightarrow> (False, p, mem, \<lparr>entry_type = t, entry_value = v_int64 v\<rparr>))
         else if t = UUID then
           (if \<not> CanAccessBuffer read_ptr buff_end 16 then (True, read_ptr, mem, ptr_entry)
            else (False, read_ptr + 16, mem, ptr_entry))
         else if t = String then
           (case (ReadData big True mem read_ptr buff_end :: (16 word \<times> nat) option) of
              None \<Rightarrow> (True, read_ptr, mem, ptr_entry)
            | Some (len, p) \<Rightarrow> (False, p + unat len, mem, ptr_entry))
         else if t = Object \<or> t = Binary then
           (case (ReadData big True mem read_ptr buff_end :: (FieldSize \<times> nat) option) of
              None \<Rightarrow> (True, read_ptr, mem, ptr_entry)
            | Some (sz, p) \<Rightarrow> (False, p + unat sz, mem, ptr_entry))
         else (True, read_ptr, mem, null_entry))
      else (True, read_ptr, mem, null_entry))"

text \<open>The body up to "If there is an error stop parsing":
  \<open>(errors, read_ptr, mem, tag_ptr, tag_size, entry)\<close>.\<close>

definition CreateCache_body ::
  "bool \<Rightarrow> bool \<Rightarrow> byte list \<Rightarrow> nat \<Rightarrow> nat \<Rightarrow> bool \<times> nat \<times> byte list \<times> nat \<times> 8 word \<times> CacheEntry" where
  "CreateCache_body big name_based mem read_ptr buff_end =
     (let null_entry = \<lparr>entry_type = Invalid, entry_value = ptr None\<rparr> in
      case (ReadData big True mem read_ptr buff_end :: (DataType \<times> nat) option) of
        None \<Rightarrow> (True, read_ptr, mem, 0, 0, null_entry)
      | Some (t, p1) \<Rightarrow>
          if \<not> IsValidDataType t then (True, p1, mem, 0, 0, null_entry)
          else
            (case read_tag big name_based mem p1 buff_end of
               None \<Rightarrow> (True, p1, mem, 0, 0, null_entry)
             | Some (tag_ptr, tag_size, p2) \<Rightarrow>
                 (case read_entry big t mem p2 buff_end of
                    (errors, p3, mem', entry) \<Rightarrow>
                      (errors \<or> p3 > buff_end, p3, mem', tag_ptr, tag_size, entry))))"


subsection \<open>CreateCache\<close>

text \<open>
  The loop \<open>while (read_ptr < buff_end)\<close>; the result is \<open>errors\<close>, the final \<open>read_ptr\<close>,
  the memory and the two maps. The key of a name is the bytes of its \<open>string_view\<close>.
  Every iteration without an error moves \<open>read_ptr\<close> forward, so the loop ends.
\<close>

function CreateCache_loop ::
  "bool \<Rightarrow> bool \<Rightarrow> nat \<Rightarrow> nat \<Rightarrow> byte list \<Rightarrow> (byte list \<rightharpoonup> CacheEntry) \<Rightarrow> (16 word \<rightharpoonup> CacheEntry)
     \<Rightarrow> bool \<times> nat \<times> byte list \<times> (byte list \<rightharpoonup> CacheEntry) \<times> (16 word \<rightharpoonup> CacheEntry)" where
  "CreateCache_loop big name_based buff_end read_ptr mem name_cache id_cache =
     (if read_ptr < buff_end then
        (case CreateCache_body big name_based mem read_ptr buff_end of
           (errors, p, mem', tag_ptr, tag_size, entry) \<Rightarrow>
             if errors then (True, p, mem', name_cache, id_cache)
             else if name_based then
               CreateCache_loop big name_based buff_end p mem'
                 (emplace name_cache (take (unat tag_size) (drop tag_ptr mem')) entry) id_cache
             else
               CreateCache_loop big name_based buff_end p mem'
                 name_cache (emplace id_cache (host_word big (take 2 (drop tag_ptr mem'))) entry))
      else (False, read_ptr, mem, name_cache, id_cache))"
  by pat_completeness auto
termination
proof (relation "measure (\<lambda>(big, name_based, buff_end, read_ptr, mem, name_cache, id_cache). buff_end - read_ptr)")
  have tag: "p \<le> p'" if "read_tag big nb mem p e = Some (tp, ts, p')" for big nb mem p e tp ts p'
    using that by (auto simp: read_tag_def ReadData_def Let_def split: if_splits option.splits)
  have ent: "p \<le> p'" if "read_entry big t mem p e = (False, p', m', en)" for big t mem p e p' m' en
    using that by (auto simp: read_entry_def ReadData_def Let_def split: if_splits option.splits)
  have adv: "p < p'"
    if "CreateCache_body big nb mem p e = (False, p', m', tp, ts, en)" for big nb mem p e p' m' tp ts en
    using that tag ent
    by (fastforce simp: CreateCache_body_def ReadData_def Let_def split: if_splits option.splits prod.splits)
  show "wf (measure (\<lambda>(big, name_based, buff_end, read_ptr, mem, name_cache, id_cache). buff_end - read_ptr))"
    by simp
  fix big name_based buff_end read_ptr mem and name_cache :: "byte list \<rightharpoonup> CacheEntry"
    and id_cache :: "16 word \<rightharpoonup> CacheEntry" and x errors y p ya mem' yb tag_ptr yc tag_size entry
  assume a: "read_ptr < buff_end" "(errors, y) = CreateCache_body big name_based mem read_ptr buff_end"
    "(p, ya) = y" "(mem', yb) = ya" "(tag_ptr, yc) = yb" "(tag_size, entry) = yc" "\<not> errors"
  then have "CreateCache_body big name_based mem read_ptr buff_end = (False, p, mem', tag_ptr, tag_size, entry)"
    by (metis (full_types))
  then have "read_ptr < p" by (rule adv)
  moreover have "p \<le> buff_end"
    using \<open>CreateCache_body big name_based mem read_ptr buff_end = (False, p, mem', tag_ptr, tag_size, entry)\<close>
    by (auto simp: CreateCache_body_def Let_def split: if_splits option.splits prod.splits)
  ultimately show "((big, name_based, buff_end, p, mem', emplace name_cache (take (unat tag_size) (drop tag_ptr mem')) entry, id_cache),
          big, name_based, buff_end, read_ptr, mem, name_cache, id_cache) \<in> measure (\<lambda>(big, name_based, buff_end, read_ptr, mem, name_cache, id_cache). buff_end - read_ptr)"
    and "((big, name_based, buff_end, p, mem', name_cache, emplace id_cache (host_word big (take 2 (drop tag_ptr mem'))) entry),
          big, name_based, buff_end, read_ptr, mem, name_cache, id_cache) \<in> measure (\<lambda>(big, name_based, buff_end, read_ptr, mem, name_cache, id_cache). buff_end - read_ptr)"
    using a(1) by auto
qed

declare CreateCache_loop.simps [simp del]


definition CreateCache :: "bool \<Rightarrow> byte list \<Rightarrow> ObjectReader \<Rightarrow> byte list \<times> ObjectReader" where
  "CreateCache big mem r =
     (if m_cache_built r then (mem, r)
      else
        (case m_buffer' r of
           None \<Rightarrow> (mem, r\<lparr>m_is_valid := False, m_cache_built := True\<rparr>)
         | Some read_ptr \<Rightarrow>
             if m_size r = 0 then (mem, r\<lparr>m_is_valid := False, m_cache_built := True\<rparr>)
             else
               (let r1 = (if m_name_based' r then r\<lparr>m_name_cache := Map.empty\<rparr>
                          else r\<lparr>m_id_cache := Map.empty\<rparr>);
                    buff_end = read_ptr + unat (m_size r)
                in case CreateCache_loop big (m_name_based' r) buff_end read_ptr mem
                          (m_name_cache r1) (m_id_cache r1) of
                     (errors, p, mem', name_cache, id_cache) \<Rightarrow>
                       (mem', r1\<lparr>m_name_cache := name_cache, m_id_cache := id_cache,
                                  m_cache_built := True,
                                  m_is_valid := (\<not> errors \<and> p = buff_end)\<rparr>))))"

definition IsValid :: "bool \<Rightarrow> byte list \<Rightarrow> ObjectReader \<Rightarrow> bool \<times> byte list \<times> ObjectReader" where
  "IsValid big mem r =
     (case (if \<not> m_cache_built r then CreateCache big mem r else (mem, r)) of
        (mem', r') \<Rightarrow> (m_is_valid r', mem', r'))"

definition FindTag :: "bool \<Rightarrow> byte list \<Rightarrow> ObjectReader \<Rightarrow> DataTag \<Rightarrow> CacheEntry option \<times> byte list \<times> ObjectReader" where
  "FindTag big mem r tag =
     (case IsValid big mem r of
        (valid, mem', r') \<Rightarrow>
          if \<not> valid then (None, mem', r')
          else if m_name_based' r' then (m_name_cache r' (map of_char (GetName tag)), mem', r')
          else (m_id_cache r' (GetId tag), mem', r'))"

definition ContainsTag :: "bool \<Rightarrow> byte list \<Rightarrow> ObjectReader \<Rightarrow> DataTag \<Rightarrow> bool \<times> byte list \<times> ObjectReader" where
  "ContainsTag big mem r tag =
     (case FindTag big mem r tag of (e, mem', r') \<Rightarrow> (e \<noteq> None, mem', r'))"

definition GetTagType :: "bool \<Rightarrow> byte list \<Rightarrow> ObjectReader \<Rightarrow> DataTag \<Rightarrow> DataType option \<times> byte list \<times> ObjectReader" where
  "GetTagType big mem r tag =
     (case FindTag big mem r tag of (e, mem', r') \<Rightarrow> (map_option entry_type e, mem', r'))"

subsection \<open>Typed reads\<close>

text \<open>A read returns its value (\<open>None\<close> for \<open>false\<close>, \<open>nullptr\<close> or \<open>std::nullopt\<close>), the
  memory and the reader.\<close>

definition ReadPrimitive ::
  "DataType \<Rightarrow> bool \<Rightarrow> byte list \<Rightarrow> ObjectReader \<Rightarrow> DataTag \<Rightarrow> 'a::len word option \<times> byte list \<times> ObjectReader" where
  "ReadPrimitive expected_type big mem r tag =
     (case FindTag big mem r tag of
        (None, mem', r') \<Rightarrow> (None, mem', r')
      | (Some entry, mem', r') \<Rightarrow>
          if entry_type entry \<noteq> expected_type then (None, mem', r')
          else (Some (as_word (entry_value entry)), mem', r'))"

definition ReadInt8 :: "bool \<Rightarrow> byte list \<Rightarrow> ObjectReader \<Rightarrow> DataTag \<Rightarrow> 8 word option \<times> byte list \<times> ObjectReader" where
  "ReadInt8 = ReadPrimitive Int8"

definition ReadInt16 :: "bool \<Rightarrow> byte list \<Rightarrow> ObjectReader \<Rightarrow> DataTag \<Rightarrow> 16 word option \<times> byte list \<times> ObjectReader" where
  "ReadInt16 = ReadPrimitive Int16"

definition ReadInt32 :: "bool \<Rightarrow> byte list \<Rightarrow> ObjectReader \<Rightarrow> DataTag \<Rightarrow> 32 word option \<times> byte list \<times> ObjectReader" where
  "ReadInt32 = ReadPrimitive Int32"

definition ReadInt64 :: "bool \<Rightarrow> byte list \<Rightarrow> ObjectReader \<Rightarrow> DataTag \<Rightarrow> 64 word option \<times> byte list \<times> ObjectReader" where
  "ReadInt64 = ReadPrimitive Int64"

definition ReadUInt8 :: "bool \<Rightarrow> byte list \<Rightarrow> ObjectReader \<Rightarrow> DataTag \<Rightarrow> 8 word option \<times> byte list \<times> ObjectReader" where
  "ReadUInt8 = ReadPrimitive UInt8"

definition ReadUInt16 :: "bool \<Rightarrow> byte list \<Rightarrow> ObjectReader \<Rightarrow> DataTag \<Rightarrow> 16 word option \<times> byte list \<times> ObjectReader" where
  "ReadUInt16 = ReadPrimitive UInt16"

definition ReadUInt32 :: "bool \<Rightarrow> byte list \<Rightarrow> ObjectReader \<Rightarrow> DataTag \<Rightarrow> 32 word option \<times> byte list \<times> ObjectReader" where
  "ReadUInt32 = ReadPrimitive UInt32"

definition ReadUInt64 :: "bool \<Rightarrow> byte list \<Rightarrow> ObjectReader \<Rightarrow> DataTag \<Rightarrow> 64 word option \<times> byte list \<times> ObjectReader" where
  "ReadUInt64 = ReadPrimitive UInt64"

text \<open>The byte copied into the \<open>bool\<close> is 0 or 1 in every buffer the encoder writes.\<close>

definition ReadBoolean :: "bool \<Rightarrow> byte list \<Rightarrow> ObjectReader \<Rightarrow> DataTag \<Rightarrow> bool option \<times> byte list \<times> ObjectReader" where
  "ReadBoolean big mem r tag =
     (case (ReadPrimitive Boolean big mem r tag :: 8 word option \<times> byte list \<times> ObjectReader) of
        (v, mem', r') \<Rightarrow> (map_option (\<lambda>b. b \<noteq> 0) v, mem', r'))"

definition ReadFloat16 :: "bool \<Rightarrow> byte list \<Rightarrow> ObjectReader \<Rightarrow> DataTag \<Rightarrow> 16 word option \<times> byte list \<times> ObjectReader" where
  "ReadFloat16 = ReadPrimitive Float16"

definition ReadFloat32 :: "bool \<Rightarrow> byte list \<Rightarrow> ObjectReader \<Rightarrow> DataTag \<Rightarrow> 32 word option \<times> byte list \<times> ObjectReader" where
  "ReadFloat32 = ReadPrimitive Float32"

definition ReadFloat64 :: "bool \<Rightarrow> byte list \<Rightarrow> ObjectReader \<Rightarrow> DataTag \<Rightarrow> 64 word option \<times> byte list \<times> ObjectReader" where
  "ReadFloat64 = ReadPrimitive Float64"

text \<open>\<open>ReadPointerData\<close>: the pointer behind the size prefix and \<open>out_size\<close>, which is
  copied out of the buffer as the host reads it.\<close>

definition ReadPointerData ::
  "bool \<Rightarrow> byte list \<Rightarrow> ObjectReader \<Rightarrow> DataTag \<Rightarrow> DataType \<Rightarrow> (nat \<times> FieldSize) option \<times> byte list \<times> ObjectReader" where
  "ReadPointerData big mem r tag expected_type =
     (case FindTag big mem r tag of
        (None, mem', r') \<Rightarrow> (None, mem', r')
      | (Some entry, mem', r') \<Rightarrow>
          if entry_type entry \<noteq> expected_type then (None, mem', r')
          else
            (let value_ptr = as_ptr (entry_value entry);
                 out_size = host_word big (take 4 (drop value_ptr mem'))
             in (Some (value_ptr + 4, out_size), mem', r')))"

text \<open>A \<open>std::string_view\<close> or \<open>std::span\<close> into the buffer is given by the bytes it
  covers.\<close>

definition ReadStringInternal :: "bool \<Rightarrow> byte list \<Rightarrow> CacheEntry \<Rightarrow> byte list option" where
  "ReadStringInternal big mem entry =
     (if entry_type entry \<noteq> String then None
      else
        (let value_ptr = as_ptr (entry_value entry);
             len = (host_word big (take 2 (drop value_ptr mem)) :: 16 word)
         in Some (take (unat len) (drop (value_ptr + 2) mem))))"

definition ReadString :: "bool \<Rightarrow> byte list \<Rightarrow> ObjectReader \<Rightarrow> DataTag \<Rightarrow> byte list option \<times> byte list \<times> ObjectReader" where
  "ReadString big mem r tag =
     (case FindTag big mem r tag of
        (None, mem', r') \<Rightarrow> (None, mem', r')
      | (Some entry, mem', r') \<Rightarrow> (ReadStringInternal big mem' entry, mem', r'))"

definition ReadBinary :: "bool \<Rightarrow> byte list \<Rightarrow> ObjectReader \<Rightarrow> DataTag \<Rightarrow> byte list option \<times> byte list \<times> ObjectReader" where
  "ReadBinary big mem r tag =
     (case ReadPointerData big mem r tag Binary of
        (None, mem', r') \<Rightarrow> (None, mem', r')
      | (Some (data, sz), mem', r') \<Rightarrow> (Some (take (unat sz) (drop data mem')), mem', r'))"

definition ReadUUID :: "bool \<Rightarrow> byte list \<Rightarrow> ObjectReader \<Rightarrow> DataTag \<Rightarrow> nat option \<times> byte list \<times> ObjectReader" where
  "ReadUUID big mem r tag =
     (case FindTag big mem r tag of
        (None, mem', r') \<Rightarrow> (None, mem', r')
      | (Some entry, mem', r') \<Rightarrow>
          if entry_type entry \<noteq> UUID then (None, mem', r')
          else (Some (as_ptr (entry_value entry)), mem', r'))"

definition ReadObjectInternal :: "bool \<Rightarrow> byte list \<Rightarrow> bool \<Rightarrow> CacheEntry \<Rightarrow> ObjectReader option" where
  "ReadObjectInternal big mem name_based entry =
     (if entry_type entry \<noteq> Object then None
      else Some (ObjectReader_at big mem (Some (as_ptr (entry_value entry))) name_based))"

definition ReadObject :: "bool \<Rightarrow> byte list \<Rightarrow> ObjectReader \<Rightarrow> DataTag \<Rightarrow> ObjectReader option \<times> byte list \<times> ObjectReader" where
  "ReadObject big mem r tag =
     (case FindTag big mem r tag of
        (None, mem', r') \<Rightarrow> (None, mem', r')
      | (Some entry, mem', r') \<Rightarrow> (ReadObjectInternal big mem' (m_name_based' r') entry, mem', r'))"

text \<open>\<open>ReadArray<Type, expected_type>\<close>: the pointer to the elements and their number. The
  typed array reads are its instances at the twelve fixed-element array types.\<close>

definition ReadArray ::
  "DataType \<Rightarrow> bool \<Rightarrow> byte list \<Rightarrow> ObjectReader \<Rightarrow> DataTag \<Rightarrow> (nat \<times> 32 word) option \<times> byte list \<times> ObjectReader" where
  "ReadArray expected_type big mem r tag =
     (case ReadPointerData big mem r tag expected_type of
        (None, mem', r') \<Rightarrow> (None, mem', r')
      | (Some (value_ptr, out_size), mem', r') \<Rightarrow>
          (let element_size = DataTypeSize (BaseDataType expected_type);
               array_length = out_size div element_size
           in if array_length * element_size \<noteq> out_size then (None, mem', r')
              else (Some (value_ptr, array_length), mem', r')))"

text \<open>\<open>ReadVector<Type, dim>(tag, type)\<close>: the pointer to the elements.\<close>

definition ReadVector ::
  "DataType \<Rightarrow> bool \<Rightarrow> byte list \<Rightarrow> ObjectReader \<Rightarrow> DataTag \<Rightarrow> nat option \<times> byte list \<times> ObjectReader" where
  "ReadVector t big mem r tag =
     (case FindTag big mem r tag of
        (None, mem', r') \<Rightarrow> (None, mem', r')
      | (Some entry, mem', r') \<Rightarrow>
          if entry_type entry \<noteq> t then (None, mem', r')
          else (Some (as_ptr (entry_value entry)), mem', r'))"


section \<open>Readers of variable-element arrays\<close>

text \<open>\<open>ArrayReader<ElementSizeType>\<close> is instantiated at \<open>uint16_t\<close> (strings) and at
  \<open>FieldSize\<close> (binary blobs and objects).\<close>

datatype ElementSizeType = uint16_t | uint32_t

fun sizeof :: "ElementSizeType \<Rightarrow> nat" where
  "sizeof uint16_t = 2"
| "sizeof uint32_t = 4"

text \<open>\<open>std::memcpy(&object_size, read_ptr, sizeof(object_size))\<close>, as a number.\<close>

fun load_size :: "bool \<Rightarrow> ElementSizeType \<Rightarrow> byte list \<Rightarrow> nat \<Rightarrow> nat" where
  "load_size big uint16_t mem p = unat (host_word big (take 2 (drop p mem)) :: 16 word)"
| "load_size big uint32_t mem p = unat (host_word big (take 4 (drop p mem)) :: 32 word)"

record ArrayReader =
  m_array :: nat
  m_element_count :: "32 word"
  m_valid :: bool

definition GetArraySize :: "bool \<Rightarrow> byte list \<Rightarrow> nat \<Rightarrow> FieldSize" where
  "GetArraySize big mem array = host_word big (take 4 (drop array mem))"

text \<open>
  The loop of \<open>Initialize\<close> with what follows it; the result is \<open>(m_valid, m_element_count)\<close>.
  The first check asks for \<open>sizeof(FieldSize)\<close> bytes whatever the element size type is.
  After the \<open>break\<close> the element count is 0 and \<open>m_valid\<close> is set from the pointers.
\<close>

function Initialize_loop :: "bool \<Rightarrow> ElementSizeType \<Rightarrow> byte list \<Rightarrow> nat \<Rightarrow> nat \<Rightarrow> 32 word \<Rightarrow> bool \<times> 32 word" where
  "Initialize_loop big est mem buff_end read_ptr count =
     (if read_ptr < buff_end then
        (if \<not> CanAccessBuffer read_ptr buff_end 4 then (False, 0)
         else
           (let object_size = load_size big est mem read_ptr;
                p = read_ptr + sizeof est
            in if \<not> CanAccessBuffer p buff_end object_size
               then (if p = buff_end then (True, 0) else (False, 0))
               else Initialize_loop big est mem buff_end (p + object_size) (count + 1)))
      else (if read_ptr = buff_end then (True, count) else (False, 0)))"
  by pat_completeness auto
termination
proof (relation "measure (\<lambda>(big, est, mem, buff_end, read_ptr, count). buff_end - read_ptr)")
  show "wf (measure (\<lambda>(big, est, mem, buff_end, read_ptr, count). buff_end - read_ptr))"
    by simp
  fix big est mem buff_end read_ptr and count :: "32 word" and x xa
  assume "read_ptr < buff_end" "x = load_size big est mem read_ptr" "xa = read_ptr + sizeof est"
  moreover have "0 < sizeof est" by (cases est) simp_all
  ultimately show "((big, est, mem, buff_end, xa + x, count + 1), big, est, mem, buff_end, read_ptr, count)
      \<in> measure (\<lambda>(big, est, mem, buff_end, read_ptr, count). buff_end - read_ptr)"
    by simp
qed

declare Initialize_loop.simps [simp del]

definition ArrayReader_new :: "bool \<Rightarrow> ElementSizeType \<Rightarrow> byte list \<Rightarrow> nat \<Rightarrow> ArrayReader" where
  "ArrayReader_new big est mem array =
     (let array_size = GetArraySize big mem array;
          read_ptr = array + 4;
          buff_end = read_ptr + unat array_size
      in case Initialize_loop big est mem buff_end read_ptr 0 of
           (valid, count) \<Rightarrow> \<lparr>m_array = array, m_element_count = count, m_valid = valid\<rparr>)"

definition ArrayReader_Invalidate :: "ArrayReader \<Rightarrow> ArrayReader" where
  "ArrayReader_Invalidate ar = ar\<lparr>m_valid := False, m_element_count := 0\<rparr>"

record BaseIterator =
  m_current_ptr :: nat
  m_end_ptr :: nat
  m_index :: "32 word"

definition Advance :: "bool \<Rightarrow> ElementSizeType \<Rightarrow> byte list \<Rightarrow> BaseIterator \<Rightarrow> BaseIterator" where
  "Advance big est mem it =
     (let element_size = load_size big est mem (m_current_ptr it)
      in it\<lparr>m_current_ptr := m_current_ptr it + (sizeof est + element_size), m_index := m_index it + 1\<rparr>)"

definition BaseIterator_new :: "bool \<Rightarrow> ElementSizeType \<Rightarrow> byte list \<Rightarrow> nat \<Rightarrow> 32 word \<Rightarrow> bool \<Rightarrow> BaseIterator" where
  "BaseIterator_new big est mem array index at_end =
     (let array_size = GetArraySize big mem array;
          read_ptr = array + 4;
          end_ptr = read_ptr + unat array_size
      in if at_end then \<lparr>m_current_ptr = end_ptr, m_end_ptr = end_ptr, m_index = index\<rparr>
         else ((Advance big est mem) ^^ unat index)
                \<lparr>m_current_ptr = read_ptr, m_end_ptr = end_ptr, m_index = index\<rparr>)"

text \<open>\<open>CurrentElement\<close>: the pointer to the element and the size copied out of its prefix.\<close>

definition CurrentElement :: "bool \<Rightarrow> ElementSizeType \<Rightarrow> byte list \<Rightarrow> BaseIterator \<Rightarrow> nat \<times> nat" where
  "CurrentElement big est mem it = (m_current_ptr it, load_size big est mem (m_current_ptr it))"

definition GetElement :: "bool \<Rightarrow> ElementSizeType \<Rightarrow> byte list \<Rightarrow> ArrayReader \<Rightarrow> 32 word \<Rightarrow> (nat \<times> nat) option" where
  "GetElement big est mem ar index =
     (if \<not> m_valid ar \<or> index \<ge> m_element_count ar then None
      else Some (CurrentElement big est mem (BaseIterator_new big est mem (m_array ar) index False)))"

subsection \<open>StringArrayReader\<close>

definition StringArrayReader_new :: "bool \<Rightarrow> byte list \<Rightarrow> CacheEntry \<Rightarrow> ArrayReader" where
  "StringArrayReader_new big mem entry =
     (let ar = ArrayReader_new big uint16_t mem (as_ptr (entry_value entry))
      in if entry_type entry \<noteq> StringArray then ArrayReader_Invalidate ar else ar)"

definition StringArrayReader_GetElement :: "bool \<Rightarrow> byte list \<Rightarrow> ArrayReader \<Rightarrow> 32 word \<Rightarrow> byte list option" where
  "StringArrayReader_GetElement big mem ar index =
     (case GetElement big uint16_t mem ar index of
        None \<Rightarrow> None
      | Some (element_ptr, element_size) \<Rightarrow> Some (take element_size (drop (element_ptr + 2) mem)))"

definition StringArrayReader_end :: "bool \<Rightarrow> byte list \<Rightarrow> ArrayReader \<Rightarrow> BaseIterator" where
  "StringArrayReader_end big mem ar = BaseIterator_new big uint16_t mem (m_array ar) (m_element_count ar) True"

definition StringArrayReader_begin :: "bool \<Rightarrow> byte list \<Rightarrow> ArrayReader \<Rightarrow> BaseIterator" where
  "StringArrayReader_begin big mem ar =
     (if m_valid ar then BaseIterator_new big uint16_t mem (m_array ar) 0 False
      else StringArrayReader_end big mem ar)"

text \<open>\<open>StringArrayReader::Iterator::operator*\<close>\<close>

definition StringArrayReader_deref :: "bool \<Rightarrow> byte list \<Rightarrow> BaseIterator \<Rightarrow> byte list" where
  "StringArrayReader_deref big mem it =
     (case CurrentElement big uint16_t mem it of
        (p, sz) \<Rightarrow> take sz (drop (p + 2) mem))"

text \<open>
  The range-based \<open>for\<close> over a reader: from \<open>begin()\<close>, dereference and advance until the
  iterator equals \<open>end()\<close>; iterators are equal when their current pointers are. The loop
  need not end on an array whose elements overshoot the end: \<open>None\<close> stands for that.
\<close>

partial_function (option) StringArrayReader_iterate ::
  "bool \<Rightarrow> byte list \<Rightarrow> BaseIterator \<Rightarrow> BaseIterator \<Rightarrow> byte list list option" where
  "StringArrayReader_iterate big mem it end_it =
     (if m_current_ptr it = m_current_ptr end_it then Some []
      else Option.bind (StringArrayReader_iterate big mem (Advance big uint16_t mem it) end_it)
             (\<lambda>rest. Some (StringArrayReader_deref big mem it # rest)))"

definition StringArrayReader_elements :: "bool \<Rightarrow> byte list \<Rightarrow> ArrayReader \<Rightarrow> byte list list option" where
  "StringArrayReader_elements big mem ar =
     StringArrayReader_iterate big mem (StringArrayReader_begin big mem ar) (StringArrayReader_end big mem ar)"

definition ReadStringArray :: "bool \<Rightarrow> byte list \<Rightarrow> ObjectReader \<Rightarrow> DataTag \<Rightarrow> ArrayReader option \<times> byte list \<times> ObjectReader" where
  "ReadStringArray big mem r tag =
     (case FindTag big mem r tag of
        (None, mem', r') \<Rightarrow> (None, mem', r')
      | (Some entry, mem', r') \<Rightarrow>
          if entry_type entry \<noteq> StringArray then (None, mem', r')
          else (Some (StringArrayReader_new big mem' entry), mem', r'))"

subsection \<open>BinaryArrayReader and ObjectArrayReader\<close>

definition BinaryArrayReader_new :: "bool \<Rightarrow> byte list \<Rightarrow> CacheEntry \<Rightarrow> ArrayReader" where
  "BinaryArrayReader_new big mem entry =
     (let ar = ArrayReader_new big uint32_t mem (as_ptr (entry_value entry))
      in if entry_type entry \<noteq> BinaryArray then ArrayReader_Invalidate ar else ar)"

definition ObjectArrayReader_new :: "bool \<Rightarrow> byte list \<Rightarrow> CacheEntry \<Rightarrow> ArrayReader" where
  "ObjectArrayReader_new big mem entry =
     (let ar = ArrayReader_new big uint32_t mem (as_ptr (entry_value entry))
      in if entry_type entry \<noteq> ObjectArray then ArrayReader_Invalidate ar else ar)"

definition ReadBinaryArray :: "bool \<Rightarrow> byte list \<Rightarrow> ObjectReader \<Rightarrow> DataTag \<Rightarrow> ArrayReader option \<times> byte list \<times> ObjectReader" where
  "ReadBinaryArray big mem r tag =
     (case FindTag big mem r tag of
        (None, mem', r') \<Rightarrow> (None, mem', r')
      | (Some entry, mem', r') \<Rightarrow>
          if entry_type entry \<noteq> BinaryArray then (None, mem', r')
          else (Some (BinaryArrayReader_new big mem' entry), mem', r'))"

definition ReadObjectArray :: "bool \<Rightarrow> byte list \<Rightarrow> ObjectReader \<Rightarrow> DataTag \<Rightarrow> ArrayReader option \<times> byte list \<times> ObjectReader" where
  "ReadObjectArray big mem r tag =
     (case FindTag big mem r tag of
        (None, mem', r') \<Rightarrow> (None, mem', r')
      | (Some entry, mem', r') \<Rightarrow>
          if entry_type entry \<noteq> ObjectArray then (None, mem', r')
          else (Some (ObjectArrayReader_new big mem' entry), mem', r'))"


section \<open>What the claims about reads state\<close>

text \<open>Every read of a tag on a reader, in a memory, returns none.\<close>

definition reads_none :: "bool \<Rightarrow> byte list \<Rightarrow> ObjectReader \<Rightarrow> DataTag \<Rightarrow> bool" where
  "reads_none big mem r tag \<longleftrightarrow>
     fst (FindTag big mem r tag) = None \<and> \<not> fst (ContainsTag big mem r tag) \<and>
     fst (GetTagType big mem r tag) = None \<and>
     fst (ReadInt8 big mem r tag) = None \<and> fst (ReadInt16 big mem r tag) = None \<and>
     fst (ReadInt32 big mem r tag) = None \<and> fst (ReadInt64 big mem r tag) = None \<and>
     fst (ReadUInt8 big mem r tag) = None \<and> fst (ReadUInt16 big mem r tag) = None \<and>
     fst (ReadUInt32 big mem r tag) = None \<and> fst (ReadUInt64 big mem r tag) = None \<and>
     fst (ReadBoolean big mem r tag) = None \<and> fst (ReadFloat16 big mem r tag) = None \<and>
     fst (ReadFloat32 big mem r tag) = None \<and> fst (ReadFloat64 big mem r tag) = None \<and>
     fst (ReadString big mem r tag) = None \<and> fst (ReadBinary big mem r tag) = None \<and>
     fst (ReadUUID big mem r tag) = None \<and> fst (ReadObject big mem r tag) = None \<and>
     (\<forall>t. fst (ReadArray t big mem r tag) = None) \<and>
     (\<forall>t. fst (ReadVector t big mem r tag) = None) \<and>
     fst (ReadStringArray big mem r tag) = None \<and> fst (ReadBinaryArray big mem r tag) = None \<and>
     fst (ReadObjectArray big mem r tag) = None"


text \<open>Every read of a tag that expects a type other than \<open>U\<close> returns none and ends in the
  memory and reader \<open>res\<close>.\<close>

definition mismatched_reads_none ::
  "bool \<Rightarrow> byte list \<Rightarrow> ObjectReader \<Rightarrow> DataTag \<Rightarrow> DataType \<Rightarrow> byte list \<times> ObjectReader \<Rightarrow> bool" where
  "mismatched_reads_none big mem r tag U res \<longleftrightarrow>
     (U \<noteq> Int8 \<longrightarrow> ReadInt8 big mem r tag = (None, res)) \<and>
     (U \<noteq> Int16 \<longrightarrow> ReadInt16 big mem r tag = (None, res)) \<and>
     (U \<noteq> Int32 \<longrightarrow> ReadInt32 big mem r tag = (None, res)) \<and>
     (U \<noteq> Int64 \<longrightarrow> ReadInt64 big mem r tag = (None, res)) \<and>
     (U \<noteq> UInt8 \<longrightarrow> ReadUInt8 big mem r tag = (None, res)) \<and>
     (U \<noteq> UInt16 \<longrightarrow> ReadUInt16 big mem r tag = (None, res)) \<and>
     (U \<noteq> UInt32 \<longrightarrow> ReadUInt32 big mem r tag = (None, res)) \<and>
     (U \<noteq> UInt64 \<longrightarrow> ReadUInt64 big mem r tag = (None, res)) \<and>
     (U \<noteq> Boolean \<longrightarrow> ReadBoolean big mem r tag = (None, res)) \<and>
     (U \<noteq> Float16 \<longrightarrow> ReadFloat16 big mem r tag = (None, res)) \<and>
     (U \<noteq> Float32 \<longrightarrow> ReadFloat32 big mem r tag = (None, res)) \<and>
     (U \<noteq> Float64 \<longrightarrow> ReadFloat64 big mem r tag = (None, res)) \<and>
     (U \<noteq> String \<longrightarrow> ReadString big mem r tag = (None, res)) \<and>
     (U \<noteq> Binary \<longrightarrow> ReadBinary big mem r tag = (None, res)) \<and>
     (U \<noteq> UUID \<longrightarrow> ReadUUID big mem r tag = (None, res)) \<and>
     (U \<noteq> Object \<longrightarrow> ReadObject big mem r tag = (None, res)) \<and>
     (U \<noteq> StringArray \<longrightarrow> ReadStringArray big mem r tag = (None, res)) \<and>
     (U \<noteq> BinaryArray \<longrightarrow> ReadBinaryArray big mem r tag = (None, res)) \<and>
     (U \<noteq> ObjectArray \<longrightarrow> ReadObjectArray big mem r tag = (None, res)) \<and>
     (\<forall>T. T \<noteq> U \<longrightarrow> ReadArray T big mem r tag = (None, res)) \<and>
     (\<forall>T. T \<noteq> U \<longrightarrow> ReadVector T big mem r tag = (None, res)) \<and>
     (\<forall>T. T \<noteq> U \<longrightarrow> ReadPointerData big mem r tag T = (None, res))"


section \<open>What the claims about the encoder state\<close>

text \<open>The size prefix at offset \<open>pos\<close> of a buffer, read as the format defines it: a
  little-endian \<open>u32\<close>.\<close>

definition size_prefix :: "byte list \<Rightarrow> nat \<Rightarrow> nat" where
  "size_prefix buf pos = unat (le_word (take 4 (drop pos buf)) :: FieldSize)"


section \<open>Concrete inputs\<close>

definition tag_a :: DataTag where "tag_a = \<lparr>GetId = 1, GetName = ''a''\<rparr>"
definition tag_b :: DataTag where "tag_b = \<lparr>GetId = 2, GetName = ''b''\<rparr>"

text \<open>An object scope is opened in the root, one field is written into it, and the handle
  goes out of scope without \<open>Finish\<close>; then the writer is finished.\<close>

definition abandoned_object_scope :: "Writer \<times> ObjectWriter" where
  "abandoned_object_scope =
     (let (w1, obj) = FieldObject False tag_a (Writer_new False 0);
          w2 = FieldInt8 False tag_b 7 w1
      in (ObjectWriter_destroy False w2 obj, obj))"

definition abandoned_object_buffer :: "byte list" where
  "abandoned_object_buffer = Data (Writer_Finish False (fst abandoned_object_scope))"



section \<open>The bytes of a field and the index entry filed for it\<close>

text \<open>What \<open>WriteFieldHeader\<close> appends after the type byte: in name mode the length of the
  name cast to \<open>NameSize\<close> and the name, in id mode the id, little-endian.\<close>

definition tag_bytes :: "bool \<Rightarrow> DataTag \<Rightarrow> byte list" where
  "tag_bytes name_based tag =
     (if name_based then of_nat (length (GetName tag)) # map of_char (GetName tag)
      else le_bytes (GetId tag))"

text \<open>In name mode the length of a name fits \<open>NameSize\<close> when it is at most
  \<open>MAX_TAG_NAME_LENGTH\<close>; the validating constructors of \<open>DataTag\<close> guarantee it.\<close>

definition tag_ok :: "bool \<Rightarrow> DataTag \<Rightarrow> bool" where
  "tag_ok name_based tag \<longleftrightarrow> (name_based \<longrightarrow> length (GetName tag) \<le> MAX_TAG_NAME_LENGTH)"

text \<open>The maps after the loop of \<open>CreateCache\<close> has filed the entry of a field: \<open>emplace\<close>
  into the cache of the mode, under the name or under the id as the host reads it.\<close>

definition file_entry ::
  "bool \<Rightarrow> bool \<Rightarrow> DataTag \<Rightarrow> CacheEntry \<Rightarrow> (byte list \<rightharpoonup> CacheEntry) \<times> (16 word \<rightharpoonup> CacheEntry)
     \<Rightarrow> (byte list \<rightharpoonup> CacheEntry) \<times> (16 word \<rightharpoonup> CacheEntry)" where
  "file_entry big nb tag entry caches =
     (if nb then (emplace (fst caches) (map of_char (GetName tag)) entry, snd caches)
      else (fst caches, emplace (snd caches) (host_word big (le_bytes (GetId tag))) entry))"


section \<open>Objects of primitive fields\<close>

text \<open>A primitive value with the \<open>Field\<close> operation that writes it; a floating-point value
  is its bit pattern.\<close>

datatype PrimValue =
    Int8Value "8 word" | Int16Value "16 word" | Int32Value "32 word" | Int64Value "64 word"
  | UInt8Value "8 word" | UInt16Value "16 word" | UInt32Value "32 word" | UInt64Value "64 word"
  | BooleanValue bool | Float16Value "16 word" | Float32Value "32 word" | Float64Value "64 word"

fun Field :: "bool \<Rightarrow> DataTag \<times> PrimValue \<Rightarrow> Writer \<Rightarrow> Writer" where
  "Field big (tag, Int8Value v) = FieldInt8 big tag v"
| "Field big (tag, Int16Value v) = FieldInt16 big tag v"
| "Field big (tag, Int32Value v) = FieldInt32 big tag v"
| "Field big (tag, Int64Value v) = FieldInt64 big tag v"
| "Field big (tag, UInt8Value v) = FieldUInt8 big tag v"
| "Field big (tag, UInt16Value v) = FieldUInt16 big tag v"
| "Field big (tag, UInt32Value v) = FieldUInt32 big tag v"
| "Field big (tag, UInt64Value v) = FieldUInt64 big tag v"
| "Field big (tag, BooleanValue v) = FieldBoolean big tag v"
| "Field big (tag, Float16Value v) = FieldFloat16 big tag v"
| "Field big (tag, Float32Value v) = FieldFloat32 big tag v"
| "Field big (tag, Float64Value v) = FieldFloat64 big tag v"

text \<open>The index entry that holds a primitive value: its type byte and the member of the
  union of its width.\<close>

fun prim_entry :: "PrimValue \<Rightarrow> CacheEntry" where
  "prim_entry (Int8Value v) = \<lparr>entry_type = Int8, entry_value = v_int8 v\<rparr>"
| "prim_entry (Int16Value v) = \<lparr>entry_type = Int16, entry_value = v_int16 v\<rparr>"
| "prim_entry (Int32Value v) = \<lparr>entry_type = Int32, entry_value = v_int32 v\<rparr>"
| "prim_entry (Int64Value v) = \<lparr>entry_type = Int64, entry_value = v_int64 v\<rparr>"
| "prim_entry (UInt8Value v) = \<lparr>entry_type = UInt8, entry_value = v_int8 v\<rparr>"
| "prim_entry (UInt16Value v) = \<lparr>entry_type = UInt16, entry_value = v_int16 v\<rparr>"
| "prim_entry (UInt32Value v) = \<lparr>entry_type = UInt32, entry_value = v_int32 v\<rparr>"
| "prim_entry (UInt64Value v) = \<lparr>entry_type = UInt64, entry_value = v_int64 v\<rparr>"
| "prim_entry (BooleanValue v) = \<lparr>entry_type = Boolean, entry_value = v_int8 (if v then 1 else 0)\<rparr>"
| "prim_entry (Float16Value v) = \<lparr>entry_type = Float16, entry_value = v_int16 v\<rparr>"
| "prim_entry (Float32Value v) = \<lparr>entry_type = Float32, entry_value = v_int32 v\<rparr>"
| "prim_entry (Float64Value v) = \<lparr>entry_type = Float64, entry_value = v_int64 v\<rparr>"

text \<open>The payload of a primitive field in a file of the format: little-endian.\<close>

fun prim_payload :: "PrimValue \<Rightarrow> byte list" where
  "prim_payload (Int8Value v) = [v]"
| "prim_payload (Int16Value v) = le_bytes v"
| "prim_payload (Int32Value v) = le_bytes v"
| "prim_payload (Int64Value v) = le_bytes v"
| "prim_payload (UInt8Value v) = [v]"
| "prim_payload (UInt16Value v) = le_bytes v"
| "prim_payload (UInt32Value v) = le_bytes v"
| "prim_payload (UInt64Value v) = le_bytes v"
| "prim_payload (BooleanValue v) = [if v then 1 else 0]"
| "prim_payload (Float16Value v) = le_bytes v"
| "prim_payload (Float32Value v) = le_bytes v"
| "prim_payload (Float64Value v) = le_bytes v"

definition field_bytes :: "bool \<Rightarrow> DataTag \<times> PrimValue \<Rightarrow> byte list" where
  "field_bytes name_based f =
     entry_type (prim_entry (snd f)) # tag_bytes name_based (fst f) @ prim_payload (snd f)"

text \<open>The tag that the mode of the file compares: the name, or the id.\<close>

definition same_tag :: "bool \<Rightarrow> DataTag \<Rightarrow> DataTag \<Rightarrow> bool" where
  "same_tag name_based t1 t2 = (if name_based then GetName t1 = GetName t2 else GetId t1 = GetId t2)"

text \<open>On a little-endian host: a writer is made, the fields are written into its root
  object in the order of the list, and the writer is finished.\<close>

definition write_fields :: "bool \<Rightarrow> 32 word \<Rightarrow> (DataTag \<times> PrimValue) list \<Rightarrow> Writer" where
  "write_fields name_based grow fs = Writer_Finish False (fold (Field False) fs (Writer_new name_based grow))"

text \<open>\<open>Reader reader(writer.Data(), writer.Size(), name_based)\<close> on a little-endian host.\<close>

definition reader_of :: "Writer \<Rightarrow> ObjectReader" where
  "reader_of w = ObjectReader_new False (Data w) (Some 0) (Size w) (m_name_based w)"

text \<open>One field operation on a new writer, \<open>Finish\<close>, a reader over the buffer, and one read
  of the tag; all on a little-endian host.\<close>

definition write_then_read ::
  "(Writer \<Rightarrow> Writer) \<Rightarrow> (bool \<Rightarrow> byte list \<Rightarrow> ObjectReader \<Rightarrow> DataTag \<Rightarrow> 'v option \<times> byte list \<times> ObjectReader)
     \<Rightarrow> bool \<Rightarrow> 32 word \<Rightarrow> DataTag \<Rightarrow> 'v option" where
  "write_then_read field read name_based grow tag =
     (let w = Writer_Finish False (field (Writer_new name_based grow))
      in fst (read False (Data w) (ObjectReader_new False (Data w) (Some 0) (Size w) name_based) tag))"


section \<open>More concrete inputs\<close>

text \<open>The buffer of an object of one \<open>Int8\<close> field with the value 7, in id mode.\<close>

definition one_field_buffer :: "byte list" where
  "one_field_buffer = Data (Writer_Finish False (FieldInt8 False tag_a 7 (Writer_new False 0)))"

text \<open>Three fields, the last two with the same tag.\<close>

definition duplicate_fields :: "(DataTag \<times> PrimValue) list" where
  "duplicate_fields = [(tag_b, Int8Value 9), (tag_a, Int8Value 1), (tag_a, Int8Value 2)]"

text \<open>A string array written element by element and finished, in id mode on a little-endian
  host, and the reader that \<open>ReadStringArray\<close> returns for it.\<close>

definition string_array_writer :: "byte list list \<Rightarrow> Writer" where
  "string_array_writer elements =
     (let (w1, aw) = FieldStringArray False tag_a (Writer_new False 0);
          w2 = fold (StringArrayWriter_AddElement False) elements w1;
          (w3, aw') = ArrayWriter_Finish False w2 aw
      in Writer_Finish False w3)"

definition string_array_reader :: "byte list list \<Rightarrow> ArrayReader option" where
  "string_array_reader elements =
     fst (ReadStringArray False (Data (string_array_writer elements))
            (reader_of (string_array_writer elements)) tag_a)"

text \<open>The buffer of one \<open>FieldFloat32\<close>, and of one \<open>FieldInt32\<close>, written on a host of the
  given byte order, and a read of it on a little-endian host.\<close>

definition float_field_buffer :: "bool \<Rightarrow> 32 word \<Rightarrow> byte list" where
  "float_field_buffer big v = Data (Writer_Finish big (FieldFloat32 big tag_a v (Writer_new False 0)))"

definition int_field_buffer :: "bool \<Rightarrow> 32 word \<Rightarrow> byte list" where
  "int_field_buffer big v = Data (Writer_Finish big (FieldInt32 big tag_a v (Writer_new False 0)))"

definition read_on_little_endian ::
  "(bool \<Rightarrow> byte list \<Rightarrow> ObjectReader \<Rightarrow> DataTag \<Rightarrow> 'v option \<times> byte list \<times> ObjectReader) \<Rightarrow> byte list \<Rightarrow> 'v option" where
  "read_on_little_endian read buf =
     fst (read False buf (ObjectReader_new False buf (Some 0) (length buf) False) tag_a)"

section \<open>Bytes of a word and the two byte orders\<close>

lemma bit_le_word:
  "bit (le_word bs :: 'a::len word) n \<longleftrightarrow>
     n < LENGTH('a) \<and> n div 8 < length bs \<and> bit (bs ! (n div 8)) (n mod 8)"
proof (induction bs arbitrary: n)
  case Nil
  show ?case by simp
next
  case (Cons b bs)
  show ?case
  proof (cases "n < 8")
    case True
    then show ?thesis by (simp add: bit_simps)
  next
    case False
    then have d: "n div 8 = Suc ((n - 8) div 8)" and m: "(n - 8) mod 8 = n mod 8"
      by (simp_all add: le_div_geq le_mod_geq)
    from False show ?thesis
      by (auto simp: bit_simps Cons.IH d m dest: bit_imp_le_length)
  qed
qed

lemma length_le_bytes [simp]: "length (le_bytes (v :: 'a::len word)) = LENGTH('a) div 8"
  by (simp add: le_bytes_def)

lemma length_host_bytes [simp]: "length (host_bytes big (v :: 'a::len word)) = LENGTH('a) div 8"
  by (simp add: host_bytes_def)

lemma le_word_le_bytes:
  assumes "8 dvd LENGTH('a::len)"
  shows "le_word (le_bytes (v :: 'a word)) = v"
proof (rule bit_word_eqI)
  fix n assume n: "n < LENGTH('a)"
  from assms n have lt: "n div 8 < LENGTH('a) div 8"
    by (metis dvd_div_mult_self less_mult_imp_div_less)
  have "8 * (n div 8) + n mod 8 = n" by simp
  then show "bit (le_word (le_bytes v) :: 'a word) n = bit v n"
    using n lt by (simp add: bit_le_word le_bytes_def bit_simps)
qed

lemma le_bytes_le_word:
  assumes "length bs * 8 = LENGTH('a::len)"
  shows "le_bytes (le_word bs :: 'a word) = bs"
proof (rule nth_equalityI)
  show "length (le_bytes (le_word bs :: 'a word)) = length bs" using assms by auto
next
  fix i assume "i < length (le_bytes (le_word bs :: 'a word))"
  then have i: "i < length bs" using assms by auto
  show "le_bytes (le_word bs :: 'a word) ! i = bs ! i"
  proof (rule bit_word_eqI)
    fix n assume n: "n < LENGTH(8)"
    then have n8: "n < 8" by simp
    have a: "(8 * i + n) div 8 = i" "(8 * i + n) mod 8 = n" using n8 by simp_all
    have b: "8 * i + n < LENGTH('a)" using i n8 assms by auto
    have c: "i < LENGTH('a) div 8" using i assms by auto
    show "bit (le_bytes (le_word bs :: 'a word) ! i) n = bit (bs ! i) n"
      using i n8 b c by (simp add: le_bytes_def bit_simps bit_le_word a)
  qed
qed

lemma host_word_host_bytes:
  "8 dvd LENGTH('a::len) \<Longrightarrow> host_word big (host_bytes big (v :: 'a word)) = v"
  by (simp add: host_word_def host_bytes_def le_word_le_bytes)

lemma host_bytes_byteswap:
  assumes "8 dvd LENGTH('a::len)"
  shows "host_bytes True (byteswap (v :: 'a word)) = le_bytes v"
proof -
  have "length (rev (le_bytes v)) * 8 = LENGTH('a)" using assms by simp
  then have "le_bytes (le_word (rev (le_bytes v)) :: 'a word) = rev (le_bytes v)"
    by (rule le_bytes_le_word)
  then show ?thesis by (simp add: host_bytes_def byteswap_def)
qed

text \<open>A value written with \<open>swap_endianess = true\<close> is little-endian in the buffer on
  either host.\<close>

lemma host_bytes_AdjustEndianess:
  assumes "LENGTH('a::len) = 16 \<or> LENGTH('a) = 32 \<or> LENGTH('a) = 64"
  shows "host_bytes big (AdjustEndianess big (v :: 'a word)) = le_bytes v"
proof (cases big)
  case True
  have "8 dvd LENGTH('a)" using assms by auto
  then have "host_bytes True (byteswap v) = le_bytes v" by (rule host_bytes_byteswap)
  then show ?thesis using True assms by (auto simp: AdjustEndianess_def)
next
  case False
  then show ?thesis by (simp add: AdjustEndianess_def host_bytes_def)
qed

text \<open>\<open>ReadData\<close> with \<open>swap_endianess = true\<close> decodes little-endian on either host.\<close>

lemma AdjustEndianess_host_word:
  assumes "LENGTH('a::len) = 16 \<or> LENGTH('a) = 32 \<or> LENGTH('a) = 64"
    and "length bs * 8 = LENGTH('a)"
  shows "AdjustEndianess big (host_word big bs :: 'a word) = le_word bs"
proof (cases big)
  case True
  have "le_bytes (le_word (rev bs) :: 'a word) = rev bs"
    by (rule le_bytes_le_word) (simp add: assms)
  then have "byteswap (le_word (rev bs) :: 'a word) = le_word bs"
    by (simp add: byteswap_def)
  then show ?thesis using True assms by (auto simp: AdjustEndianess_def host_word_def)
next
  case False
  then show ?thesis by (simp add: AdjustEndianess_def host_word_def)
qed

lemma le_word_single [simp]: "(le_word [b] :: byte) = b"
  by simp

lemma host_word_single [simp]: "(host_word big [b] :: byte) = b"
  by (simp add: host_word_def)

lemma AdjustEndianess_byte [simp]: "AdjustEndianess big (b :: byte) = b"
  by (simp add: AdjustEndianess_def)

section \<open>The tag hash\<close>

lemma char_in_range:
  assumes "(a::nat) \<le> of_char c" "of_char c < a + k"
  shows "c \<in> char_of ` set [a..<a + k]"
proof -
  have "c = char_of (of_char c :: nat)" by simp
  moreover have "(of_char c :: nat) \<in> set [a..<a + k]" using assms by auto
  ultimately show ?thesis by (metis imageI)
qed

lemma lower_iff:
  "c \<in> set ''abcdefghijklmnopqrstuvwxyz'' \<longleftrightarrow> (97::nat) \<le> of_char c \<and> of_char c \<le> (122::nat)"
proof
  assume "c \<in> set ''abcdefghijklmnopqrstuvwxyz''"
  then show "(97::nat) \<le> of_char c \<and> of_char c \<le> (122::nat)" by auto
next
  assume "(97::nat) \<le> of_char c \<and> of_char c \<le> (122::nat)"
  then have "c \<in> char_of ` set [(97::nat)..<97 + 26]" by (intro char_in_range) auto
  then show "c \<in> set ''abcdefghijklmnopqrstuvwxyz''"
    by (simp add: upt_rec char_of_def bit_Suc_0_iff)
qed

lemma upper_iff:
  "c \<in> set ''ABCDEFGHIJKLMNOPQRSTUVWXYZ'' \<longleftrightarrow> (65::nat) \<le> of_char c \<and> of_char c \<le> (90::nat)"
proof
  assume "c \<in> set ''ABCDEFGHIJKLMNOPQRSTUVWXYZ''"
  then show "(65::nat) \<le> of_char c \<and> of_char c \<le> (90::nat)" by auto
next
  assume "(65::nat) \<le> of_char c \<and> of_char c \<le> (90::nat)"
  then have "c \<in> char_of ` set [(65::nat)..<65 + 26]" by (intro char_in_range) auto
  then show "c \<in> set ''ABCDEFGHIJKLMNOPQRSTUVWXYZ''"
    by (simp add: upt_rec char_of_def bit_Suc_0_iff)
qed

lemma digit_iff:
  "c \<in> set ''0123456789'' \<longleftrightarrow> (48::nat) \<le> of_char c \<and> of_char c \<le> (57::nat)"
proof
  assume "c \<in> set ''0123456789''"
  then show "(48::nat) \<le> of_char c \<and> of_char c \<le> (57::nat)" by auto
next
  assume "(48::nat) \<le> of_char c \<and> of_char c \<le> (57::nat)"
  then have "c \<in> char_of ` set [(48::nat)..<48 + 10]" by (intro char_in_range) auto
  then show "c \<in> set ''0123456789''"
    by (simp add: upt_rec char_of_def bit_Suc_0_iff)
qed

lemma unat_of_nat_byte: "k < 256 \<Longrightarrow> unat (of_nat k :: byte) = k"
  by (simp add: unat_of_nat)

lemma mapped_spec_alt:
  "mapped_spec c =
     (if (97::nat) \<le> of_char c \<and> of_char c \<le> (122::nat) then of_char c - 96
      else if (65::nat) \<le> of_char c \<and> of_char c \<le> (90::nat) then of_char c - 64
      else if (48::nat) \<le> of_char c \<and> of_char c \<le> (57::nat) then of_char c - 48 + 27
      else if c = CHR ''_'' then 37
      else 0)"
  unfolding mapped_spec_def lower_iff upper_iff digit_iff ..

lemma mapped_lower:
  "(97::nat) \<le> of_char c \<Longrightarrow> of_char c \<le> (122::nat) \<Longrightarrow> mapped c = of_nat (of_char c - 97 + 1)"
  by (simp add: mapped_def Let_def)

lemma mapped_upper:
  "(65::nat) \<le> of_char c \<Longrightarrow> of_char c \<le> (90::nat) \<Longrightarrow> mapped c = of_nat (of_char c - 65 + 1)"
  by (simp add: mapped_def Let_def)

lemma mapped_digit:
  "(48::nat) \<le> of_char c \<Longrightarrow> of_char c \<le> (57::nat) \<Longrightarrow> mapped c = of_nat (of_char c - 48 + 27)"
  by (simp add: mapped_def Let_def)

lemma mapped_other:
  "\<not> ((97::nat) \<le> of_char c \<and> of_char c \<le> (122::nat)) \<Longrightarrow>
   \<not> ((65::nat) \<le> of_char c \<and> of_char c \<le> (90::nat)) \<Longrightarrow>
   \<not> ((48::nat) \<le> of_char c \<and> of_char c \<le> (57::nat)) \<Longrightarrow>
   mapped c = (if c = CHR ''_'' then 37 else 0)"
  by (auto simp: mapped_def Let_def)

lemma unat_mapped: "unat (mapped c) = mapped_spec c"
proof -
  define n :: nat where "n = of_char c"
  have lt: "n < 256" by (simp add: n_def)
  consider (lo) "97 \<le> n" "n \<le> 122"
    | (up) "65 \<le> n" "n \<le> 90"
    | (dig) "48 \<le> n" "n \<le> 57"
    | (oth) "\<not> (97 \<le> n \<and> n \<le> 122)" "\<not> (65 \<le> n \<and> n \<le> 90)" "\<not> (48 \<le> n \<and> n \<le> 57)"
    by blast
  then show ?thesis
  proof cases
    case lo
    then have "mapped c = of_nat (n - 97 + 1)" "mapped_spec c = n - 97 + 1"
      by (auto simp: mapped_lower mapped_spec_alt n_def)
    moreover have "n - 97 + 1 < 256" using lt by simp
    ultimately show ?thesis by (simp only: unat_of_nat_byte)
  next
    case up
    then have "mapped c = of_nat (n - 65 + 1)" "mapped_spec c = n - 65 + 1"
      by (auto simp: mapped_upper mapped_spec_alt n_def)
    moreover have "n - 65 + 1 < 256" using lt by simp
    ultimately show ?thesis by (simp only: unat_of_nat_byte)
  next
    case dig
    then have "mapped c = of_nat (n - 48 + 27)" "mapped_spec c = n - 48 + 27"
      by (auto simp: mapped_digit mapped_spec_alt n_def)
    moreover have "n - 48 + 27 < 256" using dig by simp
    ultimately show ?thesis by (simp only: unat_of_nat_byte)
  next
    case oth
    then show ?thesis
      by (simp add: mapped_other mapped_spec_alt n_def)
  qed
qed

lemma unat_TagNameHash_loop:
  "unat (TagNameHash_loop s h) = fnv1a_spec s (unat h)"
proof (induction s arbitrary: h)
  case Nil
  show ?case by simp
next
  case (Cons c s)
  have "unat (ucast (mapped c) :: 32 word) = mapped_spec c"
    by (simp add: unsigned_ucast_eq unat_mapped [symmetric] take_bit_nat_eq_self_iff
          order_less_trans [OF unsigned_less])
  then have "unat ((h XOR ucast (mapped c)) * 16777619) = ((unat h XOR mapped_spec c) * 16777619) mod 2 ^ 32"
    by (simp add: unat_word_ariths unsigned_xor_eq)
  then show ?case by (simp add: Cons.IH)
qed

lemma mapped_toupper: "mapped (ascii_toupper c) = mapped c"
proof (cases "(97::nat) \<le> of_char c \<and> of_char c \<le> (122::nat)")
  case True
  then have lo: "(97::nat) \<le> of_char c" "of_char c \<le> (122::nat)" by simp_all
  have "(of_char c - 32 :: nat) mod 256 = of_char c - 32"
    using lo by (intro mod_less) arith
  then have eq: "(of_char (ascii_toupper c) :: nat) = of_char c - 32"
    using True by (simp add: ascii_toupper_def)
  have "(65::nat) \<le> of_char (ascii_toupper c)" "of_char (ascii_toupper c) \<le> (90::nat)"
    using lo by (simp_all add: eq)
  then have "mapped (ascii_toupper c) = of_nat (of_char (ascii_toupper c) - 65 + 1)"
    by (rule mapped_upper)
  moreover have "(of_char (ascii_toupper c) - 65 + 1 :: nat) = of_char c - 97 + 1"
    using lo by (simp add: eq)
  ultimately show ?thesis using mapped_lower [OF lo] by simp
next
  case False
  then show ?thesis by (auto simp: ascii_toupper_def)
qed

lemma TagNameHash_loop_toupper:
  "TagNameHash_loop (map ascii_toupper s) h = TagNameHash_loop s h"
  by (induction s arbitrary: h) (simp_all add: mapped_toupper)


text \<open>
  Claim C9. \<open>TagNameHash\<close> follows the FNV-1a schedule of the format exactly (start at
  2166136261; per character XOR the mapped value in and multiply by 16777619 modulo
  \<open>2 ^ 32\<close>), the id of a tag made from a literal name is the low 16 bits of the hash, and
  the hash does not see the case of ASCII letters; in particular the tags of \<open>foo\<close> and
  \<open>FOO\<close> have the same id.
\<close>

theorem TagNameHash_follows_fnv1a:
  "unat (TagNameHash s) = fnv1a_spec s 2166136261
   \<and> (\<forall>t. DataTag_of_literal s = Inr t \<longrightarrow> unat (GetId t) = tag_id_spec s)
   \<and> TagNameHash (map ascii_toupper s) = TagNameHash s
   \<and> DataTag_of_literal ''foo'' = Inr \<lparr>GetId = 13111, GetName = ''foo''\<rparr>
   \<and> DataTag_of_literal ''FOO'' = Inr \<lparr>GetId = 13111, GetName = ''FOO''\<rparr>"
proof (intro conjI allI impI)
  show h: "unat (TagNameHash s) = fnv1a_spec s 2166136261"
    by (simp add: TagNameHash_def unat_TagNameHash_loop)
  show "unat (GetId t) = tag_id_spec s" if "DataTag_of_literal s = Inr t" for t
  proof -
    from that have "GetId t = ucast (TagNameHash s)"
      by (auto simp: DataTag_of_literal_def Validate_def split: if_splits)
    then have "unat (GetId t) = unat (TagNameHash s) mod 2 ^ 16"
      by (simp add: unsigned_ucast_eq take_bit_eq_mod)
    then show ?thesis by (simp add: h tag_id_spec_def)
  qed
  show "TagNameHash (map ascii_toupper s) = TagNameHash s"
    by (simp add: TagNameHash_def TagNameHash_loop_toupper)
  show "DataTag_of_literal ''foo'' = Inr \<lparr>GetId = 13111, GetName = ''foo''\<rparr>"
    by (simp add: DataTag_of_literal_def Validate_def IsTagNameValid_def IsValidTagChar_def
        MAX_TAG_NAME_LENGTH_def INVALID_ID_def TagNameHash_def mapped_def)
  show "DataTag_of_literal ''FOO'' = Inr \<lparr>GetId = 13111, GetName = ''FOO''\<rparr>"
    by (simp add: DataTag_of_literal_def Validate_def IsTagNameValid_def IsValidTagChar_def
        MAX_TAG_NAME_LENGTH_def INVALID_ID_def TagNameHash_def mapped_def)
qed

theorem TagNameHash_follows_fnv1a_witness:
  "DataTag_of_literal ''user_1'' = Inr \<lparr>GetId = 32139, GetName = ''user_1''\<rparr>
   \<and> tag_id_spec ''user_1'' = 32139"
proof -
  have t: "DataTag_of_literal ''user_1'' = Inr \<lparr>GetId = 32139, GetName = ''user_1''\<rparr>"
    by (simp add: DataTag_of_literal_def Validate_def IsTagNameValid_def IsValidTagChar_def
        MAX_TAG_NAME_LENGTH_def INVALID_ID_def TagNameHash_def mapped_def)
  from TagNameHash_follows_fnv1a [of "''user_1''"] t
  have "unat (GetId \<lparr>GetId = 32139, GetName = ''user_1''\<rparr>) = tag_id_spec ''user_1''"
    by blast
  with t show ?thesis by simp
qed

section \<open>Invalid objects: structural errors and the empty object\<close>

lemmas read_defs =
  ContainsTag_def GetTagType_def ReadPrimitive_def ReadInt8_def ReadInt16_def ReadInt32_def
  ReadInt64_def ReadUInt8_def ReadUInt16_def ReadUInt32_def ReadUInt64_def ReadBoolean_def
  ReadFloat16_def ReadFloat32_def ReadFloat64_def ReadString_def ReadBinary_def ReadUUID_def
  ReadObject_def ReadArray_def ReadVector_def ReadStringArray_def ReadBinaryArray_def
  ReadObjectArray_def ReadPointerData_def

lemma reads_none_if_not_found:
  assumes "fst (FindTag big mem r tag) = None"
  shows "reads_none big mem r tag"
proof -
  obtain mem' r' where "FindTag big mem r tag = (None, mem', r')"
    using assms by (metis fst_conv prod_cases3)
  then show ?thesis
    by (simp add: reads_none_def read_defs)
qed

lemma IsValid_built: "m_cache_built r \<Longrightarrow> IsValid big mem r = (m_is_valid r, mem, r)"
  by (simp add: IsValid_def)

lemma FindTag_invalid:
  "\<not> fst (IsValid big mem r) \<Longrightarrow> fst (FindTag big mem r tag) = None"
  by (auto simp: FindTag_def split: prod.splits)

lemma CreateCache_built: "m_cache_built (snd (CreateCache big mem r))"
  by (auto simp: CreateCache_def Let_def split: option.splits prod.splits)

lemma IsValid_idem:
  "IsValid big mem r = (v, mem', r') \<Longrightarrow> IsValid big mem' r' = (v, mem', r')"
proof -
  assume a: "IsValid big mem r = (v, mem', r')"
  then have "m_cache_built r'" "m_is_valid r' = v"
    using CreateCache_built [of big mem r]
    by (auto simp: IsValid_def split: if_splits prod.splits)
  then show ?thesis by (simp add: IsValid_built)
qed

lemma invalid_reads_none:
  assumes "\<not> fst (IsValid big mem r)"
  shows "reads_none big mem r tag"
    and "case snd (IsValid big mem r) of (mem', r') \<Rightarrow> \<not> fst (IsValid big mem' r') \<and> reads_none big mem' r' tag"
proof -
  show "reads_none big mem r tag"
    using assms by (intro reads_none_if_not_found FindTag_invalid)
  obtain v mem' r' where iv: "IsValid big mem r = (v, mem', r')" by (metis prod_cases3)
  with assms have "\<not> v" by simp
  from IsValid_idem [OF iv] \<open>\<not> v\<close> have "\<not> fst (IsValid big mem' r')" by simp
  then have "reads_none big mem' r' tag"
    by (intro reads_none_if_not_found FindTag_invalid)
  with \<open>\<not> fst (IsValid big mem' r')\<close> iv
  show "case snd (IsValid big mem r) of (mem', r') \<Rightarrow> \<not> fst (IsValid big mem' r') \<and> reads_none big mem' r' tag"
    by simp
qed

lemma Invalidate_fields [simp]:
  "m_cache_built (Invalidate r) = False" "m_is_valid (Invalidate r) = False"
  "m_buffer' (Invalidate r) = m_buffer' r" "m_size (Invalidate r) = m_size r"
  "m_name_based' (Invalidate r) = m_name_based' r"
  "m_name_cache r = Map.empty \<Longrightarrow> m_name_cache (Invalidate r) = Map.empty"
  "m_id_cache r = Map.empty \<Longrightarrow> m_id_cache (Invalidate r) = Map.empty"
  by (simp_all add: Invalidate_def Let_def)

lemma ObjectReader_at_fields [simp]:
  "m_cache_built (ObjectReader_at big mem (Some b) nb) = False"
  "m_is_valid (ObjectReader_at big mem (Some b) nb) = False"
  "m_buffer' (ObjectReader_at big mem (Some b) nb) = Some (b + 4)"
  "m_size (ObjectReader_at big mem (Some b) nb) = host_word big (take 4 (drop b mem))"
  "m_name_based' (ObjectReader_at big mem (Some b) nb) = nb"
  "m_name_cache (ObjectReader_at big mem (Some b) nb) = Map.empty"
  "m_id_cache (ObjectReader_at big mem (Some b) nb) = Map.empty"
  by (simp_all add: ObjectReader_at_def Let_def)

lemma fresh_reader:
  assumes "r = ObjectReader_at big mem (Some b) nb \<or> r = ObjectReader_new big mem (Some b) sz nb"
  shows "\<not> m_cache_built r" "m_buffer' r = Some (b + 4)" "m_name_based' r = nb"
    "m_size r = host_word big (take 4 (drop b mem))"
    "m_name_cache r = Map.empty" "m_id_cache r = Map.empty"
  using assms by (auto simp: ObjectReader_new_def Let_def split: if_splits)

lemma Writer_new_buffer: "m_buffer (Writer_new nb g) = [0, 0, 0, 0]"
  by (simp add: Writer_new_def ObjectWriter_new_def ReserveDataSizeField_def SetBufferGrowSize_def
      Let_def numeral_eq_Suc)

lemma le_bytes_0: "le_bytes (0 :: FieldSize) = [0, 0, 0, 0]"
  by (simp add: le_bytes_def upt_rec)

lemma empty_writer_buffer: "Data (Writer_Finish big (Writer_new nb g)) = [0, 0, 0, 0]"
proof -
  have r: "m_root_object (Writer_new nb g) = \<lparr>m_obj_size_pos = 0, m_is_finished = False\<rparr>"
    by (simp add: Writer_new_def ObjectWriter_new_def ReserveDataSizeField_def SetBufferGrowSize_def Let_def)
  have "host_bytes big (AdjustEndianess big (0 :: FieldSize)) = [0, 0, 0, 0]"
    by (simp add: host_bytes_AdjustEndianess le_bytes_0)
  then show ?thesis
    by (simp add: Data_def Writer_Finish_def ObjectWriter_Finish_def r WriteDataSizeField_def
        Writer_new_buffer store_def Let_def)
qed

text \<open>
  Claim C10. A writer on which no field was written produces the four bytes of a zero
  size; a reader over a zero size prefix, the root or a nested object alike, is invalid
  and every read on it returns none, at the first use and after it.
\<close>

theorem empty_object_is_invalid:
  "Data (Writer_Finish bigw (Writer_new nbw g)) = [0, 0, 0, 0] \<and>
   ((host_word big (take 4 (drop b mem)) :: FieldSize) = 0 \<longrightarrow>
      (\<forall>r \<in> {ObjectReader_at big mem (Some b) nb, ObjectReader_new big mem (Some b) sz nb}.
         \<not> fst (IsValid big mem r) \<and> reads_none big mem r tag \<and>
         (case snd (IsValid big mem r) of (mem', r') \<Rightarrow>
            \<not> fst (IsValid big mem' r') \<and> reads_none big mem' r' tag)))"
proof (intro conjI impI ballI)
  show "Data (Writer_Finish bigw (Writer_new nbw g)) = [0, 0, 0, 0]"
    by (rule empty_writer_buffer)
next
  fix r
  assume z: "(host_word big (take 4 (drop b mem)) :: FieldSize) = 0"
    and "r \<in> {ObjectReader_at big mem (Some b) nb, ObjectReader_new big mem (Some b) sz nb}"
  then have r: "r = ObjectReader_at big mem (Some b) nb \<or> r = ObjectReader_new big mem (Some b) sz nb"
    by auto
  have "CreateCache big mem r = (mem, r\<lparr>m_is_valid := False, m_cache_built := True\<rparr>)"
    using fresh_reader [OF r] z by (simp add: CreateCache_def)
  then show iv: "\<not> fst (IsValid big mem r)"
    using fresh_reader(1) [OF r] by (simp add: IsValid_def)
  show "reads_none big mem r tag"
    by (rule invalid_reads_none(1) [OF iv])
  show "case snd (IsValid big mem r) of (mem', r') \<Rightarrow>
            \<not> fst (IsValid big mem' r') \<and> reads_none big mem' r' tag"
    by (rule invalid_reads_none(2) [OF iv])
qed

theorem empty_object_is_invalid_witness:
  "(host_word False (take 4 (drop 0 [0, 0, 0, 0])) :: FieldSize) = 0 \<and>
   \<not> fst (IsValid False [0, 0, 0, 0] (ObjectReader_new False [0, 0, 0, 0] (Some 0) 4 True)) \<and>
   fst (ReadInt32 False [0, 0, 0, 0] (ObjectReader_new False [0, 0, 0, 0] (Some 0) 4 True)
          \<lparr>GetId = 1, GetName = ''a''\<rparr>) = None"
proof -
  have z: "(host_word False (take 4 (drop 0 [0, 0, 0, 0])) :: FieldSize) = 0"
    by (simp add: host_word_def)
  from empty_object_is_invalid [of False False 0 False 0 "[0, 0, 0, 0]" True 4 "\<lparr>GetId = 1, GetName = ''a''\<rparr>"] z
  have "\<not> fst (IsValid False [0, 0, 0, 0] (ObjectReader_new False [0, 0, 0, 0] (Some 0) 4 True))"
    and "reads_none False [0, 0, 0, 0] (ObjectReader_new False [0, 0, 0, 0] (Some 0) 4 True) \<lparr>GetId = 1, GetName = ''a''\<rparr>"
    by blast+
  with z show ?thesis by (simp add: reads_none_def)
qed

text \<open>
  When the loop over the field region of an object returns with \<open>errors\<close> set, or with the
  cursor not at the region end, \<open>IsValid\<close> is false and every read of every tag returns
  none, then and afterwards.
\<close>

lemma structural_error_invalidates:
  assumes "r \<in> {ObjectReader_at big mem (Some b) nb, ObjectReader_new big mem (Some b) sz nb}"
    and "m_size r \<noteq> 0"
    and "CreateCache_loop big nb (b + 4 + unat (m_size r)) (b + 4) mem Map.empty Map.empty
           = (errors, q, mem', name_cache, id_cache)"
    and "errors \<or> q \<noteq> b + 4 + unat (m_size r)"
  shows "\<not> fst (IsValid big mem r) \<and> reads_none big mem r tag \<and>
         (case snd (IsValid big mem r) of (m, r') \<Rightarrow>
            \<not> fst (IsValid big m r') \<and> reads_none big m r' tag)"
proof -
  from assms(1) have r: "r = ObjectReader_at big mem (Some b) nb \<or> r = ObjectReader_new big mem (Some b) sz nb"
    by auto
  note f = fresh_reader [OF r]
  have "\<not> m_is_valid (snd (CreateCache big mem r))"
    using f(1,2,3,5,6) assms(2,3,4)
    by (auto simp: CreateCache_def Let_def)
  then have iv: "\<not> fst (IsValid big mem r)"
    using f(1) by (cases "CreateCache big mem r") (simp add: IsValid_def)
  from invalid_reads_none(1) [OF iv, of tag] invalid_reads_none(2) [OF iv, of tag] iv
  show ?thesis by simp
qed

lemma invalid_type_byte_sets_errors:
  assumes "read_ptr < buff_end" "\<not> IsValidDataType (host_word big (take 1 (drop read_ptr mem)))"
  shows "fst (CreateCache_loop big nb buff_end read_ptr mem name_cache id_cache)"
proof -
  have "CanAccessBuffer read_ptr buff_end 1" using assms(1) by (simp add: CanAccessBuffer_def)
  then have "fst (CreateCache_body big nb mem read_ptr buff_end)"
    using assms(2) by (simp add: CreateCache_body_def ReadData_def Let_def)
  then show ?thesis
    using assms(1)
    by (subst CreateCache_loop.simps) (auto split: prod.splits)
qed

text \<open>An object of one byte that is not a type byte.\<close>

lemma structural_error_invalidates_example:
  "ObjectReader_new False [1, 0, 0, 0, 0xFF] (Some 0) 5 True
     \<in> {ObjectReader_at False [1, 0, 0, 0, 0xFF] (Some 0) True,
         ObjectReader_new False [1, 0, 0, 0, 0xFF] (Some 0) 5 True} \<and>
   m_size (ObjectReader_new False [1, 0, 0, 0, 0xFF] (Some 0) 5 True) = 1 \<and>
   fst (CreateCache_loop False True 5 4 [1, 0, 0, 0, 0xFF] Map.empty Map.empty) \<and>
   \<not> fst (IsValid False [1, 0, 0, 0, 0xFF] (ObjectReader_new False [1, 0, 0, 0, 0xFF] (Some 0) 5 True)) \<and>
   fst (ReadInt8 False [1, 0, 0, 0, 0xFF] (ObjectReader_new False [1, 0, 0, 0, 0xFF] (Some 0) 5 True)
          \<lparr>GetId = 1, GetName = ''a''\<rparr>) = None"
proof -
  let ?mem = "[1, 0, 0, 0, 0xFF] :: byte list"
  let ?r = "ObjectReader_new False ?mem (Some 0) 5 True"
  have sz: "m_size ?r = 1"
    by (simp add: ObjectReader_new_def Let_def host_word_def)
  have e: "fst (CreateCache_loop False True 5 4 ?mem Map.empty Map.empty)"
    by (rule invalid_type_byte_sets_errors)
      (simp_all add: IsValidDataType_def TypeClassification_def CLASSIFICATION_MASK_def Raw_def
        Array_def Vector2_def Vector3_def Vector4_def Let_def)
  obtain q mem' nc ic where l: "CreateCache_loop False True (0 + 4 + unat (m_size ?r)) (0 + 4) ?mem Map.empty Map.empty
      = (True, q, mem', nc, ic)"
    using e by (cases "CreateCache_loop False True 5 4 ?mem Map.empty Map.empty") (auto simp: sz)
  have "?r \<in> {ObjectReader_at False ?mem (Some 0) True, ?r}" by (rule insertI2) (rule singletonI)
  from structural_error_invalidates [OF this _ l, of "\<lparr>GetId = 1, GetName = ''a''\<rparr>"] sz
  have "\<not> fst (IsValid False ?mem ?r)"
    and "reads_none False ?mem ?r \<lparr>GetId = 1, GetName = ''a''\<rparr>"
    by simp_all
  with sz e show ?thesis by (simp add: reads_none_def)
qed

subsection \<open>The size of the span\<close>

text \<open>\<open>Invalidate\<close> on a reader that has built nothing.\<close>

lemma Invalidate_fresh:
  "Invalidate \<lparr>m_buffer' = p, m_size = s, m_name_based' = nb, m_cache_built = False,
      m_is_valid = False, m_id_cache = Map.empty, m_name_cache = Map.empty\<rparr>
   = \<lparr>m_buffer' = p, m_size = s, m_name_based' = nb, m_cache_built = False,
      m_is_valid = False, m_id_cache = Map.empty, m_name_cache = Map.empty\<rparr>"
  by (simp add: Invalidate_def)

lemma ObjectReader_at_fresh:
  "\<exists>p s. ObjectReader_at big mem buffer nb
     = \<lparr>m_buffer' = p, m_size = s, m_name_based' = nb, m_cache_built = False,
        m_is_valid = False, m_id_cache = Map.empty, m_name_cache = Map.empty\<rparr>"
  by (cases buffer) (simp_all add: ObjectReader_at_def Invalidate_fresh)

text \<open>An iteration without an error leaves the cursor inside the region that the size
  prefix gives, so a loop that returns without an error returns at the region end.\<close>

lemma body_no_error_in_region:
  assumes "CreateCache_body big nb mem p e = (False, p', m', tp, ts, en)"
  shows "p' \<le> e"
  using assms
  by (auto simp: CreateCache_body_def Let_def split: if_splits option.splits prod.splits)

lemma loop_without_errors_ends_at_region_end:
  assumes "CreateCache_loop big nb buff_end read_ptr mem nc ic = (False, q, m', nc', ic')"
    and "read_ptr \<le> buff_end"
  shows "q = buff_end"
  using assms
proof (induction big nb buff_end read_ptr mem nc ic rule: CreateCache_loop.induct)
  case (1 big nb buff_end read_ptr mem nc ic)
  show ?case
  proof (cases "read_ptr < buff_end")
    case False
    with "1.prems" show ?thesis
      by (subst (asm) CreateCache_loop.simps) simp
  next
    case True
    obtain errors p mem' tag_ptr tag_size entry
      where b: "CreateCache_body big nb mem read_ptr buff_end = (errors, p, mem', tag_ptr, tag_size, entry)"
      by (metis prod_cases6)
    have ne: "\<not> errors"
      using "1.prems"(1) True b by (subst (asm) CreateCache_loop.simps) (auto split: if_splits)
    then have le: "p \<le> buff_end"
      using body_no_error_in_region [of big nb mem read_ptr buff_end p mem' tag_ptr tag_size entry] b
      by simp
    show ?thesis
    proof (cases nb)
      case nbT: True
      have "CreateCache_loop big nb buff_end p mem'
              (emplace nc (take (unat tag_size) (drop tag_ptr mem')) entry) ic = (False, q, m', nc', ic')"
        using "1.prems"(1) True b ne nbT by (subst (asm) CreateCache_loop.simps) simp
      then show ?thesis
        using "1.IH"(1) [OF True b [symmetric] refl refl refl refl ne nbT] le by blast
    next
      case nbF: False
      have "CreateCache_loop big nb buff_end p mem' nc
              (emplace ic (host_word big (take 2 (drop tag_ptr mem'))) entry) = (False, q, m', nc', ic')"
        using "1.prems"(1) True b ne nbF by (subst (asm) CreateCache_loop.simps) simp
      then show ?thesis
        using "1.IH"(2) [OF True b [symmetric] refl refl refl refl ne nbF] le by blast
    qed
  qed
qed

text \<open>
  Claim C7 at the bound of the span. The constructor that takes the size of the buffer
  calls \<open>Invalidate\<close> when the size prefix says more than the span holds; \<open>Invalidate\<close>
  clears the cache and both flags, which a new reader has cleared already, so the next
  \<open>IsValid\<close> builds the index from the size prefix alone and the size of the span has no
  effect. Over the first 7 bytes of an object of 8 bytes, whose size prefix is 4, the
  reader is valid and \<open>ReadInt8\<close> returns the byte behind the span; likewise over a span
  of 0 bytes. Inside the region that the size prefix gives the pass does set \<open>errors\<close>
  (\<open>invalid_type_byte_sets_errors\<close>, \<open>loop_without_errors_ends_at_region_end\<close>) and an
  error makes every read return none (\<open>structural_error_invalidates\<close>).
\<close>

theorem span_check_has_no_effect:
  "ObjectReader_new big mem buffer sz nb = ObjectReader_at big mem buffer nb \<and>
   one_field_buffer = [4, 0, 0, 0, Int8, 1, 0, 7] \<and>
   unat (m_size (ObjectReader_at False one_field_buffer (Some 0) False)) + 4 > 7 \<and>
   fst (IsValid False one_field_buffer (ObjectReader_new False one_field_buffer (Some 0) 7 False)) \<and>
   fst (ReadInt8 False one_field_buffer (ObjectReader_new False one_field_buffer (Some 0) 7 False) tag_a)
     = Some 7 \<and>
   fst (IsValid False one_field_buffer (ObjectReader_new False one_field_buffer (Some 0) 0 False)) \<and>
   fst (ReadInt8 False one_field_buffer (ObjectReader_new False one_field_buffer (Some 0) 0 False) tag_a)
     = Some 7"
proof (intro conjI)
  obtain p s where "ObjectReader_at big mem buffer nb
     = \<lparr>m_buffer' = p, m_size = s, m_name_based' = nb, m_cache_built = False,
        m_is_valid = False, m_id_cache = Map.empty, m_name_cache = Map.empty\<rparr>"
    using ObjectReader_at_fresh by blast
  then show "ObjectReader_new big mem buffer sz nb = ObjectReader_at big mem buffer nb"
    by (simp add: ObjectReader_new_def Let_def Invalidate_fresh)
qed code_simp+


section \<open>Reads that expect another type\<close>

lemma mismatched_reads_none_if:
  "FindTag big mem r tag = (Some e, res) \<Longrightarrow> mismatched_reads_none big mem r tag (entry_type e) res"
  by (cases res)
    (auto simp: mismatched_reads_none_def read_defs ReadStringInternal_def ReadObjectInternal_def)

lemma FindTag_after_build:
  assumes "FindTag big mem r tag = (x, mem', r')"
  shows "FindTag big m r' tag = (x, m, r')"
proof -
  obtain v where iv: "IsValid big mem r = (v, mem', r')"
    using assms by (auto simp: FindTag_def split: prod.splits if_splits)
  then have b: "m_cache_built r'" "m_is_valid r' = v"
    using CreateCache_built [of big mem r]
    by (auto simp: IsValid_def split: if_splits prod.splits)
  then have "IsValid big m r' = (v, m, r')" by (simp add: IsValid_built)
  with assms iv show ?thesis by (auto simp: FindTag_def split: if_splits)
qed

text \<open>
  Claim C8. When the index holds a tag with stored type \<open>U\<close>, every read of that tag that
  expects another type returns none and leaves the memory and the reader as the lookup
  left them; once the index is built this holds whatever the memory contains, so the read
  does not depend on the payload.
\<close>

theorem type_mismatch_reads_none:
  assumes "fst (FindTag big mem r tag) = Some e"
  shows "mismatched_reads_none big mem r tag (entry_type e) (snd (FindTag big mem r tag)) \<and>
         (\<forall>m. mismatched_reads_none big m (snd (snd (FindTag big mem r tag))) tag (entry_type e)
                (m, snd (snd (FindTag big mem r tag))))"
proof -
  obtain mem' r' where f: "FindTag big mem r tag = (Some e, mem', r')"
    using assms by (cases "FindTag big mem r tag") auto
  from mismatched_reads_none_if [OF f] mismatched_reads_none_if [OF FindTag_after_build [OF f]]
  show ?thesis by (simp add: f)
qed

theorem type_mismatch_reads_none_witness:
  "fst (FindTag False [4, 0, 0, 0, 0, 0x34, 0x12, 0x9C]
          (ObjectReader_new False [4, 0, 0, 0, 0, 0x34, 0x12, 0x9C] (Some 0) 8 False)
          \<lparr>GetId = 0x1234, GetName = ''int8''\<rparr>)
     = Some \<lparr>entry_type = Int8, entry_value = v_int8 0x9C\<rparr> \<and>
   fst (ReadInt16 False [4, 0, 0, 0, 0, 0x34, 0x12, 0x9C]
          (ObjectReader_new False [4, 0, 0, 0, 0, 0x34, 0x12, 0x9C] (Some 0) 8 False)
          \<lparr>GetId = 0x1234, GetName = ''int8''\<rparr>) = None"
proof -
  have f: "fst (FindTag False [4, 0, 0, 0, 0, 0x34, 0x12, 0x9C]
          (ObjectReader_new False [4, 0, 0, 0, 0, 0x34, 0x12, 0x9C] (Some 0) 8 False)
          \<lparr>GetId = 0x1234, GetName = ''int8''\<rparr>)
     = Some \<lparr>entry_type = Int8, entry_value = v_int8 0x9C\<rparr>"
    by code_simp
  have "Int8 \<noteq> Int16" by (simp add: Int8_def Int16_def)
  with type_mismatch_reads_none [OF f] f show ?thesis
    by (simp add: mismatched_reads_none_def)
qed

section \<open>Size slots of the encoder\<close>

lemma store_append:
  "length slot = length bs \<Longrightarrow> store (pre @ slot @ body) (length pre) bs = pre @ bs @ body"
  by (simp add: store_def)

lemma unat_FieldSize_of_nat: "n < 2 ^ 32 \<Longrightarrow> unat (of_nat n :: FieldSize) = n"
  by (simp add: unat_of_nat)

lemma WriteDataSizeField_buffer:
  assumes "m_buffer w = pre @ slot @ body" "length slot = 4"
  shows "m_buffer (WriteDataSizeField big (length pre) w)
           = pre @ le_bytes (of_nat (length body) :: FieldSize) @ body"
proof -
  have "(of_nat (length (m_buffer w)) - of_nat (length pre) - 4 :: FieldSize) = of_nat (length body)"
    using assms by simp
  moreover have "host_bytes big (AdjustEndianess big (of_nat (length body) :: FieldSize))
      = le_bytes (of_nat (length body) :: FieldSize)"
    by (simp add: host_bytes_AdjustEndianess)
  ultimately show ?thesis
    using assms by (simp add: WriteDataSizeField_def Let_def store_append)
qed

lemma ReserveDataSizeField_eq:
  "ReserveDataSizeField w = (length (m_buffer w), w\<lparr>m_buffer := m_buffer w @ [0, 0, 0, 0]\<rparr>)"
  by (simp add: ReserveDataSizeField_def numeral_eq_Suc)

lemma ObjectWriter_new_eq:
  "ObjectWriter_new w = (w\<lparr>m_buffer := m_buffer w @ [0, 0, 0, 0]\<rparr>,
                         \<lparr>m_obj_size_pos = length (m_buffer w), m_is_finished = False\<rparr>)"
  by (simp add: ObjectWriter_new_def ReserveDataSizeField_eq)

lemma ArrayWriter_new_eq:
  "ArrayWriter_new w = (w\<lparr>m_buffer := m_buffer w @ [0, 0, 0, 0]\<rparr>,
                        \<lparr>m_array_size_pos = length (m_buffer w), m_is_finished' = False\<rparr>)"
  by (simp add: ArrayWriter_new_def ReserveDataSizeField_eq)

lemma ObjectWriter_Finish_idem:
  "ObjectWriter_Finish big (fst (ObjectWriter_Finish big w ow)) (snd (ObjectWriter_Finish big w ow))
     = ObjectWriter_Finish big w ow"
  by (simp add: ObjectWriter_Finish_def)

lemma ArrayWriter_Finish_idem:
  "ArrayWriter_Finish big (fst (ArrayWriter_Finish big w aw)) (snd (ArrayWriter_Finish big w aw))
     = ArrayWriter_Finish big w aw"
  by (simp add: ArrayWriter_Finish_def)

lemma ArrayWriter_destroy_backpatches:
  assumes "ArrayWriter_new w0 = (w1, aw)" "m_buffer w = m_buffer w1 @ body"
  shows "m_buffer (ArrayWriter_destroy big w aw)
           = m_buffer w0 @ le_bytes (of_nat (length body) :: FieldSize) @ body"
proof -
  from assms(1) have aw: "m_array_size_pos aw = length (m_buffer w0)" "\<not> m_is_finished' aw"
    and w1: "m_buffer w1 = m_buffer w0 @ [0, 0, 0, 0]"
    by (auto simp: ArrayWriter_new_eq)
  have "m_buffer w = m_buffer w0 @ [0, 0, 0, 0] @ body" using assms(2) w1 by simp
  from WriteDataSizeField_buffer [OF this] aw show ?thesis
    by (simp add: ArrayWriter_destroy_def ArrayWriter_Finish_def)
qed

subsection \<open>Swapping the elements of an array\<close>

lemma length_store [simp]: "length (store mem p bs) = length mem"
  by (auto simp: store_def)

lemma length_swap_element [simp]: "length (swap_element sz mem p) = length mem"
  by (simp add: swap_element_def)

lemma swap_element_append:
  "swap_element sz (pre @ xs) (length pre + k) = pre @ swap_element sz xs k"
  by (simp add: swap_element_def store_def)

lemma fold_swap_append:
  "fold (\<lambda>i m. swap_element sz m (length pre + i * sz)) is (pre @ xs)
     = pre @ fold (\<lambda>i m. swap_element sz m (i * sz)) is xs"
  by (induction "is" arbitrary: xs) (simp_all add: swap_element_append)

lemma length_fold_swap [simp]:
  "length (fold (\<lambda>i m. swap_element sz m (f i)) is xs) = length xs"
  by (induction "is" arbitrary: xs) simp_all

lemma AdjustArrayEndianess_append:
  "AdjustArrayEndianess big sz (pre @ xs) (length pre) count
     = pre @ AdjustArrayEndianess big sz xs 0 count"
  using fold_swap_append [of sz pre "[0..<count]" xs]
  by (simp add: AdjustArrayEndianess_def)

lemma length_AdjustArrayEndianess [simp]:
  "length (AdjustArrayEndianess big sz mem p count) = length mem"
  by (simp add: AdjustArrayEndianess_def)

lemma FieldArray_buffer:
  "m_buffer (FieldArray big esz tag t data len w)
     = m_buffer (WriteFieldHeader big tag t w)
       @ le_bytes (of_nat (unat len * esz) :: FieldSize)
       @ AdjustArrayEndianess big esz (take (unat (of_nat (unat len * esz) :: FieldSize)) data) 0 (unat len)"
proof -
  have "host_bytes big (AdjustEndianess big (of_nat (unat len * esz) :: FieldSize))
      = le_bytes (of_nat (unat len * esz) :: FieldSize)"
    by (simp add: host_bytes_AdjustEndianess)
  then show ?thesis
    using AdjustArrayEndianess_append [of big esz
        "m_buffer (WriteFieldHeader big tag t w) @ le_bytes (of_nat (unat len * esz) :: FieldSize)"]
    by (simp add: FieldArray_def WriteData_def WriteData_bytes_def Let_def)
qed

lemma size_prefix_append:
  "n < 2 ^ 32 \<Longrightarrow> size_prefix (pre @ le_bytes (of_nat n :: FieldSize) @ body) (length pre) = n"
  by (simp add: size_prefix_def le_word_le_bytes unat_FieldSize_of_nat)

text \<open>
  Claim C6, amended. When \<open>Finish\<close> is called on an object or array scope whose body (all
  the bytes appended since the scope reserved its slot, inner scopes finished) is shorter
  than \<open>2 ^ 32\<close> bytes, the slot holds the exact length of the body, little-endian, on
  either host, and nothing else changes. A fixed-element array whose \<open>count * element-size\<close>
  is below \<open>2 ^ 32\<close> is written with that product as its size, followed by as many bytes.
\<close>

theorem size_prefix_law:
  "(ObjectWriter_new wa = (wb, ow) \<and> m_buffer w = m_buffer wb @ body \<and> length body < 2 ^ 32 \<longrightarrow>
      m_buffer (fst (ObjectWriter_Finish big w ow))
        = m_buffer wa @ le_bytes (of_nat (length body) :: FieldSize) @ body \<and>
      size_prefix (m_buffer (fst (ObjectWriter_Finish big w ow))) (length (m_buffer wa)) = length body) \<and>
   (ArrayWriter_new aa = (ab, aw) \<and> m_buffer a = m_buffer ab @ elems \<and> length elems < 2 ^ 32 \<longrightarrow>
      m_buffer (fst (ArrayWriter_Finish big a aw))
        = m_buffer aa @ le_bytes (of_nat (length elems) :: FieldSize) @ elems \<and>
      size_prefix (m_buffer (fst (ArrayWriter_Finish big a aw))) (length (m_buffer aa)) = length elems) \<and>
   (unat len * esz < 2 ^ 32 \<and> unat len * esz \<le> length data \<longrightarrow>
      (\<exists>payload.
         m_buffer (FieldArray big esz tag t data len v)
           = m_buffer (WriteFieldHeader big tag t v) @ le_bytes (of_nat (unat len * esz) :: FieldSize) @ payload \<and>
         length payload = unat len * esz \<and>
         size_prefix (m_buffer (FieldArray big esz tag t data len v))
           (length (m_buffer (WriteFieldHeader big tag t v))) = unat len * esz))"
proof (intro conjI impI)
  assume a: "ObjectWriter_new wa = (wb, ow) \<and> m_buffer w = m_buffer wb @ body \<and> length body < 2 ^ 32"
  then have ow: "m_obj_size_pos ow = length (m_buffer wa)" "\<not> m_is_finished ow"
    and w: "m_buffer w = m_buffer wa @ [0, 0, 0, 0] @ body"
    by (auto simp: ObjectWriter_new_eq)
  from WriteDataSizeField_buffer [OF w] ow
  show b: "m_buffer (fst (ObjectWriter_Finish big w ow))
        = m_buffer wa @ le_bytes (of_nat (length body) :: FieldSize) @ body"
    by (simp add: ObjectWriter_Finish_def)
  show "size_prefix (m_buffer (fst (ObjectWriter_Finish big w ow))) (length (m_buffer wa)) = length body"
    using a by (simp only: b size_prefix_append)
next
  assume a: "ArrayWriter_new aa = (ab, aw) \<and> m_buffer a = m_buffer ab @ elems \<and> length elems < 2 ^ 32"
  then have aw: "m_array_size_pos aw = length (m_buffer aa)" "\<not> m_is_finished' aw"
    and w: "m_buffer a = m_buffer aa @ [0, 0, 0, 0] @ elems"
    by (auto simp: ArrayWriter_new_eq)
  from WriteDataSizeField_buffer [OF w] aw
  show b: "m_buffer (fst (ArrayWriter_Finish big a aw))
        = m_buffer aa @ le_bytes (of_nat (length elems) :: FieldSize) @ elems"
    by (simp add: ArrayWriter_Finish_def)
  show "size_prefix (m_buffer (fst (ArrayWriter_Finish big a aw))) (length (m_buffer aa)) = length elems"
    using a by (simp only: b size_prefix_append)
next
  assume a: "unat len * esz < 2 ^ 32 \<and> unat len * esz \<le> length data"
  let ?n = "unat len * esz"
  let ?payload = "AdjustArrayEndianess big esz (take (unat (of_nat ?n :: FieldSize)) data) 0 (unat len)"
  have n: "unat (of_nat ?n :: FieldSize) = ?n" using a by (intro unat_FieldSize_of_nat) blast
  have b: "m_buffer (FieldArray big esz tag t data len v)
      = m_buffer (WriteFieldHeader big tag t v) @ le_bytes (of_nat ?n :: FieldSize) @ ?payload"
    by (rule FieldArray_buffer)
  moreover have "length ?payload = ?n" using a by (simp only: length_AdjustArrayEndianess n length_take) simp
  moreover have "size_prefix (m_buffer (FieldArray big esz tag t data len v))
           (length (m_buffer (WriteFieldHeader big tag t v))) = ?n"
    using a by (simp only: b size_prefix_append)
  ultimately show "\<exists>payload.
         m_buffer (FieldArray big esz tag t data len v)
           = m_buffer (WriteFieldHeader big tag t v) @ le_bytes (of_nat (unat len * esz) :: FieldSize) @ payload \<and>
         length payload = unat len * esz \<and>
         size_prefix (m_buffer (FieldArray big esz tag t data len v))
           (length (m_buffer (WriteFieldHeader big tag t v))) = unat len * esz"
    by blast
qed

lemma WriteFieldHeader_id_buffer:
  "\<not> m_name_based w \<Longrightarrow>
   m_buffer (WriteFieldHeader big tag t w) = m_buffer w @ [t] @ le_bytes (GetId tag)"
  by (simp add: WriteFieldHeader_def WriteData_def Let_def host_bytes_AdjustEndianess)

lemma WriteFieldHeader_name_buffer:
  "m_name_based w \<Longrightarrow>
   m_buffer (WriteFieldHeader big tag t w)
     = m_buffer w @ [t] @ [of_nat (length (GetName tag))] @ map of_char (GetName tag)"
  by (simp add: WriteFieldHeader_def WriteData_def Let_def)

lemma WriteFieldHeader_mode [simp]:
  "m_name_based (WriteFieldHeader big tag t w) = m_name_based w"
  by (simp add: WriteFieldHeader_def WriteData_def Let_def)

lemma Writer_new_mode [simp]: "m_name_based (Writer_new nb g) = nb"
  by (simp add: Writer_new_def ObjectWriter_new_eq SetBufferGrowSize_def Let_def)

text \<open>
  Claim C6 as stated fails where the size does not fit 32 bits: \<open>FieldArray\<close> narrows
  \<open>length * sizeof(Type)\<close> to \<open>FieldSize\<close>, so an array of \<open>2 ^ 29\<close> elements of 8 bytes
  is written with size 0.
\<close>

theorem size_prefix_counterexample:
  "size_prefix
     (m_buffer (FieldArrayUInt64 False \<lparr>GetId = 1, GetName = ''a''\<rparr> (replicate (2 ^ 32) 0) (2 ^ 29)
        (Writer_new False 0))) 7
   \<noteq> unat (2 ^ 29 :: 32 word) * 8"
proof -
  have z: "(of_nat (unat (2 ^ 29 :: 32 word) * 8) :: FieldSize) = 0"
    by simp
  have "m_buffer (FieldArrayUInt64 False \<lparr>GetId = 1, GetName = ''a''\<rparr> (replicate (2 ^ 32) 0) (2 ^ 29)
        (Writer_new False 0))
     = [0, 0, 0, 0, UInt64Array, 1, 0] @ le_bytes (0 :: FieldSize) @ []"
    unfolding FieldArrayUInt64_def FieldArray_buffer z
    by (simp add: WriteFieldHeader_id_buffer Writer_new_buffer AdjustArrayEndianess_def le_bytes_def upt_rec)
  then show ?thesis
    by (simp add: size_prefix_def le_bytes_0)
qed

lemma FieldInt8_id_buffer:
  "\<not> m_name_based w \<Longrightarrow> m_buffer (FieldInt8 big tag v w) = m_buffer w @ [Int8] @ le_bytes (GetId tag) @ [v]"
  by (simp add: FieldInt8_def WriteData_def WriteFieldHeader_id_buffer)

theorem size_prefix_law_witness:
  "size_prefix (m_buffer (fst (ObjectWriter_Finish False
       (FieldInt8 False tag_b 7 (fst (FieldObject False tag_a (Writer_new False 0))))
       (snd (FieldObject False tag_a (Writer_new False 0)))))) 7 = length [Int8, 2, 0, 7 :: byte] \<and>
   size_prefix (m_buffer (fst (ArrayWriter_Finish False
       (StringArrayWriter_AddElement False [0x61, 0x62] (fst (FieldStringArray False tag_a (Writer_new False 0))))
       (snd (FieldStringArray False tag_a (Writer_new False 0)))))) 7 = length [2, 0, 0x61, 0x62 :: byte] \<and>
   unat (2 :: 32 word) * 2 < (2 :: nat) ^ 32 \<and> unat (2 :: 32 word) * 2 \<le> length [1, 0, 2, 0 :: byte] \<and>
   size_prefix (m_buffer (FieldArray False 2 tag_a Int16Array [1, 0, 2, 0] 2 (Writer_new False 0))) 7
     = unat (2 :: 32 word) * 2"
proof -
  let ?wa = "WriteFieldHeader False tag_a Object (Writer_new False 0)"
  let ?wb = "?wa\<lparr>m_buffer := m_buffer ?wa @ [0, 0, 0, 0]\<rparr>"
  let ?ow = "\<lparr>m_obj_size_pos = length (m_buffer ?wa), m_is_finished = False\<rparr>"
  let ?aa = "WriteFieldHeader False tag_a StringArray (Writer_new False 0)"
  let ?ab = "?aa\<lparr>m_buffer := m_buffer ?aa @ [0, 0, 0, 0]\<rparr>"
  let ?aw = "\<lparr>m_array_size_pos = length (m_buffer ?aa), m_is_finished' = False\<rparr>"
  have la: "length (m_buffer ?wa) = 7" "length (m_buffer ?aa) = 7"
    "length (m_buffer (WriteFieldHeader False tag_a Int16Array (Writer_new False 0))) = 7"
    by (simp_all add: WriteFieldHeader_id_buffer Writer_new_buffer)
  have fo: "FieldObject False tag_a (Writer_new False 0) = (?wb, ?ow)"
    by (simp add: FieldObject_def ObjectWriter_new_eq)
  have fa: "FieldStringArray False tag_a (Writer_new False 0) = (?ab, ?aw)"
    by (simp add: FieldStringArray_def ArrayWriter_new_eq)
  have h1: "ObjectWriter_new ?wa = (?wb, ?ow)" by (simp add: ObjectWriter_new_eq)
  have h2: "m_buffer (FieldInt8 False tag_b 7 ?wb) = m_buffer ?wb @ [Int8, 2, 0, 7]"
    by (simp add: FieldInt8_id_buffer tag_b_def le_bytes_def upt_rec)
  have h3: "length [Int8, 2, 0, 7 :: byte] < 2 ^ 32" by simp
  have h4: "ArrayWriter_new ?aa = (?ab, ?aw)" by (simp add: ArrayWriter_new_eq)
  have h5: "m_buffer (StringArrayWriter_AddElement False [0x61, 0x62] ?ab) = m_buffer ?ab @ [2, 0, 0x61, 0x62]"
    by (simp add: StringArrayWriter_AddElement_def WriteString_def WriteData_def WriteData_bytes_def
        Let_def AdjustEndianess_def host_bytes_def le_bytes_def upt_rec)
  have h6: "length [2, 0, 0x61, 0x62 :: byte] < 2 ^ 32" by simp
  have h7: "unat (2 :: 32 word) * 2 < (2 :: nat) ^ 32" "unat (2 :: 32 word) * 2 \<le> length [1, 0, 2, 0 :: byte]"
    by simp_all
  note law = size_prefix_law [where wa = ?wa and wb = ?wb and ow = ?ow and big = False
      and w = "FieldInt8 False tag_b 7 ?wb" and body = "[Int8, 2, 0, 7]"
      and aa = ?aa and ab = ?ab and aw = ?aw
      and a = "StringArrayWriter_AddElement False [0x61, 0x62] ?ab" and elems = "[2, 0, 0x61, 0x62]"
      and len = 2 and esz = 2 and data = "[1, 0, 2, 0]" and tag = tag_a and t = Int16Array
      and v = "Writer_new False 0"]
  have c1: "size_prefix (m_buffer (fst (ObjectWriter_Finish False (FieldInt8 False tag_b 7 ?wb) ?ow)))
      (length (m_buffer ?wa)) = length [Int8, 2, 0, 7 :: byte]"
    using law h1 h2 h3 by blast
  have c2: "size_prefix (m_buffer (fst (ArrayWriter_Finish False
      (StringArrayWriter_AddElement False [0x61, 0x62] ?ab) ?aw))) (length (m_buffer ?aa))
      = length [2, 0, 0x61, 0x62 :: byte]"
    using law h4 h5 h6 by blast
  have c3: "size_prefix (m_buffer (FieldArray False 2 tag_a Int16Array [1, 0, 2, 0] 2 (Writer_new False 0)))
      (length (m_buffer (WriteFieldHeader False tag_a Int16Array (Writer_new False 0))))
      = unat (2 :: 32 word) * 2"
    using law h7 by blast
  show ?thesis
    unfolding fo fa fst_conv snd_conv
    using c1 c2 c3 h7 unfolding la by (intro conjI)
qed

text \<open>
  Claim C3 at the object scope. The handle of a nested object that is destroyed without
  \<open>Finish\<close> leaves its size slot at 0, although 4 bytes were written behind it; the array
  scopes are patched by their destructor (\<open>ArrayWriter_destroy_backpatches\<close>), and both
  \<open>Finish\<close> operations are idempotent.
\<close>

theorem object_scope_destroyed_without_Finish:
  "m_obj_size_pos (snd abandoned_object_scope) = 7 \<and>
   \<not> m_is_finished (snd abandoned_object_scope) \<and>
   length (m_buffer (fst abandoned_object_scope)) - m_obj_size_pos (snd abandoned_object_scope) - 4 = 4 \<and>
   size_prefix (m_buffer (fst abandoned_object_scope)) 7 = 0 \<and>
   abandoned_object_buffer = [11, 0, 0, 0, Object, 1, 0, 0, 0, 0, 0, Int8, 2, 0, 7]"
  by code_simp


section \<open>Fields through the encoder and the decoder\<close>

section \<open>What the encoder appends\<close>

lemma WriteFieldHeader_buffer:
  "m_buffer (WriteFieldHeader big tag t w) = m_buffer w @ t # tag_bytes (m_name_based w) tag"
  by (simp add: WriteFieldHeader_def WriteData_def Let_def host_bytes_AdjustEndianess tag_bytes_def)

lemma WriteFieldHeader_root [simp]:
  "m_root_object (WriteFieldHeader big tag t w) = m_root_object w"
  by (simp add: WriteFieldHeader_def WriteData_def Let_def)

lemma WriteData_fields [simp]:
  "m_root_object (WriteData big sw v w) = m_root_object w"
  "m_name_based (WriteData big sw v w) = m_name_based w"
  by (simp_all add: WriteData_def Let_def)

lemma WriteData_swapped_buffer:
  "LENGTH('a::len) = 16 \<or> LENGTH('a) = 32 \<or> LENGTH('a) = 64 \<Longrightarrow>
   m_buffer (WriteData big True (v :: 'a word) w) = m_buffer w @ le_bytes v"
  by (auto simp: WriteData_def Let_def host_bytes_AdjustEndianess)

lemma WriteData_unswapped_buffer:
  "LENGTH('a::len) = 16 \<or> LENGTH('a) = 32 \<or> LENGTH('a) = 64 \<Longrightarrow>
   m_buffer (WriteData big False (v :: 'a word) w) = m_buffer w @ host_bytes big v"
  by (auto simp: WriteData_def Let_def)

lemma WriteData_byte_buffer:
  "m_buffer (WriteData big sw (v :: byte) w) = m_buffer w @ [v]"
  by (simp add: WriteData_def)

lemma Writer_new_root [simp]:
  "m_root_object (Writer_new nb g) = \<lparr>m_obj_size_pos = 0, m_is_finished = False\<rparr>"
  by (simp add: Writer_new_def ObjectWriter_new_eq SetBufferGrowSize_def Let_def)

text \<open>Finishing a writer whose root scope is open and whose buffer is the slot and a body.\<close>

lemma Writer_Finish_buffer:
  assumes "m_root_object w = \<lparr>m_obj_size_pos = 0, m_is_finished = False\<rparr>"
    and "m_buffer w = [0, 0, 0, 0] @ body"
  shows "Data (Writer_Finish big w) = le_bytes (of_nat (length body) :: FieldSize) @ body"
proof -
  have "m_buffer w = [] @ [0, 0, 0, 0] @ body" using assms(2) by simp
  from WriteDataSizeField_buffer [OF this] show ?thesis
    by (simp add: Data_def Writer_Finish_def ObjectWriter_Finish_def assms(1))
qed

section \<open>One field under the decoder\<close>

lemma CanAccessBuffer_le: "CanAccessBuffer p e n \<longleftrightarrow> p + n \<le> e" if "p \<le> e"
  using that by (auto simp: CanAccessBuffer_def)

lemma ReadData_le:
  assumes "LENGTH('a::len) = 8 \<or> LENGTH('a) = 16 \<or> LENGTH('a) = 32 \<or> LENGTH('a) = 64"
    and "length bs * 8 = LENGTH('a)" and "length pre + length bs \<le> e"
  shows "(ReadData big True (pre @ bs @ post) (length pre) e :: ('a word \<times> nat) option)
           = Some (le_word bs, length pre + length bs)"
proof -
  have n: "LENGTH('a) div 8 = length bs" using assms(2) by auto
  have c: "CanAccessBuffer (length pre) e (length bs)"
    using assms(3) by (simp add: CanAccessBuffer_le)
  have "AdjustEndianess big (host_word big bs :: 'a word) = le_word bs"
  proof (cases "LENGTH('a) = 8")
    case True
    then have "length bs = 1" using assms(2) by simp
    then obtain b where "bs = [b]" by (cases bs) auto
    then show ?thesis using True by (simp add: AdjustEndianess_def host_word_def)
  next
    case False
    then show ?thesis using assms(1,2) by (intro AdjustEndianess_host_word) auto
  qed
  then show ?thesis using c by (simp add: ReadData_def Let_def n)
qed

lemma ReadData_value:
  assumes "LENGTH('a::len) = 8 \<or> LENGTH('a) = 16 \<or> LENGTH('a) = 32 \<or> LENGTH('a) = 64"
    and "length pre + LENGTH('a) div 8 \<le> e"
  shows "(ReadData big True (pre @ le_bytes (v :: 'a word) @ post) (length pre) e :: ('a word \<times> nat) option)
           = Some (v, length pre + LENGTH('a) div 8)"
proof -
  have d: "8 dvd LENGTH('a)" using assms(1) by auto
  then have "length (le_bytes v) * 8 = LENGTH('a)" by simp
  from ReadData_le [OF assms(1) this, of pre e big post] assms(2) d
  show ?thesis by (simp add: le_word_le_bytes)
qed

lemma le_bytes_byte: "le_bytes (v :: byte) = [v]"
  by (simp add: le_bytes_def)

lemma ReadData_byte:
  "length pre < e \<Longrightarrow>
   (ReadData big True (pre @ b # post) (length pre) e :: (byte \<times> nat) option) = Some (b, length pre + 1)"
  using ReadData_value [of pre e big b post] by (simp add: le_bytes_byte)

lemma length_tag_bytes:
  "length (tag_bytes nb tag) = (if nb then 1 + length (GetName tag) else 2)"
  by (simp add: tag_bytes_def)

lemma unat_name_length:
  "length (GetName tag) \<le> MAX_TAG_NAME_LENGTH \<Longrightarrow>
   unat (of_nat (length (GetName tag)) :: byte) = length (GetName tag)"
  by (simp add: MAX_TAG_NAME_LENGTH_def unat_of_nat)

lemma read_tag_name:
  assumes "length (GetName tag) \<le> MAX_TAG_NAME_LENGTH"
    and "length pre + 1 + length (GetName tag) \<le> e"
  shows "read_tag big True (pre @ tag_bytes True tag @ post) (length pre) e
           = Some (length pre + 1, of_nat (length (GetName tag)), length pre + 1 + length (GetName tag))"
proof -
  have l: "length pre < e" using assms(2) by simp
  have u: "unat (of_nat (length (GetName tag)) :: byte) = length (GetName tag)"
    by (rule unat_name_length [OF assms(1)])
  have c: "CanAccessBuffer (length pre + 1) e (length (GetName tag))"
    using assms(2) by (simp add: CanAccessBuffer_le)
  show ?thesis
    using ReadData_byte [OF l, of big "of_nat (length (GetName tag))" "map of_char (GetName tag) @ post"] c
    by (simp add: read_tag_def tag_bytes_def u)
qed

lemma read_tag_id:
  assumes "length pre + 2 \<le> e"
  shows "read_tag big False (pre @ tag_bytes False tag @ post) (length pre) e
           = Some (length pre, 0, length pre + 2)"
  using assms by (simp add: read_tag_def CanAccessBuffer_le)

lemma name_key_at:
  assumes "length (GetName tag) \<le> MAX_TAG_NAME_LENGTH"
  shows "take (unat (of_nat (length (GetName tag)) :: byte))
           (drop (length pre + 1) (pre @ tag_bytes True tag @ post)) = map of_char (GetName tag)"
  by (simp add: unat_name_length [OF assms] tag_bytes_def)

lemma id_key_at:
  "take 2 (drop (length pre) (pre @ tag_bytes False tag @ post)) = le_bytes (GetId tag)"
  by (simp add: tag_bytes_def)

subsection \<open>The entry of a primitive field\<close>

lemmas DataType_defs =
  Raw_def Array_def Vector2_def Vector3_def Vector4_def
  Int8_def Int16_def Int32_def Int64_def UInt8_def UInt16_def UInt32_def UInt64_def
  Boolean_def Float16_def Float32_def Float64_def UUID_def String_def Binary_def Object_def
  Int8Array_def Int16Array_def Int32Array_def Int64Array_def UInt8Array_def UInt16Array_def
  UInt32Array_def UInt64Array_def BooleanArray_def Float16Array_def Float32Array_def
  Float64Array_def UUIDArray_def StringArray_def BinaryArray_def ObjectArray_def Invalid_def
  Vector2f32_def Vector3f32_def Vector3i32_def

lemmas classify_defs =
  IsArrayType_def IsVectorType_def IsPrimitiveType_def IsValidDataType_def IsPrimitive_def
  TypeClassification_def BaseDataType_def CLASSIFICATION_MASK_def BASE_TYPE_MASK_def

lemma read_entry_8:
  assumes "t = Int8 \<or> t = UInt8 \<or> t = Boolean" and "length pre < e"
  shows "read_entry big t (pre @ v # post) (length pre) e
           = (False, length pre + 1, pre @ v # post, \<lparr>entry_type = t, entry_value = v_int8 v\<rparr>)"
  using assms(1) ReadData_byte [OF assms(2), of big v post]
  by (auto simp: read_entry_def classify_defs DataType_defs Let_def)

lemma read_entry_16:
  assumes "t = Int16 \<or> t = UInt16 \<or> t = Float16" and "length pre + 2 \<le> e"
  shows "read_entry big t (pre @ le_bytes (v :: 16 word) @ post) (length pre) e
           = (False, length pre + 2, pre @ le_bytes v @ post, \<lparr>entry_type = t, entry_value = v_int16 v\<rparr>)"
  using assms(1) ReadData_value [of pre e big v post] assms(2)
  by (auto simp: read_entry_def classify_defs DataType_defs Let_def)

lemma read_entry_32:
  assumes "t = Int32 \<or> t = UInt32 \<or> t = Float32" and "length pre + 4 \<le> e"
  shows "read_entry big t (pre @ le_bytes (v :: 32 word) @ post) (length pre) e
           = (False, length pre + 4, pre @ le_bytes v @ post, \<lparr>entry_type = t, entry_value = v_int32 v\<rparr>)"
  using assms(1) ReadData_value [of pre e big v post] assms(2)
  by (auto simp: read_entry_def classify_defs DataType_defs Let_def)

lemma read_entry_64:
  assumes "t = Int64 \<or> t = UInt64 \<or> t = Float64" and "length pre + 8 \<le> e"
  shows "read_entry big t (pre @ le_bytes (v :: 64 word) @ post) (length pre) e
           = (False, length pre + 8, pre @ le_bytes v @ post, \<lparr>entry_type = t, entry_value = v_int64 v\<rparr>)"
  using assms(1) ReadData_value [of pre e big v post] assms(2)
  by (auto simp: read_entry_def classify_defs DataType_defs Let_def)

subsection \<open>One iteration over a field whose payload leaves the memory as it is\<close>

lemma CreateCache_body_field:
  assumes "IsValidDataType t" and "tag_ok nb tag"
    and "length pre + 1 + length (tag_bytes nb tag) + n \<le> e"
    and "\<And>pre'. length pre' = length pre + 1 + length (tag_bytes nb tag) \<Longrightarrow>
           pre' @ rest = pre @ t # tag_bytes nb tag @ rest \<Longrightarrow>
           read_entry big t (pre' @ rest) (length pre') e = (False, length pre' + n, pre' @ rest, entry)"
  shows "CreateCache_body big nb (pre @ t # tag_bytes nb tag @ rest) (length pre) e
           = (False, length pre + 1 + length (tag_bytes nb tag) + n, pre @ t # tag_bytes nb tag @ rest,
              (if nb then length pre + 2 else length pre + 1),
              (if nb then of_nat (length (GetName tag)) else 0), entry)"
proof -
  let ?mem = "pre @ t # tag_bytes nb tag @ rest"
  let ?pre1 = "pre @ [t]"
  let ?pre2 = "pre @ t # tag_bytes nb tag"
  have l: "length pre < e" using assms(3) by simp
  have rd: "(ReadData big True ?mem (length pre) e :: (byte \<times> nat) option) = Some (t, length pre + 1)"
    by (rule ReadData_byte [OF l])
  have m1: "?mem = ?pre1 @ tag_bytes nb tag @ rest" by simp
  have rt: "read_tag big nb ?mem (length pre + 1) e
      = Some ((if nb then length pre + 2 else length pre + 1),
              (if nb then of_nat (length (GetName tag)) else 0),
              length pre + 1 + length (tag_bytes nb tag))"
  proof (cases nb)
    case True
    with assms(2) have ok: "length (GetName tag) \<le> MAX_TAG_NAME_LENGTH" by (simp add: tag_ok_def)
    have "length ?pre1 + 1 + length (GetName tag) \<le> e"
      using assms(3) True by (simp add: length_tag_bytes)
    from read_tag_name [OF ok this, of big rest] True show ?thesis
      by (simp add: length_tag_bytes)
  next
    case False
    have "length ?pre1 + 2 \<le> e" using assms(3) False by (simp add: length_tag_bytes)
    from read_tag_id [OF this, of big tag rest] False show ?thesis
      by (simp add: length_tag_bytes)
  qed
  have re: "read_entry big t ?mem (length pre + 1 + length (tag_bytes nb tag)) e
      = (False, length pre + 1 + length (tag_bytes nb tag) + n, ?mem, entry)"
    using assms(4) [of ?pre2] by simp
  have le: "\<not> e < length pre + 1 + length (tag_bytes nb tag) + n" using assms(3) by simp
  show ?thesis
    unfolding CreateCache_body_def rd Let_def option.case prod.case
    by (simp only: assms(1) not_True_eq_False if_False rt option.case prod.case re le simp_thms)
qed

lemma CreateCache_loop_field:
  assumes "IsValidDataType t" and "tag_ok nb tag"
    and "length pre + 1 + length (tag_bytes nb tag) + n \<le> e"
    and "\<And>pre'. length pre' = length pre + 1 + length (tag_bytes nb tag) \<Longrightarrow>
           pre' @ rest = pre @ t # tag_bytes nb tag @ rest \<Longrightarrow>
           read_entry big t (pre' @ rest) (length pre') e = (False, length pre' + n, pre' @ rest, entry)"
  shows "CreateCache_loop big nb e (length pre) (pre @ t # tag_bytes nb tag @ rest) nc ic
           = CreateCache_loop big nb e (length pre + 1 + length (tag_bytes nb tag) + n)
               (pre @ t # tag_bytes nb tag @ rest)
               (fst (file_entry big nb tag entry (nc, ic))) (snd (file_entry big nb tag entry (nc, ic)))"
proof -
  let ?mem = "pre @ t # tag_bytes nb tag @ rest"
  have l: "length pre < e" using assms(3) by simp
  note b = CreateCache_body_field [OF assms]
  have kn: "nb \<Longrightarrow> take (unat (of_nat (length (GetName tag)) :: byte)) (drop (length pre + 2) ?mem)
      = map of_char (GetName tag)"
    using assms(2) name_key_at [of tag "pre @ [t]" rest]
    by (simp add: tag_ok_def)
  have ki: "\<not> nb \<Longrightarrow> take 2 (drop (length pre + 1) ?mem) = le_bytes (GetId tag)"
    using id_key_at [of "pre @ [t]" tag rest] by simp
  show ?thesis
  proof (cases nb)
    case True
    with kn have k: "take (unat (of_nat (length (GetName tag)) :: byte))
        (drop (length pre + 2) (pre @ t # tag_bytes True tag @ rest))
      = map of_char (GetName tag)" by simp
    show ?thesis
      apply (subst CreateCache_loop.simps)
      apply (simp only: l if_True b prod.case if_False)
      apply (simp only: True if_True k file_entry_def fst_conv snd_conv)
      done
  next
    case False
    with ki have k: "take 2 (drop (length pre + 1) (pre @ t # tag_bytes False tag @ rest))
      = le_bytes (GetId tag)" by simp
    show ?thesis
      apply (subst CreateCache_loop.simps)
      apply (simp only: l if_True b prod.case if_False)
      apply (simp only: False if_False k file_entry_def fst_conv snd_conv)
      done
  qed
qed

lemma CreateCache_loop_end:
  "CreateCache_loop big nb e e mem nc ic = (False, e, mem, nc, ic)"
  by (subst CreateCache_loop.simps) simp

lemma emplace_empty [simp]: "emplace Map.empty k v k = Some v"
  by (simp add: emplace_def)

lemma host_word_le: "8 dvd LENGTH('a::len) \<Longrightarrow> (host_word False (le_bytes v) :: 'a word) = v"
  by (simp add: host_word_def le_word_le_bytes)

lemma ReadPrimitive_found:
  assumes "fst (FindTag big mem r tag) = Some e" "entry_type e = t"
  shows "fst (ReadPrimitive t big mem r tag) = Some (as_word (entry_value e))"
proof -
  obtain mem' r' where "FindTag big mem r tag = (Some e, mem', r')"
    using assms(1) by (cases "FindTag big mem r tag") auto
  then show ?thesis using assms(2) by (simp add: ReadPrimitive_def)
qed

lemma Field_root [simp]:
  "m_root_object (FieldInt8 big tag a w) = m_root_object w"
  "m_root_object (FieldInt16 big tag b w) = m_root_object w"
  "m_root_object (FieldInt32 big tag c w) = m_root_object w"
  "m_root_object (FieldInt64 big tag d w) = m_root_object w"
  "m_root_object (FieldUInt8 big tag a w) = m_root_object w"
  "m_root_object (FieldUInt16 big tag b w) = m_root_object w"
  "m_root_object (FieldUInt32 big tag c w) = m_root_object w"
  "m_root_object (FieldUInt64 big tag d w) = m_root_object w"
  "m_root_object (FieldBoolean big tag x w) = m_root_object w"
  "m_root_object (FieldFloat16 big tag b w) = m_root_object w"
  "m_root_object (FieldFloat32 big tag c w) = m_root_object w"
  "m_root_object (FieldFloat64 big tag d w) = m_root_object w"
  by (simp_all add: FieldInt8_def FieldInt16_def FieldInt32_def FieldInt64_def FieldUInt8_def
      FieldUInt16_def FieldUInt32_def FieldUInt64_def FieldBoolean_def FieldFloat16_def
      FieldFloat32_def FieldFloat64_def)

lemma Field_buffer_8:
  "m_buffer (FieldInt8 big tag v w) = m_buffer w @ Int8 # tag_bytes (m_name_based w) tag @ [v]"
  "m_buffer (FieldUInt8 big tag v w) = m_buffer w @ UInt8 # tag_bytes (m_name_based w) tag @ [v]"
  "m_buffer (FieldBoolean big tag x w)
     = m_buffer w @ Boolean # tag_bytes (m_name_based w) tag @ [if x then 1 else 0]"
  by (simp_all add: FieldInt8_def FieldUInt8_def FieldBoolean_def WriteData_byte_buffer
      WriteFieldHeader_buffer)

lemma Field_buffer_swapped:
  "m_buffer (FieldInt16 big tag b w) = m_buffer w @ Int16 # tag_bytes (m_name_based w) tag @ le_bytes b"
  "m_buffer (FieldInt32 big tag c w) = m_buffer w @ Int32 # tag_bytes (m_name_based w) tag @ le_bytes c"
  "m_buffer (FieldInt64 big tag d w) = m_buffer w @ Int64 # tag_bytes (m_name_based w) tag @ le_bytes d"
  "m_buffer (FieldUInt16 big tag b w) = m_buffer w @ UInt16 # tag_bytes (m_name_based w) tag @ le_bytes b"
  "m_buffer (FieldUInt32 big tag c w) = m_buffer w @ UInt32 # tag_bytes (m_name_based w) tag @ le_bytes c"
  "m_buffer (FieldUInt64 big tag d w) = m_buffer w @ UInt64 # tag_bytes (m_name_based w) tag @ le_bytes d"
  by (simp_all add: FieldInt16_def FieldInt32_def FieldInt64_def FieldUInt16_def FieldUInt32_def
      FieldUInt64_def WriteData_swapped_buffer WriteFieldHeader_buffer)

text \<open>The floating-point fields are written in the byte order of the host.\<close>

lemma Field_buffer_float:
  "m_buffer (FieldFloat16 big tag b w) = m_buffer w @ Float16 # tag_bytes (m_name_based w) tag @ host_bytes big b"
  "m_buffer (FieldFloat32 big tag c w) = m_buffer w @ Float32 # tag_bytes (m_name_based w) tag @ host_bytes big c"
  "m_buffer (FieldFloat64 big tag d w) = m_buffer w @ Float64 # tag_bytes (m_name_based w) tag @ host_bytes big d"
  by (simp_all add: FieldFloat16_def FieldFloat32_def FieldFloat64_def WriteData_unswapped_buffer
      WriteFieldHeader_buffer)

lemma valid_primitive_types:
  "IsValidDataType Int8" "IsValidDataType Int16" "IsValidDataType Int32" "IsValidDataType Int64"
  "IsValidDataType UInt8" "IsValidDataType UInt16" "IsValidDataType UInt32" "IsValidDataType UInt64"
  "IsValidDataType Boolean" "IsValidDataType Float16" "IsValidDataType Float32" "IsValidDataType Float64"
  by (simp_all add: classify_defs DataType_defs)

lemma as_word_same [simp]:
  "as_word (v_int8 a) = a" "as_word (v_int16 b) = b" "as_word (v_int32 c) = c" "as_word (v_int64 d) = d"
  by (simp_all add: as_word_def)

lemma fst_ReadBoolean:
  "fst (ReadBoolean big mem r tag)
     = map_option (\<lambda>b. b \<noteq> 0) (fst (ReadPrimitive Boolean big mem r tag :: byte option \<times> _))"
  by (simp add: ReadBoolean_def split: prod.splits)

lemma host_bytes_False: "host_bytes False v = le_bytes v"
  by (simp add: host_bytes_def)

section \<open>Objects of primitive fields\<close>

lemma Field_buffer:
  "m_buffer (Field False f w) = m_buffer w @ field_bytes (m_name_based w) f"
  by (cases f, cases "snd f")
    (simp_all add: field_bytes_def Field_buffer_8 Field_buffer_swapped Field_buffer_float host_bytes_False)

lemma Field_fields [simp]:
  "m_root_object (Field big f w) = m_root_object w"
  "m_name_based (Field big f w) = m_name_based w"
  by (cases f, cases "snd f";
      simp add: FieldInt8_def FieldInt16_def FieldInt32_def FieldInt64_def FieldUInt8_def
      FieldUInt16_def FieldUInt32_def FieldUInt64_def FieldBoolean_def FieldFloat16_def
      FieldFloat32_def FieldFloat64_def)+

lemma fold_Field_fields [simp]:
  "m_root_object (fold (Field big) fs w) = m_root_object w"
  "m_name_based (fold (Field big) fs w) = m_name_based w"
  by (induction fs arbitrary: w) simp_all

lemma fold_Field_buffer:
  "m_buffer (fold (Field False) fs w) = m_buffer w @ concat (map (field_bytes (m_name_based w)) fs)"
  by (induction fs arbitrary: w) (simp_all add: Field_buffer)

lemma write_fields_buffer:
  "Data (write_fields nb g fs)
     = le_bytes (of_nat (length (concat (map (field_bytes nb) fs))) :: FieldSize)
       @ concat (map (field_bytes nb) fs)"
proof -
  have "m_buffer (fold (Field False) fs (Writer_new nb g))
      = [0, 0, 0, 0] @ concat (map (field_bytes nb) fs)"
    by (simp add: fold_Field_buffer Writer_new_buffer)
  from Writer_Finish_buffer [OF _ this, of False] show ?thesis
    by (simp add: write_fields_def)
qed

lemma write_fields_mode [simp]: "m_name_based (write_fields nb g fs) = nb"
  by (simp add: write_fields_def Writer_Finish_def ObjectWriter_Finish_def WriteDataSizeField_def Let_def)

lemma prim_valid: "IsValidDataType (entry_type (prim_entry v))"
  by (cases v) (simp_all add: valid_primitive_types)

lemma prim_read_entry:
  assumes "length pre + length (prim_payload v) \<le> e"
  shows "read_entry False (entry_type (prim_entry v)) (pre @ prim_payload v @ post) (length pre) e
           = (False, length pre + length (prim_payload v), pre @ prim_payload v @ post, prim_entry v)"
proof (cases v)
  case (Int8Value x) then show ?thesis using read_entry_8 [of Int8 pre e False x post] assms by simp
next
  case (UInt8Value x) then show ?thesis using read_entry_8 [of UInt8 pre e False x post] assms by simp
next
  case (BooleanValue x) then show ?thesis
    using read_entry_8 [of Boolean pre e False "if x then 1 else 0" post] assms by simp
next
  case (Int16Value x) then show ?thesis using read_entry_16 [of Int16 pre e False x post] assms by simp
next
  case (UInt16Value x) then show ?thesis using read_entry_16 [of UInt16 pre e False x post] assms by simp
next
  case (Float16Value x) then show ?thesis using read_entry_16 [of Float16 pre e False x post] assms by simp
next
  case (Int32Value x) then show ?thesis using read_entry_32 [of Int32 pre e False x post] assms by simp
next
  case (UInt32Value x) then show ?thesis using read_entry_32 [of UInt32 pre e False x post] assms by simp
next
  case (Float32Value x) then show ?thesis using read_entry_32 [of Float32 pre e False x post] assms by simp
next
  case (Int64Value x) then show ?thesis using read_entry_64 [of Int64 pre e False x post] assms by simp
next
  case (UInt64Value x) then show ?thesis using read_entry_64 [of UInt64 pre e False x post] assms by simp
next
  case (Float64Value x) then show ?thesis using read_entry_64 [of Float64 pre e False x post] assms by simp
qed

lemma length_field_bytes:
  "length (field_bytes nb f) = 1 + length (tag_bytes nb (fst f)) + length (prim_payload (snd f))"
  by (simp add: field_bytes_def)

text \<open>The loop over the fields of an object, on a little-endian host.\<close>

lemma CreateCache_loop_fields:
  assumes "\<forall>f \<in> set fs. tag_ok nb (fst f)"
    and "length pre + length (concat (map (field_bytes nb) fs)) \<le> e"
  shows "CreateCache_loop False nb e (length pre) (pre @ concat (map (field_bytes nb) fs) @ post) nc ic
           = CreateCache_loop False nb e (length pre + length (concat (map (field_bytes nb) fs)))
               (pre @ concat (map (field_bytes nb) fs) @ post)
               (fst (fold (\<lambda>f. file_entry False nb (fst f) (prim_entry (snd f))) fs (nc, ic)))
               (snd (fold (\<lambda>f. file_entry False nb (fst f) (prim_entry (snd f))) fs (nc, ic)))"
  using assms
proof (induction fs arbitrary: pre nc ic)
  case Nil
  show ?case by simp
next
  case (Cons f fs)
  let ?t = "entry_type (prim_entry (snd f))"
  let ?tb = "tag_bytes nb (fst f)"
  let ?pl = "prim_payload (snd f)"
  let ?rest = "?pl @ concat (map (field_bytes nb) fs) @ post"
  let ?pre2 = "pre @ field_bytes nb f"
  have mem: "pre @ concat (map (field_bytes nb) (f # fs)) @ post = pre @ ?t # ?tb @ ?rest"
    by (simp add: field_bytes_def)
  have mem2: "pre @ concat (map (field_bytes nb) (f # fs)) @ post
      = ?pre2 @ concat (map (field_bytes nb) fs) @ post"
    by simp
  have ok: "tag_ok nb (fst f)" using Cons.prems(1) by simp
  have b1: "length pre + 1 + length ?tb + length ?pl \<le> e"
    using Cons.prems(2) by (simp add: length_field_bytes)
  have step: "CreateCache_loop False nb e (length pre) (pre @ ?t # ?tb @ ?rest) nc ic
      = CreateCache_loop False nb e (length pre + 1 + length ?tb + length ?pl) (pre @ ?t # ?tb @ ?rest)
          (fst (file_entry False nb (fst f) (prim_entry (snd f)) (nc, ic)))
          (snd (file_entry False nb (fst f) (prim_entry (snd f)) (nc, ic)))"
  proof (rule CreateCache_loop_field [OF prim_valid ok b1])
    fix pre' :: "byte list"
    assume l: "length pre' = length pre + 1 + length ?tb"
    have "length pre' + length ?pl \<le> e" using b1 l by simp
    from prim_read_entry [OF this, of "concat (map (field_bytes nb) fs) @ post"]
    show "read_entry False ?t (pre' @ ?rest) (length pre') e
        = (False, length pre' + length ?pl, pre' @ ?rest, prim_entry (snd f))"
      by simp
  qed
  have l2: "length ?pre2 = length pre + 1 + length ?tb + length ?pl"
    by (simp add: length_field_bytes)
  have ih: "CreateCache_loop False nb e (length ?pre2) (?pre2 @ concat (map (field_bytes nb) fs) @ post)
        (fst (file_entry False nb (fst f) (prim_entry (snd f)) (nc, ic)))
        (snd (file_entry False nb (fst f) (prim_entry (snd f)) (nc, ic)))
      = CreateCache_loop False nb e (length ?pre2 + length (concat (map (field_bytes nb) fs)))
          (?pre2 @ concat (map (field_bytes nb) fs) @ post)
          (fst (fold (\<lambda>f. file_entry False nb (fst f) (prim_entry (snd f))) fs
                  (file_entry False nb (fst f) (prim_entry (snd f)) (nc, ic))))
          (snd (fold (\<lambda>f. file_entry False nb (fst f) (prim_entry (snd f))) fs
                  (file_entry False nb (fst f) (prim_entry (snd f)) (nc, ic))))"
    using Cons.IH [of ?pre2 "fst (file_entry False nb (fst f) (prim_entry (snd f)) (nc, ic))"
        "snd (file_entry False nb (fst f) (prim_entry (snd f)) (nc, ic))"] Cons.prems
    by simp
  have "CreateCache_loop False nb e (length pre) (pre @ concat (map (field_bytes nb) (f # fs)) @ post) nc ic
      = CreateCache_loop False nb e (length ?pre2) (?pre2 @ concat (map (field_bytes nb) fs) @ post)
        (fst (file_entry False nb (fst f) (prim_entry (snd f)) (nc, ic)))
        (snd (file_entry False nb (fst f) (prim_entry (snd f)) (nc, ic)))"
    using step by (simp only: mem mem2 [symmetric] l2)
  also note ih
  finally show ?case by (simp add: add.assoc)
qed

lemma of_char_byte_inj: "(of_char c :: byte) = of_char d \<Longrightarrow> c = d"
proof -
  assume a: "(of_char c :: byte) = of_char d"
  have u: "unat (of_char x :: byte) = of_char x" for x
  proof -
    have "(of_char x :: byte) = of_nat (of_char x)" by (simp add: of_nat_of_char)
    moreover have "(of_char x :: nat) < 256" by simp
    ultimately show ?thesis by (simp only: unat_of_nat_byte)
  qed
  from a have "unat (of_char c :: byte) = unat (of_char d :: byte)" by simp
  then show ?thesis by (simp add: u)
qed

lemma name_key_eq_iff:
  "(map of_char a :: byte list) = map of_char b \<longleftrightarrow> a = b"
proof
  assume "(map of_char a :: byte list) = map of_char b"
  then show "a = b"
  proof (induction a arbitrary: b)
    case Nil then show ?case by simp
  next
    case (Cons x xs)
    then obtain y ys where b: "b = y # ys" by (cases b) auto
    with Cons.prems have "(of_char x :: byte) = of_char y" "(map of_char xs :: byte list) = map of_char ys"
      by simp_all
    with Cons.IH b show ?case by (auto dest: of_char_byte_inj)
  qed
qed simp

lemma emplace_apply:
  "emplace m k v k' = (case m k' of Some e \<Rightarrow> Some e | None \<Rightarrow> if k' = k then Some v else None)"
  by (auto simp: emplace_def split: option.splits)

text \<open>What a lookup finds in the maps after the loop has filed a list of fields: an entry
  that was there before, or else the entry of the first field with the tag.\<close>

lemma lookup_filed_name:
  "fst (fold (\<lambda>f. file_entry big True (fst f) (prim_entry (snd f))) fs (nc, ic)) (map of_char (GetName tag))
     = (case nc (map of_char (GetName tag)) of
          Some e \<Rightarrow> Some e
        | None \<Rightarrow> map_option (prim_entry \<circ> snd) (find (\<lambda>f. same_tag True (fst f) tag) fs))"
proof (induction fs arbitrary: nc ic)
  case Nil
  show ?case by (simp split: option.splits)
next
  case (Cons f fs)
  have h: "file_entry big True (fst f) (prim_entry (snd f)) (nc, ic)
      = (emplace nc (map of_char (GetName (fst f))) (prim_entry (snd f)), ic)"
    by (simp add: file_entry_def)
  have "fst (fold (\<lambda>f. file_entry big True (fst f) (prim_entry (snd f))) (f # fs) (nc, ic))
          (map of_char (GetName tag))
      = (case emplace nc (map of_char (GetName (fst f))) (prim_entry (snd f)) (map of_char (GetName tag)) of
          Some e \<Rightarrow> Some e
        | None \<Rightarrow> map_option (prim_entry \<circ> snd) (find (\<lambda>f. same_tag True (fst f) tag) fs))"
    by (simp only: fold_simps h Cons.IH)
  also have "\<dots> = (case nc (map of_char (GetName tag)) of
          Some e \<Rightarrow> Some e
        | None \<Rightarrow> map_option (prim_entry \<circ> snd) (find (\<lambda>f. same_tag True (fst f) tag) (f # fs)))"
    by (auto simp: emplace_apply same_tag_def name_key_eq_iff split: option.splits)
  finally show ?case .
qed

lemma lookup_filed_id:
  "snd (fold (\<lambda>f. file_entry False False (fst f) (prim_entry (snd f))) fs (nc, ic)) (GetId tag)
     = (case ic (GetId tag) of
          Some e \<Rightarrow> Some e
        | None \<Rightarrow> map_option (prim_entry \<circ> snd) (find (\<lambda>f. same_tag False (fst f) tag) fs))"
proof (induction fs arbitrary: nc ic)
  case Nil
  show ?case by (simp split: option.splits)
next
  case (Cons f fs)
  have h: "file_entry False False (fst f) (prim_entry (snd f)) (nc, ic)
      = (nc, emplace ic (GetId (fst f)) (prim_entry (snd f)))"
    by (simp add: file_entry_def host_word_le)
  have "snd (fold (\<lambda>f. file_entry False False (fst f) (prim_entry (snd f))) (f # fs) (nc, ic)) (GetId tag)
      = (case emplace ic (GetId (fst f)) (prim_entry (snd f)) (GetId tag) of
          Some e \<Rightarrow> Some e
        | None \<Rightarrow> map_option (prim_entry \<circ> snd) (find (\<lambda>f. same_tag False (fst f) tag) fs))"
    by (simp only: fold_simps h Cons.IH)
  also have "\<dots> = (case ic (GetId tag) of
          Some e \<Rightarrow> Some e
        | None \<Rightarrow> map_option (prim_entry \<circ> snd) (find (\<lambda>f. same_tag False (fst f) tag) (f # fs)))"
    by (auto simp: emplace_apply same_tag_def split: option.splits)
  finally show ?case .
qed

text \<open>A reader of a little-endian host over a buffer that is a size prefix and a body of
  that size, given what the loop computes on the body.\<close>

lemma root_reader_lookup:
  fixes body :: "byte list" and nb :: bool
  defines "buf \<equiv> le_bytes (of_nat (length body) :: FieldSize) @ body"
  assumes "0 < length body" and "length body < 2 ^ 32"
    and "CreateCache_loop False nb (4 + length body) 4 buf Map.empty Map.empty
           = (False, 4 + length body, buf, nc, ic)"
  shows "FindTag False buf (ObjectReader_new False buf (Some 0) (length buf) nb) tag
           = ((if nb then nc (map of_char (GetName tag)) else ic (GetId tag)), buf,
              \<lparr>m_buffer' = Some 4, m_size = of_nat (length body), m_name_based' = nb,
                m_cache_built = True, m_is_valid = True, m_id_cache = ic, m_name_cache = nc\<rparr>)"
    and "fst (IsValid False buf (ObjectReader_new False buf (Some 0) (length buf) nb))"
proof -
  let ?fresh = "\<lparr>m_buffer' = Some 4, m_size = of_nat (length body), m_name_based' = nb,
                 m_cache_built = False, m_is_valid = False, m_id_cache = Map.empty,
                 m_name_cache = Map.empty\<rparr>"
  have u: "unat (of_nat (length body) :: FieldSize) = length body"
    using assms(3) by (simp add: unat_FieldSize_of_nat)
  have sz: "(host_word False (take 4 buf) :: FieldSize) = of_nat (length body)"
    by (simp add: buf_def host_word_le)
  have lb: "length buf = 4 + length body" by (simp add: buf_def)
  have r: "ObjectReader_new False buf (Some 0) (length buf) nb = ?fresh"
    by (simp add: ObjectReader_new_def ObjectReader_at_def Let_def sz u lb)
  have nz: "(of_nat (length body) :: FieldSize) \<noteq> 0" using u assms(2) by auto
  have clr: "(if nb then ?fresh\<lparr>m_name_cache := Map.empty\<rparr> else ?fresh\<lparr>m_id_cache := Map.empty\<rparr>) = ?fresh"
    by simp
  have cc: "CreateCache False buf ?fresh
      = (buf, ?fresh\<lparr>m_name_cache := nc, m_id_cache := ic, m_cache_built := True, m_is_valid := True\<rparr>)"
    using nz by (simp add: CreateCache_def Let_def clr u assms(4) split del: if_split)
  show "FindTag False buf (ObjectReader_new False buf (Some 0) (length buf) nb) tag
           = ((if nb then nc (map of_char (GetName tag)) else ic (GetId tag)), buf,
              \<lparr>m_buffer' = Some 4, m_size = of_nat (length body), m_name_based' = nb,
                m_cache_built = True, m_is_valid = True, m_id_cache = ic, m_name_cache = nc\<rparr>)"
    unfolding r by (simp add: FindTag_def IsValid_def cc)
  show "fst (IsValid False buf (ObjectReader_new False buf (Some 0) (length buf) nb))"
    unfolding r by (simp add: IsValid_def cc)
qed

lemma fields_lookup:
  assumes "fs \<noteq> []" and "\<forall>f \<in> set fs. tag_ok nb (fst f)"
    and "length (concat (map (field_bytes nb) fs)) < 2 ^ 32"
  shows "fst (FindTag False (Data (write_fields nb g fs)) (reader_of (write_fields nb g fs)) tag)
           = map_option (prim_entry \<circ> snd) (find (\<lambda>f. same_tag nb (fst f) tag) fs)"
    and "fst (IsValid False (Data (write_fields nb g fs)) (reader_of (write_fields nb g fs)))"
proof -
  let ?body = "concat (map (field_bytes nb) fs)"
  let ?buf = "le_bytes (of_nat (length ?body) :: FieldSize) @ ?body"
  let ?C = "fold (\<lambda>f. file_entry False nb (fst f) (prim_entry (snd f))) fs (Map.empty, Map.empty)"
  have d: "Data (write_fields nb g fs) = ?buf" by (rule write_fields_buffer)
  have rd: "reader_of (write_fields nb g fs) = ObjectReader_new False ?buf (Some 0) (length ?buf) nb"
    by (simp add: reader_of_def d Size_def Data_def [symmetric])
  have pos: "0 < length ?body"
    using assms(1) by (cases fs) (simp_all add: length_field_bytes)
  have "CreateCache_loop False nb (4 + length ?body) (length (le_bytes (of_nat (length ?body) :: FieldSize)))
          (le_bytes (of_nat (length ?body) :: FieldSize) @ ?body @ []) Map.empty Map.empty
      = CreateCache_loop False nb (4 + length ?body)
          (length (le_bytes (of_nat (length ?body) :: FieldSize)) + length ?body)
          (le_bytes (of_nat (length ?body) :: FieldSize) @ ?body @ []) (fst ?C) (snd ?C)"
    by (rule CreateCache_loop_fields [OF assms(2)]) simp
  then have loop: "CreateCache_loop False nb (4 + length ?body) 4 ?buf Map.empty Map.empty
      = (False, 4 + length ?body, ?buf, fst ?C, snd ?C)"
    by (simp add: CreateCache_loop_end)
  note f = root_reader_lookup(1) [OF pos assms(3) loop]
  show "fst (FindTag False (Data (write_fields nb g fs)) (reader_of (write_fields nb g fs)) tag)
           = map_option (prim_entry \<circ> snd) (find (\<lambda>f. same_tag nb (fst f) tag) fs)"
    unfolding d rd f fst_conv
    by (cases nb) (simp_all add: lookup_filed_name lookup_filed_id)
  show "fst (IsValid False (Data (write_fields nb g fs)) (reader_of (write_fields nb g fs)))"
    unfolding d rd by (rule root_reader_lookup(2) [OF pos assms(3) loop])
qed

lemma length_prim_payload: "length (prim_payload v) \<le> 8"
  by (cases v) (simp_all add: length_le_bytes)

lemma write_then_read_fields:
  "write_then_read (Field False (tag, v)) read nb g tag
     = fst (read False (Data (write_fields nb g [(tag, v)])) (reader_of (write_fields nb g [(tag, v)])) tag)"
proof -
  have w: "write_fields nb g [(tag, v)] = Writer_Finish False (Field False (tag, v) (Writer_new nb g))"
    by (simp add: write_fields_def del: Field.simps)
  have m: "m_name_based (Writer_Finish False (Field False (tag, v) (Writer_new nb g))) = nb"
    using write_fields_mode [of nb g "[(tag, v)]"] unfolding w .
  show ?thesis
    unfolding w write_then_read_def reader_of_def Let_def m ..
qed

lemma single_field_entry:
  assumes "tag_ok nb tag"
  shows "fst (FindTag False (Data (write_fields nb g [(tag, v)])) (reader_of (write_fields nb g [(tag, v)])) tag)
           = Some (prim_entry v)"
proof -
  have "length (tag_bytes nb tag) \<le> 256"
    using assms by (simp add: length_tag_bytes tag_ok_def MAX_TAG_NAME_LENGTH_def)
  moreover have "length (prim_payload v) \<le> 8" by (rule length_prim_payload)
  ultimately have b: "length (concat (map (field_bytes nb) [(tag, v)])) < 2 ^ 32"
    by (simp add: length_field_bytes)
  have ok: "\<forall>f \<in> set [(tag, v)]. tag_ok nb (fst f)" using assms by simp
  have "fst (FindTag False (Data (write_fields nb g [(tag, v)])) (reader_of (write_fields nb g [(tag, v)])) tag)
      = map_option (prim_entry \<circ> snd) (find (\<lambda>f. same_tag nb (fst f) tag) [(tag, v)])"
    by (rule fields_lookup(1) [OF _ ok b]) simp
  then show ?thesis by (simp add: same_tag_def)
qed

lemma round_trip_entry:
  assumes "tag_ok nb tag"
  shows "write_then_read (Field False (tag, v)) (ReadPrimitive (entry_type (prim_entry v))) nb g tag
           = Some (as_word (entry_value (prim_entry v)) :: 'a::len word)"
  unfolding write_then_read_fields
  by (rule ReadPrimitive_found [OF single_field_entry [OF assms]]) simp



lemma emplace_twice: "emplace (emplace m k e) k e' = emplace m k e"
  by (simp add: emplace_def split: option.splits)

lemma find_first_index:
  assumes "i < length fs" "P (fs ! i)" "\<forall>j < i. \<not> P (fs ! j)"
  shows "find P fs = Some (fs ! i)"
  using assms by (auto simp: find_Some_iff)

text \<open>
  Claim C2 as stated fails: of two fields written with the same tag, a read returns the
  value of the first, in id mode and in name mode; the value written last is 2.
\<close>

theorem duplicate_tag_counterexample:
  "fst (ReadInt8 False (Data (write_fields False 256 duplicate_fields))
          (reader_of (write_fields False 256 duplicate_fields)) tag_a) = Some 1 \<and>
   fst (ReadInt8 False (Data (write_fields True 256 duplicate_fields))
          (reader_of (write_fields True 256 duplicate_fields)) tag_a) = Some 1 \<and>
   snd (last duplicate_fields) = Int8Value 2 \<and> same_tag False (fst (last duplicate_fields)) tag_a
     \<and> same_tag True (fst (last duplicate_fields)) tag_a"
  by code_simp

text \<open>
  Claim C2, amended. When an object of primitive fields is written and read back, the
  lookup of a tag finds the entry of the first field written with that tag (the same name
  in name mode, the same id in id mode), whatever is written with the tag after it: a
  second \<open>emplace\<close> of a key leaves the index as the first one made it.
\<close>

theorem duplicate_tag_first_wins:
  assumes "\<forall>f \<in> set fs. tag_ok nb (fst f)"
    and "Size (write_fields nb g fs) < 2 ^ 32 + 4"
    and "i < length fs" and "same_tag nb (fst (fs ! i)) tag"
    and "\<forall>j < i. \<not> same_tag nb (fst (fs ! j)) tag"
  shows "fst (FindTag False (Data (write_fields nb g fs)) (reader_of (write_fields nb g fs)) tag)
           = Some (prim_entry (snd (fs ! i)))
         \<and> emplace (emplace m k e) k e' = emplace m k e"
proof
  have ne: "fs \<noteq> []" using assms(3) by auto
  have "Size (write_fields nb g fs) = 4 + length (concat (map (field_bytes nb) fs))"
    unfolding Size_def Data_def [symmetric] write_fields_buffer by (simp add: length_le_bytes)
  then have b: "length (concat (map (field_bytes nb) fs)) < 2 ^ 32"
    using assms(2) by simp
  have "find (\<lambda>f. same_tag nb (fst f) tag) fs = Some (fs ! i)"
    using assms(3-5) by (intro find_first_index) auto
  then show "fst (FindTag False (Data (write_fields nb g fs)) (reader_of (write_fields nb g fs)) tag)
           = Some (prim_entry (snd (fs ! i)))"
    by (simp add: fields_lookup(1) [OF ne assms(1) b])
  show "emplace (emplace m k e) k e' = emplace m k e" by (rule emplace_twice)
qed

theorem duplicate_tag_first_wins_witness:
  "list_all (\<lambda>f. tag_ok True (fst f)) duplicate_fields \<and>
   Size (write_fields True 256 duplicate_fields) < 2 ^ 32 + 4 \<and>
   1 < length duplicate_fields \<and> same_tag True (fst (duplicate_fields ! 1)) tag_a \<and>
   \<not> same_tag True (fst (duplicate_fields ! 0)) tag_a \<and>
   fst (FindTag False (Data (write_fields True 256 duplicate_fields))
          (reader_of (write_fields True 256 duplicate_fields)) tag_a)
     = Some \<lparr>entry_type = Int8, entry_value = v_int8 1\<rparr> \<and>
   emplace (emplace (Map.empty :: 16 word \<rightharpoonup> CacheEntry) 1 (prim_entry (Int8Value 1))) 1
     (prim_entry (Int8Value 2)) 1 = Some \<lparr>entry_type = Int8, entry_value = v_int8 1\<rparr>"
proof -
  have l1: "list_all (\<lambda>f. tag_ok True (fst f)) duplicate_fields"
    by (simp add: duplicate_fields_def tag_ok_def tag_a_def tag_b_def MAX_TAG_NAME_LENGTH_def)
  then have h1: "\<forall>f \<in> set duplicate_fields. tag_ok True (fst f)"
    by (simp add: list_all_iff)
  have "Size (write_fields True 256 duplicate_fields)
      = 4 + length (concat (map (field_bytes True) duplicate_fields))"
    unfolding Size_def Data_def [symmetric] write_fields_buffer by (simp add: length_le_bytes)
  then have h2: "Size (write_fields True 256 duplicate_fields) < 2 ^ 32 + 4"
    by (simp add: duplicate_fields_def length_field_bytes length_tag_bytes tag_a_def tag_b_def)
  have h3: "1 < length duplicate_fields" by (simp add: duplicate_fields_def)
  have h4: "same_tag True (fst (duplicate_fields ! 1)) tag_a"
    by (simp add: duplicate_fields_def same_tag_def)
  have l5: "\<not> same_tag True (fst (duplicate_fields ! 0)) tag_a"
    by (simp add: duplicate_fields_def same_tag_def tag_a_def tag_b_def)
  then have h5: "\<forall>j < 1. \<not> same_tag True (fst (duplicate_fields ! j)) tag_a" by simp
  have e: "prim_entry (snd (duplicate_fields ! 1)) = \<lparr>entry_type = Int8, entry_value = v_int8 1\<rparr>"
    by (simp add: duplicate_fields_def)
  note first = duplicate_tag_first_wins [OF h1 h2 h3 h4 h5, of "Map.empty :: 16 word \<rightharpoonup> CacheEntry" 1
      "prim_entry (Int8Value 1)" "prim_entry (Int8Value 2)"]
  have c1: "fst (FindTag False (Data (write_fields True 256 duplicate_fields))
          (reader_of (write_fields True 256 duplicate_fields)) tag_a)
     = Some \<lparr>entry_type = Int8, entry_value = v_int8 1\<rparr>"
    using first unfolding e by (rule conjunct1)
  have c2: "emplace (emplace (Map.empty :: 16 word \<rightharpoonup> CacheEntry) 1 (prim_entry (Int8Value 1))) 1
              (prim_entry (Int8Value 2)) 1 = Some \<lparr>entry_type = Int8, entry_value = v_int8 1\<rparr>"
    using first by simp
  from l1 h2 h3 h4 l5 c1 c2 show ?thesis by (intro conjI)
qed

text \<open>The first check of the loop of \<open>Initialize\<close> asks for \<open>sizeof(FieldSize)\<close> bytes: an
  array that ends fewer than 4 bytes after the start of an element is invalid, whatever
  the width of the element prefix.\<close>

lemma Initialize_short_tail:
  assumes "read_ptr < buff_end" "buff_end < read_ptr + 4"
  shows "Initialize_loop big est mem buff_end read_ptr count = (False, 0)"
proof -
  have "\<not> CanAccessBuffer read_ptr buff_end 4"
    using assms by (simp add: CanAccessBuffer_def)
  then show ?thesis
    using assms(1) by (subst Initialize_loop.simps) (simp only: if_True if_False not_not not_False_eq_True)
qed

lemma string_array_bytes:
  "Data (string_array_writer [[0x61]]) = [0x0A, 0, 0, 0, StringArray, 1, 0, 3, 0, 0, 0, 1, 0, 0x61]"
  by code_simp

text \<open>
  Claim C4 at a string array of one string of one character. \<open>AddElement\<close> and \<open>Finish\<close>
  write the array size 3 and the element \<open>01 00 61\<close>, which ends at the payload end; the
  reader over it is invalid, reports no element, returns no element 0 and iterates over
  nothing. With the string \<open>ab\<close> the reader is valid and returns the string.
\<close>

theorem short_string_array_is_invalid:
  "string_array_reader [[0x61]] = Some \<lparr>m_array = 7, m_element_count = 0, m_valid = False\<rparr> \<and>
   StringArrayReader_GetElement False (Data (string_array_writer [[0x61]]))
     \<lparr>m_array = 7, m_element_count = 0, m_valid = False\<rparr> 0 = None \<and>
   StringArrayReader_elements False (Data (string_array_writer [[0x61]]))
     \<lparr>m_array = 7, m_element_count = 0, m_valid = False\<rparr> = Some [] \<and>
   string_array_reader [[0x61, 0x62]] = Some \<lparr>m_array = 7, m_element_count = 1, m_valid = True\<rparr> \<and>
   StringArrayReader_GetElement False (Data (string_array_writer [[0x61, 0x62]]))
     \<lparr>m_array = 7, m_element_count = 1, m_valid = True\<rparr> 0 = Some [0x61, 0x62]"
proof (intro conjI)
  show "string_array_reader [[0x61]] = Some \<lparr>m_array = 7, m_element_count = 0, m_valid = False\<rparr>"
    by code_simp
  show "StringArrayReader_GetElement False (Data (string_array_writer [[0x61]]))
     \<lparr>m_array = 7, m_element_count = 0, m_valid = False\<rparr> 0 = None"
    by (simp add: StringArrayReader_GetElement_def GetElement_def)
  show "StringArrayReader_elements False (Data (string_array_writer [[0x61]]))
     \<lparr>m_array = 7, m_element_count = 0, m_valid = False\<rparr> = Some []"
    by (simp add: StringArrayReader_elements_def StringArrayReader_begin_def
        StringArrayReader_iterate.simps)
  show "string_array_reader [[0x61, 0x62]] = Some \<lparr>m_array = 7, m_element_count = 1, m_valid = True\<rparr>"
    by code_simp
  show "StringArrayReader_GetElement False (Data (string_array_writer [[0x61, 0x62]]))
     \<lparr>m_array = 7, m_element_count = 1, m_valid = True\<rparr> 0 = Some [0x61, 0x62]"
    by code_simp
qed

text \<open>
  Claim C5 at one \<open>Float32\<close> field with the bits of 1.0. The writer of a big-endian host
  writes the payload \<open>3F 80 00 00\<close>, that of a little-endian host \<open>00 00 80 3F\<close>; a reader
  on a little-endian host returns \<open>0x0000803F\<close> for the first buffer and \<open>0x3F800000\<close> for
  the second. An \<open>Int32\<close> field is written alike on both hosts. A reader on a big-endian
  host takes the size prefix \<open>07 00 00 00\<close> of either buffer for \<open>0x07000000\<close>.
\<close>

theorem float_field_depends_on_host:
  "float_field_buffer False 0x3F800000 = [7, 0, 0, 0, Float32, 1, 0, 0x00, 0x00, 0x80, 0x3F] \<and>
   float_field_buffer True 0x3F800000 = [7, 0, 0, 0, Float32, 1, 0, 0x3F, 0x80, 0x00, 0x00] \<and>
   read_on_little_endian ReadFloat32 (float_field_buffer False 0x3F800000) = Some 0x3F800000 \<and>
   read_on_little_endian ReadFloat32 (float_field_buffer True 0x3F800000) = Some 0x0000803F \<and>
   int_field_buffer True 0x3F800000 = int_field_buffer False 0x3F800000 \<and>
   read_on_little_endian ReadInt32 (int_field_buffer True 0x3F800000) = Some 0x3F800000 \<and>
   m_size (ObjectReader_at True (float_field_buffer False 0x3F800000) (Some 0) False) = 0x07000000 \<and>
   m_size (ObjectReader_at False (float_field_buffer False 0x3F800000) (Some 0) False) = 7"
  by code_simp

end
